theory Spec2Isabelle
  imports Complex_Main
begin

section \<open>Exceptions as values\<close>

text \<open>
  The library signals malformed input by throwing: \<^verbatim>\<open>std::invalid_argument\<close>,
  \<^verbatim>\<open>std::out_of_range\<close> and \<^verbatim>\<open>std::runtime_error\<close>, each with a message.
  \<^verbatim>\<open>new T[k]\<close> with a negative \<open>k\<close> throws \<^verbatim>\<open>std::bad_array_new_length\<close>.
  An access through \<^verbatim>\<open>data_[k]\<close> outside the allocated array is undefined behaviour in
  C++; the model makes it a result of its own so that no theorem can rest on it.
\<close>

datatype error =
    InvalidArgument string
  | OutOfRange string
  | RuntimeError string
  | BadArrayNewLength
  | UndefinedBehaviour

text \<open>Sequencing: an exception of the first computation skips the rest.\<close>

definition bind :: "error + 'a \<Rightarrow> ('a \<Rightarrow> error + 'b) \<Rightarrow> error + 'b" where
  "bind m f = (case m of Inl e \<Rightarrow> Inl e | Inr x \<Rightarrow> f x)"

text \<open>
  \<^verbatim>\<open>for (int i = 0; i < n; i++) body\<close>: the body is run for \<open>i = 0, ..., n - 1\<close> in
  this order on the state the loop changes; an exception leaves the loop.
\<close>

fun forM :: "int list \<Rightarrow> (int \<Rightarrow> 's \<Rightarrow> error + 's) \<Rightarrow> 's \<Rightarrow> error + 's" where
  "forM [] body s = Inr s"
| "forM (k # ks) body s = (case body k s of Inl e \<Rightarrow> Inl e | Inr s' \<Rightarrow> forM ks body s')"

definition for_upto :: "int \<Rightarrow> (int \<Rightarrow> 's \<Rightarrow> error + 's) \<Rightarrow> 's \<Rightarrow> error + 's" where
  "for_upto n body s = forM [0..n - 1] body s"

section \<open>Printing sizes\<close>

text \<open>
  \<^verbatim>\<open>PairToString\<close> streams \<^verbatim>\<open>"(" << first << "; " << second << ")"\<close>; the integers
  are printed in decimal, a negative one with a leading minus sign.
\<close>

fun digits :: "nat \<Rightarrow> string" where
  "digits n = (if n < 10 then [''0123456789'' ! n]
               else digits (n div 10) @ [''0123456789'' ! (n mod 10)])"

declare digits.simps [simp del]

definition to_string :: "int \<Rightarrow> string" where
  "to_string i = (if i < 0 then CHR ''-'' # digits (nat (- i)) else digits (nat i))"

definition PairToString :: "int \<times> int \<Rightarrow> string" where
  "PairToString p = ''('' @ to_string (fst p) @ ''; '' @ to_string (snd p) @ '')''"

section \<open>The class Matrix\<close>

text \<open>
  The seven private fields of \<^verbatim>\<open>Matrix<T>\<close>, written without the trailing underscore
  of the source (\<^verbatim>\<open>data_\<close>, \<^verbatim>\<open>rows_\<close>, ...). The type parameter \<open>'d\<close> is what
  \<^verbatim>\<open>data_\<close> holds. In the store model of the last sections it is an address
  (\<^verbatim>\<open>std::shared_ptr<T[]>\<close>: copying the pointer shares the array). Everywhere else a
  matrix is taken together with the current content of the array it points to, so
  \<open>'d\<close> is \<open>'a list\<close>, the array in row-major order. That reading is exact for an
  operation that only reads its operands (every \<^verbatim>\<open>const Matrix<T>&\<close> parameter) and for
  a matrix that is the only instance pointing to its array, which holds for every
  local of the eigenvalue routines: they never call \<^verbatim>\<open>SubMatrix\<close>, \<^verbatim>\<open>Row\<close> or
  \<^verbatim>\<open>Col\<close>.
\<close>

record 'd Matrix =
  data :: 'd
  data_rows :: int
  data_cols :: int
  cols :: int
  rows :: int
  offset_i :: int
  offset_j :: int

definition Size :: "'d Matrix \<Rightarrow> int \<times> int" where
  "Size m = (rows m, cols m)"

definition Rows :: "'d Matrix \<Rightarrow> int" where
  "Rows m = rows m"

definition Cols :: "'d Matrix \<Rightarrow> int" where
  "Cols m = cols m"

definition IsSquare :: "'d Matrix \<Rightarrow> bool" where
  "IsSquare m = (Cols m = Rows m)"

definition IsRowVector :: "'d Matrix \<Rightarrow> bool" where
  "IsRowVector m = (Rows m = 1)"

definition IsColVector :: "'d Matrix \<Rightarrow> bool" where
  "IsColVector m = (Cols m = 1)"

definition IsVector :: "'d Matrix \<Rightarrow> bool" where
  "IsVector m = (IsColVector m \<or> IsRowVector m)"

definition IsSubMatrix :: "'d Matrix \<Rightarrow> bool" where
  "IsSubMatrix m = (\<not> (cols m = data_cols m \<and> rows m = data_rows m
                        \<and> offset_i m = 0 \<and> offset_j m = 0))"

definition AssertEqualSizes :: "'d Matrix \<Rightarrow> 'e Matrix \<Rightarrow> error + unit" where
  "AssertEqualSizes a b =
     (if Size a \<noteq> Size b
      then Inl (InvalidArgument (''Wrong matrix sizes: '' @ PairToString (Size a) @ '' ''
                                  @ PairToString (Size b)))
      else Inr ())"

text \<open>
  \<^verbatim>\<open>T& At(int i, int j)\<close> returns a reference into the array: the model returns the
  index \<open>(i + offset_i) * data_cols + offset_j + j\<close> the reference stands for. The
  bounds check is compiled in unless \<^verbatim>\<open>DEBUG\<close> is defined; the model is the build
  without \<^verbatim>\<open>DEBUG\<close>.
\<close>

definition At :: "'d Matrix \<Rightarrow> int \<Rightarrow> int \<Rightarrow> error + int" where
  "At m i j =
     (if i < 0 \<or> j < 0 \<or> i \<ge> rows m \<or> j \<ge> cols m
      then Inl (OutOfRange (''Indexes ('' @ to_string i @ ''; '' @ to_string j
                             @ '') out of matrix size '' @ PairToString (Size m)))
      else Inr ((i + offset_i m) * data_cols m + offset_j m + j))"

text \<open>\<^verbatim>\<open>T& At(int i)\<close>, for vectors only.\<close>

definition At1 :: "'d Matrix \<Rightarrow> int \<Rightarrow> error + int" where
  "At1 m i =
     (if IsRowVector m then At m 0 i
      else if IsColVector m then At m i 0
      else Inl (RuntimeError (''trying to get value by single index in matrix of size ''
                              @ PairToString (Size m))))"

text \<open>Reading and writing the array through a reference.\<close>

definition load :: "'a list \<Rightarrow> int \<Rightarrow> error + 'a" where
  "load buf k = (if 0 \<le> k \<and> k < int (length buf) then Inr (buf ! nat k)
                 else Inl UndefinedBehaviour)"

definition store :: "'a list \<Rightarrow> int \<Rightarrow> 'a \<Rightarrow> error + 'a list" where
  "store buf k v = (if 0 \<le> k \<and> k < int (length buf) then Inr (buf[nat k := v])
                    else Inl UndefinedBehaviour)"

text \<open>
  \<open>get m i j\<close> is the value of the expression \<^verbatim>\<open>m(i, j)\<close>, \<open>put m i j v\<close> the
  statement \<^verbatim>\<open>m(i, j) = v\<close> and \<open>modify m i j f\<close> a compound assignment such as
  \<^verbatim>\<open>m(i, j) += x\<close> (with \<open>f old = old + x\<close>); \<open>get1\<close> and \<open>put1\<close> are the
  single-index forms \<^verbatim>\<open>m(i)\<close>.
\<close>

definition get :: "'a list Matrix \<Rightarrow> int \<Rightarrow> int \<Rightarrow> error + 'a" where
  "get m i j = bind (At m i j) (load (data m))"

definition put :: "'a list Matrix \<Rightarrow> int \<Rightarrow> int \<Rightarrow> 'a \<Rightarrow> error + 'a list Matrix" where
  "put m i j v = bind (At m i j) (\<lambda>k. bind (store (data m) k v)
                   (\<lambda>buf. Inr (m\<lparr>data := buf\<rparr>)))"

definition modify :: "'a list Matrix \<Rightarrow> int \<Rightarrow> int \<Rightarrow> ('a \<Rightarrow> 'a) \<Rightarrow> error + 'a list Matrix" where
  "modify m i j f = bind (At m i j) (\<lambda>k. bind (load (data m) k)
                      (\<lambda>old. bind (store (data m) k (f old))
                        (\<lambda>buf. Inr (m\<lparr>data := buf\<rparr>))))"

definition get1 :: "'a list Matrix \<Rightarrow> int \<Rightarrow> error + 'a" where
  "get1 m i = bind (At1 m i) (load (data m))"

definition put1 :: "'a list Matrix \<Rightarrow> int \<Rightarrow> 'a \<Rightarrow> error + 'a list Matrix" where
  "put1 m i v = bind (At1 m i) (\<lambda>k. bind (store (data m) k v)
                  (\<lambda>buf. Inr (m\<lparr>data := buf\<rparr>)))"

text \<open>
  \<^verbatim>\<open>Matrix(int n, int m, T value)\<close>: \<^verbatim>\<open>new T[n * m]\<close>, whose elements are
  indeterminate until the two loops have written \<open>value\<close> to each of them.
  \<^verbatim>\<open>Matrix(int n, int m)\<close> delegates with \<^verbatim>\<open>T()\<close>, which is zero, and
  \<^verbatim>\<open>Matrix()\<close> is \<^verbatim>\<open>Matrix(0, 0)\<close>. Machine integers are modelled by \<open>int\<close>:
  the products and counters of the source are assumed not to overflow.
\<close>

definition new_array :: "int \<Rightarrow> error + 'a list" where
  "new_array k = (if k < 0 then Inl BadArrayNewLength else Inr (replicate (nat k) undefined))"

definition Matrix_fill :: "int \<Rightarrow> int \<Rightarrow> 'a \<Rightarrow> error + 'a list Matrix" where
  "Matrix_fill n m v =
     bind (new_array (n * m)) (\<lambda>buf.
       for_upto n (\<lambda>i. for_upto m (\<lambda>j this. put this i j v))
         \<lparr>data = buf, data_rows = n, data_cols = m, cols = m, rows = n,
          offset_i = 0, offset_j = 0\<rparr>)"

definition Matrix_dims :: "int \<Rightarrow> int \<Rightarrow> error + ('a::zero) list Matrix" where
  "Matrix_dims n m = Matrix_fill n m 0"

definition Matrix_default :: "error + ('a::zero) list Matrix" where
  "Matrix_default = Matrix_dims 0 0"

definition Zeros :: "int \<Rightarrow> int \<Rightarrow> error + ('a::zero) list Matrix" where
  "Zeros n m = Matrix_dims n m"

text \<open>\<^verbatim>\<open>MakeRef\<close> overwrites all seven fields with those of its argument.\<close>

definition MakeRef :: "'d Matrix \<Rightarrow> 'd Matrix \<Rightarrow> 'd Matrix" where
  "MakeRef this b =
     this\<lparr>data := data b, data_rows := data_rows b, data_cols := data_cols b,
          cols := cols b, rows := rows b, offset_i := offset_i b, offset_j := offset_j b\<rparr>"

definition Swap :: "'d Matrix \<Rightarrow> 'd Matrix \<Rightarrow> 'd Matrix \<times> 'd Matrix" where
  "Swap this b = (MakeRef this b, MakeRef b this)"

definition Assign :: "'a list Matrix \<Rightarrow> 'a list Matrix \<Rightarrow> error + 'a list Matrix" where
  "Assign this b =
     bind (AssertEqualSizes this b) (\<lambda>_.
       for_upto (Rows this) (\<lambda>i. for_upto (Cols this) (\<lambda>j this.
         bind (get b i j) (\<lambda>x. put this i j x))) this)"

definition CopyFrom :: "('a::zero) list Matrix \<Rightarrow> 'a list Matrix \<Rightarrow> error + 'a list Matrix" where
  "CopyFrom this other =
     bind (Matrix_dims (Rows other) (Cols other)) (\<lambda>fresh. Assign (MakeRef this fresh) other)"

text \<open>
  The copy constructor \<^verbatim>\<open>Matrix(const Matrix<T>& other)\<close> calls \<^verbatim>\<open>CopyFrom\<close> on the
  object under construction, all of whose fields \<^verbatim>\<open>MakeRef\<close> overwrites.
\<close>

definition Matrix_copy :: "('a::zero) list Matrix \<Rightarrow> error + 'a list Matrix" where
  "Matrix_copy other = CopyFrom other other"

section \<open>Arithmetic and comparison\<close>

definition operator_plus_assign ::
  "('a::plus) list Matrix \<Rightarrow> 'a list Matrix \<Rightarrow> error + 'a list Matrix" where
  "operator_plus_assign this a =
     bind (AssertEqualSizes this a) (\<lambda>_.
       for_upto (Rows a) (\<lambda>i. for_upto (Cols a) (\<lambda>j this.
         bind (get a i j) (\<lambda>x. modify this i j (\<lambda>old. old + x)))) this)"

definition operator_minus_assign ::
  "('a::minus) list Matrix \<Rightarrow> 'a list Matrix \<Rightarrow> error + 'a list Matrix" where
  "operator_minus_assign this a =
     bind (AssertEqualSizes this a) (\<lambda>_.
       for_upto (Rows a) (\<lambda>i. for_upto (Cols a) (\<lambda>j this.
         bind (get a i j) (\<lambda>x. modify this i j (\<lambda>old. old - x)))) this)"

definition operator_times_assign ::
  "('a::times) list Matrix \<Rightarrow> 'a \<Rightarrow> error + 'a list Matrix" where
  "operator_times_assign this b =
     for_upto (Rows this) (\<lambda>i. for_upto (Cols this) (\<lambda>j this.
       modify this i j (\<lambda>old. old * b))) this"

text \<open>
  \<^verbatim>\<open>operator/=\<close> divides every element by \<open>b\<close>. The quotient is that of the scalar
  type: at \<open>real\<close> and \<open>complex\<close>, where the routines use it, \<open>x / 0\<close> is 0, whereas
  the machine gives an infinity or NaN, so that the values agree with the code's for
  \<open>b \<noteq> 0\<close> only.
\<close>

definition operator_divide_assign ::
  "('a::inverse) list Matrix \<Rightarrow> 'a \<Rightarrow> error + 'a list Matrix" where
  "operator_divide_assign this b =
     for_upto (Rows this) (\<lambda>i. for_upto (Cols this) (\<lambda>j this.
       modify this i j (\<lambda>old. old / b))) this"

definition operator_plus ::
  "('a::{zero,plus}) list Matrix \<Rightarrow> 'a list Matrix \<Rightarrow> error + 'a list Matrix" where
  "operator_plus a b =
     bind (AssertEqualSizes a b) (\<lambda>_.
       bind (Matrix_copy a) (\<lambda>res. operator_plus_assign res b))"

definition operator_minus ::
  "('a::{zero,minus}) list Matrix \<Rightarrow> 'a list Matrix \<Rightarrow> error + 'a list Matrix" where
  "operator_minus a b =
     bind (AssertEqualSizes a b) (\<lambda>_.
       bind (Matrix_copy a) (\<lambda>res. operator_minus_assign res b))"

text \<open>The matrix product: the loops run over \<open>i\<close>, then \<open>k\<close>, then \<open>j\<close>.\<close>

definition operator_mult ::
  "('a::{zero,plus,times}) list Matrix \<Rightarrow> 'a list Matrix \<Rightarrow> error + 'a list Matrix" where
  "operator_mult lhs rhs =
     (if Cols lhs \<noteq> Rows rhs
      then Inl (RuntimeError (''Bad matrix sizes '' @ PairToString (Size lhs) @ '' ''
                              @ PairToString (Size rhs)))
      else bind (Matrix_dims (Rows lhs) (Cols rhs)) (\<lambda>result.
        for_upto (Rows lhs) (\<lambda>i. for_upto (Cols lhs) (\<lambda>k. for_upto (Cols rhs) (\<lambda>j result.
          bind (get lhs i k) (\<lambda>x. bind (get rhs k j) (\<lambda>y.
            modify result i j (\<lambda>old. old + x * y)))))) result))"

text \<open>
  \<^verbatim>\<open>operator*(const Matrix<T>&, U)\<close>, \<^verbatim>\<open>operator/(const Matrix<T>&, U)\<close> and
  \<^verbatim>\<open>operator*(W, const Matrix<U>&)\<close>, which returns \<^verbatim>\<open>a * b\<close>.
\<close>

definition operator_mult_scalar ::
  "('a::{zero,times}) list Matrix \<Rightarrow> 'a \<Rightarrow> error + 'a list Matrix" where
  "operator_mult_scalar lhs rhs = bind (Matrix_copy lhs) (\<lambda>result. operator_times_assign result rhs)"

definition operator_div_scalar ::
  "('a::{zero,inverse}) list Matrix \<Rightarrow> 'a \<Rightarrow> error + 'a list Matrix" where
  "operator_div_scalar lhs rhs = bind (Matrix_copy lhs) (\<lambda>result. operator_divide_assign result rhs)"

definition operator_scalar_mult ::
  "'a \<Rightarrow> ('a::{zero,times}) list Matrix \<Rightarrow> error + 'a list Matrix" where
  "operator_scalar_mult b a = operator_mult_scalar a b"

definition ScalarProduct ::
  "('a::{zero,plus,times}) list Matrix \<Rightarrow> 'a list Matrix \<Rightarrow> error + 'a" where
  "ScalarProduct this b =
     (if \<not> IsVector this \<or> \<not> IsVector b
      then Inl (RuntimeError (''Matrices of sizes '' @ PairToString (Size this) @ '' and ''
                              @ PairToString (Size b) @ '' are not both vectors''))
      else bind (AssertEqualSizes this b) (\<lambda>_.
        for_upto (max (Cols this) (Rows this)) (\<lambda>i ans.
          bind (get1 this i) (\<lambda>x. bind (get1 b i) (\<lambda>y. Inr (ans + x * y)))) 0))"

text \<open>
  The comparison \<^verbatim>\<open>operator!=\<close> tests its elements for NaN, so its scalars are
  floating-point values: a finite value, one of the two infinities or NaN. The special
  values follow IEEE 754 in the operations the comparison and its operands use (sum,
  difference, absolute value, \<^verbatim>\<open>!=\<close> and \<^verbatim>\<open>>\<close>). A finite value is taken as the real
  number it stands for, the two zeros being one value, and the sum and the difference
  of finite values are exact; the machine rounds them, but not \<open>x + 0\<close> nor
  \<open>x - x\<close>, which are exact on the machine as well.
\<close>

datatype fp = Finite real | PInf | MInf | NaN

instantiation fp :: "{zero, plus, minus}"
begin

definition zero_fp :: fp where
  "zero_fp = Finite 0"

fun plus_fp :: "fp \<Rightarrow> fp \<Rightarrow> fp" where
  "plus_fp NaN y = NaN"
| "plus_fp (Finite x) NaN = NaN"
| "plus_fp PInf NaN = NaN"
| "plus_fp MInf NaN = NaN"
| "plus_fp PInf MInf = NaN"
| "plus_fp MInf PInf = NaN"
| "plus_fp PInf PInf = PInf"
| "plus_fp PInf (Finite y) = PInf"
| "plus_fp (Finite x) PInf = PInf"
| "plus_fp MInf MInf = MInf"
| "plus_fp MInf (Finite y) = MInf"
| "plus_fp (Finite x) MInf = MInf"
| "plus_fp (Finite x) (Finite y) = Finite (x + y)"

fun minus_fp :: "fp \<Rightarrow> fp \<Rightarrow> fp" where
  "minus_fp NaN y = NaN"
| "minus_fp (Finite x) NaN = NaN"
| "minus_fp PInf NaN = NaN"
| "minus_fp MInf NaN = NaN"
| "minus_fp PInf PInf = NaN"
| "minus_fp MInf MInf = NaN"
| "minus_fp PInf MInf = PInf"
| "minus_fp PInf (Finite y) = PInf"
| "minus_fp (Finite x) MInf = PInf"
| "minus_fp MInf PInf = MInf"
| "minus_fp MInf (Finite y) = MInf"
| "minus_fp (Finite x) PInf = MInf"
| "minus_fp (Finite x) (Finite y) = Finite (x - y)"

instance ..

end

text \<open>\<^verbatim>\<open>std::abs\<close>, \<^verbatim>\<open>x > y\<close> and \<^verbatim>\<open>x != y\<close> on floating-point values.\<close>

fun fp_abs :: "fp \<Rightarrow> fp" where
  "fp_abs (Finite x) = Finite \<bar>x\<bar>"
| "fp_abs PInf = PInf"
| "fp_abs MInf = PInf"
| "fp_abs NaN = NaN"

fun fp_gt :: "fp \<Rightarrow> fp \<Rightarrow> bool" where
  "fp_gt NaN y = False"
| "fp_gt (Finite x) NaN = False"
| "fp_gt PInf NaN = False"
| "fp_gt MInf y = False"
| "fp_gt PInf PInf = False"
| "fp_gt PInf (Finite y) = True"
| "fp_gt PInf MInf = True"
| "fp_gt (Finite x) PInf = False"
| "fp_gt (Finite x) MInf = True"
| "fp_gt (Finite x) (Finite y) = (x > y)"

definition fp_ne :: "fp \<Rightarrow> fp \<Rightarrow> bool" where
  "fp_ne x y = (x = NaN \<or> y = NaN \<or> x \<noteq> y)"

text \<open>
  \<^verbatim>\<open>operator!=\<close> returns \<^verbatim>\<open>true\<close> from inside its loops at the first pair of
  elements that differ: the loop state is whether it has returned, and an iteration
  after the return reads nothing. The test of a pair is
  \<^verbatim>\<open>a(i, j) != a(i, j) || b(i, j) != b(i, j) || std::abs(a(i, j) - b(i, j)) > eps\<close>.
  \<open>eps\<close> is the static \<^verbatim>\<open>Matrix<T>::eps\<close> that \<^verbatim>\<open>GetEps()\<close> returns and
  \<^verbatim>\<open>SetEps\<close> sets; its initial value is \<^verbatim>\<open>std::numeric_limits<T>::epsilon()\<close>.
\<close>

definition operator_ne :: "fp \<Rightarrow> fp list Matrix \<Rightarrow> fp list Matrix \<Rightarrow> error + bool" where
  "operator_ne eps a b =
     bind (AssertEqualSizes a b) (\<lambda>_.
       for_upto (Rows a) (\<lambda>i. for_upto (Cols a) (\<lambda>j returned.
         if returned then Inr True
         else bind (get a i j) (\<lambda>x. bind (get b i j) (\<lambda>y.
           Inr (fp_ne x x \<or> fp_ne y y \<or> fp_gt (fp_abs (x - y)) eps))))) False)"

definition operator_eq :: "fp \<Rightarrow> fp list Matrix \<Rightarrow> fp list Matrix \<Rightarrow> error + bool" where
  "operator_eq eps a b = bind (operator_ne eps a b) (\<lambda>r. Inr (\<not> r))"

definition ToComplex :: "real list Matrix \<Rightarrow> error + complex list Matrix" where
  "ToComplex this =
     bind (Matrix_dims (Rows this) (Cols this)) (\<lambda>ans.
       for_upto (Rows this) (\<lambda>i. for_upto (Cols this) (\<lambda>j ans.
         bind (get this i j) (\<lambda>x. put ans i j (complex_of_real x)))) ans)"

section \<open>The power-iteration routines\<close>

text \<open>
  The routines include three headers that are not among the sources:
  \<^verbatim>\<open>EuclideanNorm\<close>, \<^verbatim>\<open>MinimalSquareProblem\<close> and \<^verbatim>\<open>SolveQuadraticEquation\<close>.
  They are parameters of the model, together with the two static tolerances the
  routines read: \<^verbatim>\<open>Matrix<T>::eps\<close> and \<^verbatim>\<open>Matrix<std::complex<T>>::eps\<close>. The scalar
  type \<^verbatim>\<open>T\<close> is modelled by \<open>real\<close> and \<^verbatim>\<open>std::complex<T>\<close> by \<open>complex\<close>:
  exact arithmetic, without the rounding, infinities and NaNs of floating point. A
  quotient by zero is 0 at these types, where the machine gives an infinity or NaN: the
  values the model computes are those of the code on the runs that divide by no zero
  (a run of a routine divides by the norm of its iterate \<open>y\<close>, and Method 2 by
  \<open>2 * lambda * lambda\<close>).
\<close>

record env =
  EuclideanNorm :: "real list Matrix \<Rightarrow> real"
  EuclideanNormC :: "complex list Matrix \<Rightarrow> complex"
  MinimalSquareProblem :: "real list Matrix \<Rightarrow> real list Matrix \<Rightarrow> real list Matrix"
  SolveQuadraticEquation :: "real \<Rightarrow> real \<Rightarrow> real \<Rightarrow> complex \<times> complex"
  GetEps :: real
  GetEpsC :: complex

text \<open>
  An out-parameter \<^verbatim>\<open>int* iters\<close> is \<open>None\<close> for \<^verbatim>\<open>nullptr\<close> and \<open>Some v\<close> for a
  pointer to an \<^verbatim>\<open>int\<close> holding \<open>v\<close>; \<^verbatim>\<open>if (iters) { *iters = v; }\<close> is \<open>set_iters\<close>.
  A parameter passed by non-const reference is returned updated.
\<close>

definition set_iters :: "int option \<Rightarrow> int \<Rightarrow> int option" where
  "set_iters iters v = (case iters of None \<Rightarrow> None | Some _ \<Rightarrow> Some v)"

definition not_square :: "'d Matrix \<Rightarrow> error" where
  "not_square a = InvalidArgument (''Matrix of size '' @ PairToString (Size a) @ '' is not square.'')"

subsection \<open>Method 1\<close>

definition PowerIterationMethod1Iteration ::
  "env \<Rightarrow> real list Matrix \<Rightarrow> real list Matrix \<Rightarrow> real list Matrix
   \<Rightarrow> error + (real \<times> real list Matrix \<times> real list Matrix)" where
  "PowerIterationMethod1Iteration E a u y =
     bind (operator_mult a u) (\<lambda>au.
     bind (Assign y au) (\<lambda>y.
     bind (operator_div_scalar y (EuclideanNorm E y)) (\<lambda>q.
     bind (Assign u q) (\<lambda>u.
     bind (operator_mult a u) (\<lambda>au.
     bind (ScalarProduct u au) (\<lambda>lambda.
     Inr (lambda, u, y)))))))"

text \<open>
  The \<^verbatim>\<open>while\<close> loop of \<^verbatim>\<open>PowerMethodEigenvalues1\<close>, from its state
  \<open>(lambda, prev_lambda, u, y, iter)\<close> to the state it ends in.
\<close>

function PowerMethodEigenvalues1_loop ::
  "env \<Rightarrow> real list Matrix \<Rightarrow> int \<Rightarrow> real \<Rightarrow> real \<Rightarrow> real list Matrix \<Rightarrow> real list Matrix \<Rightarrow> int
   \<Rightarrow> error + (real \<times> real list Matrix \<times> real list Matrix \<times> int)" where
  "PowerMethodEigenvalues1_loop E a max_iters lambda prev_lambda u y iter =
     (if \<bar>prev_lambda - lambda\<bar> > GetEps E then
        (case PowerIterationMethod1Iteration E a u y of
           Inl e \<Rightarrow> Inl e
         | Inr (lambda', u', y') \<Rightarrow>
             if iter + 1 > max_iters then Inr (lambda', u', y', iter + 1)
             else PowerMethodEigenvalues1_loop E a max_iters lambda' lambda u' y' (iter + 1))
      else Inr (lambda, u, y, iter))"
  by pat_completeness auto
termination
  by (relation "measure (\<lambda>(E, a, max_iters, lambda, prev_lambda, u, y, iter). nat (max_iters - iter))")
     auto

declare PowerMethodEigenvalues1_loop.simps [simp del]

text \<open>
  \<^verbatim>\<open>PowerMethodEigenvalues1\<close> takes \<open>y\<close> by value: \<open>y\<close> here is the parameter object,
  which the caller has copy-constructed.
\<close>

definition PowerMethodEigenvalues1 ::
  "env \<Rightarrow> real list Matrix \<Rightarrow> real list Matrix \<Rightarrow> int option \<Rightarrow> int
   \<Rightarrow> error + ((real \<times> real list Matrix) \<times> int option)" where
  "PowerMethodEigenvalues1 E a y iters max_iters =
     (if \<not> IsSquare a then Inl (not_square a)
      else
        bind (put1 y 0 1) (\<lambda>y.
        bind (operator_div_scalar y (EuclideanNorm E y)) (\<lambda>u.
        bind (operator_mult a u) (\<lambda>au.
        bind (ScalarProduct u au) (\<lambda>lambda.
        bind (PowerMethodEigenvalues1_loop E a max_iters lambda (10 ^ 18) u y 0)
          (\<lambda>(lambda, u, y, iter).
             Inr ((lambda, u),
                  set_iters iters
                    (if iter \<ge> max_iters \<or> EuclideanNorm E u < GetEps E then - 1
                     else iter + 1))))))))"

subsection \<open>Method 2\<close>

definition PowerIterationMethod2Iteration ::
  "env \<Rightarrow> real list Matrix \<Rightarrow> real list Matrix \<Rightarrow> real list Matrix \<Rightarrow> real list Matrix
   \<Rightarrow> error + (real \<times> real list Matrix \<times> real list Matrix)" where
  "PowerIterationMethod2Iteration E a a2 u y =
     bind (operator_mult a2 u) (\<lambda>a2u.
     bind (Assign y a2u) (\<lambda>y.
     bind (operator_div_scalar y (EuclideanNorm E y)) (\<lambda>q.
     bind (Assign u q) (\<lambda>u.
     bind (operator_mult a2 u) (\<lambda>a2u.
     bind (ScalarProduct u a2u) (\<lambda>lambda.
     Inr (lambda, u, y)))))))"

function PowerMethodEigenvalues2_loop ::
  "env \<Rightarrow> real list Matrix \<Rightarrow> real list Matrix \<Rightarrow> int \<Rightarrow> real \<Rightarrow> real \<Rightarrow> real
   \<Rightarrow> real list Matrix \<Rightarrow> real list Matrix \<Rightarrow> int
   \<Rightarrow> error + (real \<times> real list Matrix \<times> real list Matrix \<times> int)" where
  "PowerMethodEigenvalues2_loop E a a2 max_iters eps lambda prev_lambda u y iter =
     (if \<bar>lambda - prev_lambda\<bar> > eps then
        (case PowerIterationMethod2Iteration E a a2 u y of
           Inl e \<Rightarrow> Inl e
         | Inr (r, u', y') \<Rightarrow>
             if iter + 1 > max_iters then Inr (sqrt \<bar>r\<bar>, u', y', iter + 1)
             else PowerMethodEigenvalues2_loop E a a2 max_iters eps (sqrt \<bar>r\<bar>) lambda u' y'
                    (iter + 1))
      else Inr (lambda, u, y, iter))"
  by pat_completeness auto
termination
  by (relation "measure (\<lambda>(E, a, a2, max_iters, eps, lambda, prev_lambda, u, y, iter).
                           nat (max_iters - iter))")
     auto

declare PowerMethodEigenvalues2_loop.simps [simp del]

text \<open>
  The two candidates \<^verbatim>\<open>(lambda * a * u + a2 * u) / (2 * lambda * lambda)\<close> and
  \<^verbatim>\<open>(-lambda * a * u + a2 * u) / (2 * lambda * lambda)\<close>: \<open>candidate s\<close> with
  \<open>s = lambda\<close> and \<open>s = - lambda\<close>. The product \<^verbatim>\<open>lambda * a * u\<close> is
  \<^verbatim>\<open>(lambda * a) * u\<close>.
\<close>

definition candidate ::
  "real \<Rightarrow> real \<Rightarrow> real list Matrix \<Rightarrow> real list Matrix \<Rightarrow> real list Matrix
   \<Rightarrow> error + real list Matrix" where
  "candidate s lambda a a2 u =
     bind (operator_scalar_mult s a) (\<lambda>sa.
     bind (operator_mult sa u) (\<lambda>sau.
     bind (operator_mult a2 u) (\<lambda>a2u.
     bind (operator_plus sau a2u) (\<lambda>w.
     operator_div_scalar w (2 * lambda * lambda)))))"

text \<open>
  The part of \<^verbatim>\<open>PowerMethodEigenvalues2\<close> after its loop, from the loop's \<open>lambda\<close>,
  \<open>u\<close> and \<open>iter\<close>: the result list and the value of the out-parameter.
\<close>

definition PowerMethodEigenvalues2_results ::
  "env \<Rightarrow> real list Matrix \<Rightarrow> real list Matrix \<Rightarrow> int option \<Rightarrow> int \<Rightarrow> real
   \<Rightarrow> real \<Rightarrow> real list Matrix \<Rightarrow> int
   \<Rightarrow> error + ((complex \<times> complex list Matrix) list \<times> int option)" where
  "PowerMethodEigenvalues2_results E a a2 iters max_iters eps lambda u iter =
     bind (candidate lambda lambda a a2 u) (\<lambda>v1.
     bind (candidate (- lambda) lambda a a2 u) (\<lambda>v2.
     bind (if EuclideanNorm E v1 > eps
           then bind (ToComplex v1) (\<lambda>c. Inr [(complex_of_real lambda, c)])
           else Inr []) (\<lambda>ans.
     bind (if EuclideanNorm E v2 > eps
           then bind (ToComplex v2) (\<lambda>c. Inr (ans @ [(complex_of_real (- lambda), c)]))
           else Inr ans) (\<lambda>ans.
     Inr (ans, set_iters iters (if iter \<ge> max_iters \<or> ans = [] then - 1 else iter + 1))))))"

text \<open>
  \<^verbatim>\<open>PowerMethodEigenvalues2\<close> takes \<open>y\<close> by reference: the third component of the
  result is \<open>y\<close> as the call leaves it.
\<close>

definition PowerMethodEigenvalues2 ::
  "env \<Rightarrow> real list Matrix \<Rightarrow> real list Matrix \<Rightarrow> int option \<Rightarrow> int \<Rightarrow> real
   \<Rightarrow> error + ((complex \<times> complex list Matrix) list \<times> int option \<times> real list Matrix)" where
  "PowerMethodEigenvalues2 E a y iters max_iters eps =
     (if \<not> IsSquare a then Inl (not_square a)
      else
        bind (operator_mult a a) (\<lambda>a2.
        bind (operator_div_scalar y (EuclideanNorm E y)) (\<lambda>u.
        bind (operator_mult a2 u) (\<lambda>a2u.
        bind (ScalarProduct u a2u) (\<lambda>r.
        bind (Matrix_copy u) (\<lambda>v1.
        bind (Matrix_copy u) (\<lambda>v2.
        bind (PowerMethodEigenvalues2_loop E a a2 max_iters eps (sqrt \<bar>r\<bar>) (10 ^ 18) u y 0)
          (\<lambda>(lambda, u, y, iter).
        bind (PowerMethodEigenvalues2_results E a a2 iters max_iters eps lambda u iter)
          (\<lambda>(ans, iters). Inr (ans, iters, y))))))))))"

subsection \<open>Method 3\<close>

text \<open>
  The linear system one iteration of Method 3 hands to \<^verbatim>\<open>MinimalSquareProblem\<close>: the
  matrix \<open>l\<close> and the right-hand side \<open>r\<close>, built from the iterate \<open>u\<close>.
\<close>

definition ComplexIteration_system ::
  "complex list Matrix \<Rightarrow> complex list Matrix \<Rightarrow> complex list Matrix
   \<Rightarrow> error + (real list Matrix \<times> real list Matrix)" where
  "ComplexIteration_system a squared_a u =
     bind (Matrix_dims (Rows u) 2) (\<lambda>l.
     bind (operator_mult a u) (\<lambda>au.
     bind (for_upto (Rows u) (\<lambda>i l.
             bind (get1 u i) (\<lambda>x. bind (put l i 0 (Re x)) (\<lambda>l.
             bind (get1 au i) (\<lambda>z. put l i 1 (Re z))))) l) (\<lambda>l.
     bind (operator_scalar_mult (- 1) squared_a) (\<lambda>m.
     bind (operator_mult m u) (\<lambda>rc.
     bind (Matrix_dims (Rows u) 1) (\<lambda>r.
     bind (for_upto (Rows u) (\<lambda>i r. bind (get1 rc i) (\<lambda>x. put1 r i (Re x))) r) (\<lambda>r.
     Inr (l, r))))))))"

definition PowerMethodEigenvaluesComplexIteration ::
  "env \<Rightarrow> complex list Matrix \<Rightarrow> complex list Matrix \<Rightarrow> complex list Matrix
   \<Rightarrow> complex list Matrix
   \<Rightarrow> error + ((complex \<times> complex) \<times> complex list Matrix \<times> complex list Matrix)" where
  "PowerMethodEigenvaluesComplexIteration E a squared_a y u =
     bind (operator_mult a u) (\<lambda>au.
     bind (Assign y au) (\<lambda>y.
     bind (operator_div_scalar y (EuclideanNormC E y)) (\<lambda>q.
     bind (Assign u q) (\<lambda>u.
     bind (ComplexIteration_system a squared_a u) (\<lambda>(l, r).
     let c = MinimalSquareProblem E l r in
     bind (get1 c 1) (\<lambda>c1.
     bind (get1 c 0) (\<lambda>c0.
     Inr (SolveQuadraticEquation E 1 c1 c0, y, u))))))))"

function PowerMethodEigenvalues3_loop ::
  "env \<Rightarrow> complex list Matrix \<Rightarrow> complex list Matrix \<Rightarrow> int
   \<Rightarrow> complex \<Rightarrow> complex \<Rightarrow> complex \<Rightarrow> complex
   \<Rightarrow> complex list Matrix \<Rightarrow> complex list Matrix \<Rightarrow> int
   \<Rightarrow> error + (complex \<times> complex \<times> complex list Matrix \<times> complex list Matrix \<times> int)" where
  "PowerMethodEigenvalues3_loop E a squared_a max_iters prev_r1 r1 prev_r2 r2 y u iter =
     (if cmod (prev_r1 - r1) > \<bar>GetEps E\<bar> \<or> cmod (prev_r2 - r2) > \<bar>GetEps E\<bar> then
        (case PowerMethodEigenvaluesComplexIteration E a squared_a y u of
           Inl e \<Rightarrow> Inl e
         | Inr ((p1, p2), y', u') \<Rightarrow>
             if iter + 1 > max_iters then Inr (p1, p2, y', u', iter + 1)
             else PowerMethodEigenvalues3_loop E a squared_a max_iters r1 p1 r2 p2 y' u'
                    (iter + 1))
      else Inr (r1, r2, y, u, iter))"
  by pat_completeness auto
termination
  by (relation "measure (\<lambda>(E, a, squared_a, max_iters, prev_r1, r1, prev_r2, r2, y, u, iter).
                           nat (max_iters - iter))")
     auto

declare PowerMethodEigenvalues3_loop.simps [simp del]

definition PowerMethodEigenvalues3 ::
  "env \<Rightarrow> real list Matrix \<Rightarrow> int option \<Rightarrow> int
   \<Rightarrow> error + ((complex \<times> complex list Matrix) list \<times> int option)" where
  "PowerMethodEigenvalues3 E a iters max_iters =
     (if \<not> IsSquare a then Inl (not_square a)
      else
        bind (operator_mult a a) (\<lambda>squared_a.
        bind (ToComplex a) (\<lambda>complex_a.
        bind (ToComplex squared_a) (\<lambda>complex_squared_a.
        bind (Matrix_dims (Rows a) 1) (\<lambda>complex_y.
        bind (put1 complex_y 0 1) (\<lambda>complex_y.
        bind (operator_div_scalar complex_y (EuclideanNormC E complex_y)) (\<lambda>u.
        bind (PowerMethodEigenvalues3_loop E complex_a complex_squared_a max_iters
                (10 ^ 18) 0 (10 ^ 18) 0 complex_y u 0) (\<lambda>(r1, r2, complex_y, u, iter).
        bind (operator_mult complex_a u) (\<lambda>u1.
        bind (operator_mult complex_squared_a u) (\<lambda>u2.
        bind (Matrix_dims (Rows u) 1) (\<lambda>v1.
        bind (Matrix_dims (Rows u) 1) (\<lambda>v2.
        bind (for_upto (Rows u) (\<lambda>i (v1, v2).
                bind (get1 u2 i) (\<lambda>x2. bind (get1 u1 i) (\<lambda>x1.
                bind (put1 v1 i (x2 - r2 * x1)) (\<lambda>v1.
                bind (put1 v2 i (x1 - x2 / r1)) (\<lambda>v2. Inr (v1, v2)))))) (v1, v2))
          (\<lambda>(v1, v2).
             Inr ((if (cmod (EuclideanNormC E v1))\<^sup>2 > (cmod (GetEpsC E))\<^sup>2 then [(r1, v1)] else [])
                  @ (if (cmod (EuclideanNormC E v2))\<^sup>2 > (cmod (GetEpsC E))\<^sup>2 then [(r2, v2)]
                     else []),
                  set_iters iters (if iter \<ge> max_iters then - 1 else iter + 1)))))))))))))))"

subsection \<open>The dispatcher\<close>

text \<open>
  \<^verbatim>\<open>PowerMethodEigenvalues\<close>. Its first part, under \<^verbatim>\<open>if (force_method != -1)\<close>, returns
  from the cases 0, 1 and 2 of the \<^verbatim>\<open>switch\<close> (\<open>Some\<close> of the value returned) and
  falls through for any other value (\<open>None\<close>). The locals \<^verbatim>\<open>iters_\<close> and \<^verbatim>\<open>iters__\<close>
  are initialised with 0 and passed by address.
\<close>

definition PowerMethodEigenvalues_forced ::
  "env \<Rightarrow> real list Matrix \<Rightarrow> int option \<Rightarrow> int \<Rightarrow> int
   \<Rightarrow> error + ((complex \<times> complex list Matrix) list \<times> int option) option" where
  "PowerMethodEigenvalues_forced E a iters max_iters force_method =
     (if force_method \<noteq> - 1 then
        bind (Matrix_dims (Rows a) 1) (\<lambda>y.
        bind (put1 y 0 1) (\<lambda>y.
          if force_method = 0 then
            bind (Matrix_copy y) (\<lambda>y'.
            bind (PowerMethodEigenvalues1 E a y' iters max_iters) (\<lambda>((e, v), iters).
            bind (ToComplex v) (\<lambda>c. Inr (Some ([(complex_of_real e, c)], iters)))))
          else if force_method = 1 then
            bind (PowerMethodEigenvalues2 E a y iters max_iters (GetEps E))
              (\<lambda>(ans, iters, y). Inr (Some (ans, iters)))
          else if force_method = 2 then
            bind (PowerMethodEigenvalues3 E a iters max_iters) (\<lambda>r. Inr (Some r))
          else Inr None))
      else Inr None)"

definition PowerMethodEigenvalues ::
  "env \<Rightarrow> real list Matrix \<Rightarrow> int option \<Rightarrow> int \<Rightarrow> int \<Rightarrow> int \<Rightarrow> int
   \<Rightarrow> error + ((complex \<times> complex list Matrix) list \<times> int option)" where
  "PowerMethodEigenvalues E a iters max_iters check_iters check_step force_method =
     bind (PowerMethodEigenvalues_forced E a (set_iters iters 0) max_iters force_method)
       (\<lambda>forced. case forced of
          Some r \<Rightarrow> Inr r
        | None \<Rightarrow>
            bind (Matrix_dims (Rows a) 1) (\<lambda>y.
            bind (put1 y 0 1) (\<lambda>y.
            bind (PowerMethodEigenvalues2 E a y (Some 0) max_iters (1 / 10)) (\<lambda>(probe, iters1, y).
            bind (if (case iters1 of Some v \<Rightarrow> v | None \<Rightarrow> 0) \<ge> 0 then
                    bind (PowerMethodEigenvalues2 E a y (Some 0) max_iters (GetEps E))
                      (\<lambda>(res, iters2, y).
                         if (case iters2 of Some v \<Rightarrow> v | None \<Rightarrow> 0) \<ge> 0 \<and> res \<noteq> [] then
                           Inr (Some (res, set_iters iters
                                  ((case iters1 of Some v \<Rightarrow> v | None \<Rightarrow> 0)
                                   + (case iters2 of Some v \<Rightarrow> v | None \<Rightarrow> 0))))
                         else Inr None)
                  else Inr None)
              (\<lambda>returned. case returned of
                 Some r \<Rightarrow> Inr r
               | None \<Rightarrow> PowerMethodEigenvalues3 E a (set_iters iters 0) max_iters)))))"

section \<open>Notions for stating the theorems\<close>

text \<open>
  The representation invariant of a matrix taken with the content of its array: the
  logical extents fit into the array behind the offsets, and the array has
  \<open>data_rows * data_cols\<close> elements. \<open>inrange\<close> are the indices the bounds check of
  \<^verbatim>\<open>At\<close> accepts, \<open>idx\<close> is the array index of an element and \<open>elem\<close> the
  element itself.
\<close>

definition wf :: "'a list Matrix \<Rightarrow> bool" where
  "wf m = (0 \<le> rows m \<and> 0 \<le> cols m \<and> 0 \<le> offset_i m \<and> 0 \<le> offset_j m
           \<and> offset_i m + rows m \<le> data_rows m \<and> offset_j m + cols m \<le> data_cols m
           \<and> int (length (data m)) = data_rows m * data_cols m)"

definition inrange :: "'d Matrix \<Rightarrow> int \<Rightarrow> int \<Rightarrow> bool" where
  "inrange m i j = (0 \<le> i \<and> i < rows m \<and> 0 \<le> j \<and> j < cols m)"

definition idx :: "'d Matrix \<Rightarrow> int \<Rightarrow> int \<Rightarrow> int" where
  "idx m i j = (i + offset_i m) * data_cols m + offset_j m + j"

definition elem :: "'a list Matrix \<Rightarrow> int \<Rightarrow> int \<Rightarrow> 'a" where
  "elem m i j = data m ! nat ((i + offset_i m) * data_cols m + offset_j m + j)"

text \<open>
  \<open>frame t t'\<close>: \<open>t'\<close> is \<open>t\<close> with other values in its array. An owning instance
  is one that \<^verbatim>\<open>IsSubMatrix\<close> does not report as a view; \<open>shaped n m t\<close> is an
  owning \<open>n\<close> by \<open>m\<close> matrix.
\<close>

definition frame :: "'a list Matrix \<Rightarrow> 'a list Matrix \<Rightarrow> bool" where
  "frame t t' = (t' = t\<lparr>data := data t'\<rparr> \<and> length (data t') = length (data t))"

definition owning :: "'a list Matrix \<Rightarrow> bool" where
  "owning m = (wf m \<and> \<not> IsSubMatrix m)"

definition shaped :: "int \<Rightarrow> int \<Rightarrow> 'a list Matrix \<Rightarrow> bool" where
  "shaped n m t = (owning t \<and> rows t = n \<and> cols t = m)"

text \<open>
  The sum \<open>\<Sum>k' < k. lhs(i, k') * rhs(k', j)\<close> the matrix product accumulates, the
  \<open>i\<close>-th element and the length of a vector as the single-index access reads them,
  and the sum of the first \<open>n\<close> products of corresponding elements of two vectors.
\<close>

definition psum :: "('a::semiring_0) list Matrix \<Rightarrow> 'a list Matrix \<Rightarrow> int \<Rightarrow> int \<Rightarrow> int \<Rightarrow> 'a" where
  "psum lhs rhs i j k = (\<Sum>k' \<in> {0..<k}. elem lhs i k' * elem rhs k' j)"

definition velem :: "'a list Matrix \<Rightarrow> int \<Rightarrow> 'a" where
  "velem m i = (if rows m = 1 then elem m 0 i else elem m i 0)"

definition vlen :: "'d Matrix \<Rightarrow> int" where
  "vlen m = (if rows m = 1 then cols m else rows m)"

definition vdot :: "('a::semiring_0) list Matrix \<Rightarrow> 'a list Matrix \<Rightarrow> int \<Rightarrow> 'a" where
  "vdot a b n = (\<Sum>i \<in> {0..<n}. velem a i * velem b i)"

text \<open>
  \<open>mk n m xs\<close> is the owning \<open>n\<close> by \<open>m\<close> instance whose array holds \<open>xs\<close>, the
  state in which the constructors leave a matrix with these elements (in the store
  model, the instance at the address \<open>xs\<close>).
\<close>

definition mk :: "int \<Rightarrow> int \<Rightarrow> 'd \<Rightarrow> 'd Matrix" where
  "mk n m xs = \<lparr>data = xs, data_rows = n, data_cols = m, cols = m, rows = n,
               offset_i = 0, offset_j = 0\<rparr>"

text \<open>
  The test \<^verbatim>\<open>operator!=\<close> makes of a pair of elements, and the floating-point values
  that are numbers.
\<close>

definition differs :: "fp \<Rightarrow> fp \<Rightarrow> fp \<Rightarrow> bool" where
  "differs eps x y = (fp_ne x x \<or> fp_ne y y \<or> fp_gt (fp_abs (x - y)) eps)"

fun fp_finite :: "fp \<Rightarrow> bool" where
  "fp_finite (Finite x) = True"
| "fp_finite PInf = False"
| "fp_finite MInf = False"
| "fp_finite NaN = False"

text \<open>
  The two comparisons of the specification's testable property, as the expressions a
  test would evaluate: \<^verbatim>\<open>(A + Zeros(A.Rows(), A.Cols())) == A\<close> and
  \<^verbatim>\<open>(A - A) == Zeros(A.Rows(), A.Cols())\<close>, under the tolerance \<open>eps\<close>.
\<close>

definition plus_zeros_eq :: "fp \<Rightarrow> fp list Matrix \<Rightarrow> error + bool" where
  "plus_zeros_eq eps a =
     bind (Zeros (Rows a) (Cols a)) (\<lambda>z. bind (operator_plus a z) (\<lambda>s. operator_eq eps s a))"

definition minus_self_eq :: "fp \<Rightarrow> fp list Matrix \<Rightarrow> error + bool" where
  "minus_self_eq eps a =
     bind (Zeros (Rows a) (Cols a)) (\<lambda>z. bind (operator_minus a a) (\<lambda>d. operator_eq eps d z))"

text \<open>
  What the routines need of \<^verbatim>\<open>MinimalSquareProblem\<close>: for a system of \<open>n\<close>
  equations in two unknowns it returns the two unknowns as a column vector, so that
  \<^verbatim>\<open>c(0)\<close> and \<^verbatim>\<open>c(1)\<close> can be read.
\<close>

definition solves_two_unknowns :: "env \<Rightarrow> int \<Rightarrow> bool" where
  "solves_two_unknowns E n =
     (\<forall>l r. shaped n 2 l \<and> shaped n 1 r \<longrightarrow> shaped 2 1 (MinimalSquareProblem E l r))"

text \<open>
  Modelled from the spec: \<^verbatim>\<open>EuclideanNorm\<close>, which is not among the sources, ``returning
  the 2-norm of a vector-shaped matrix'': the square root of the sum of the squares
  (of the moduli, for complex scalars) of the elements.
\<close>

definition EuclideanNorm_spec :: "real list Matrix \<Rightarrow> real" where
  "EuclideanNorm_spec v = sqrt (\<Sum>i\<leftarrow>[0..vlen v - 1]. (velem v i)\<^sup>2)"

definition EuclideanNormC_spec :: "complex list Matrix \<Rightarrow> complex" where
  "EuclideanNormC_spec v = complex_of_real (sqrt (\<Sum>i\<leftarrow>[0..vlen v - 1]. (cmod (velem v i))\<^sup>2))"

text \<open>
  Modelled from the spec: \<^verbatim>\<open>MinimalSquareProblem\<close>, which is not among the sources, a
  ``least-squares solver'': for a matrix \<open>l\<close> of two columns, the solution of the normal
  equations of \<open>l c = r\<close>, a column vector of the two unknowns.
\<close>

definition MinimalSquareProblem_spec :: "real list Matrix \<Rightarrow> real list Matrix \<Rightarrow> real list Matrix" where
  "MinimalSquareProblem_spec l r =
     (let ks = [0..rows l - 1];
          s00 = (\<Sum>i\<leftarrow>ks. elem l i 0 * elem l i 0);
          s01 = (\<Sum>i\<leftarrow>ks. elem l i 0 * elem l i 1);
          s11 = (\<Sum>i\<leftarrow>ks. elem l i 1 * elem l i 1);
          t0 = (\<Sum>i\<leftarrow>ks. elem l i 0 * elem r i 0);
          t1 = (\<Sum>i\<leftarrow>ks. elem l i 1 * elem r i 0);
          d = s00 * s11 - s01 * s01
      in mk 2 1 [(t0 * s11 - t1 * s01) / d, (s00 * t1 - s01 * t0) / d])"

text \<open>
  Modelled from the spec: \<^verbatim>\<open>SolveQuadraticEquation\<close>, which is not among the sources,
  ``returning the two roots (possibly complex) of \<open>x^2 + c1*x + c0 = 0\<close>''; with a
  leading coefficient \<open>a\<close>, the two roots of \<open>a x\<^sup>2 + b x + c = 0\<close>.
\<close>

definition SolveQuadraticEquation_spec :: "real \<Rightarrow> real \<Rightarrow> real \<Rightarrow> complex \<times> complex" where
  "SolveQuadraticEquation_spec a b c =
     (let d = csqrt (complex_of_real (b * b - 4 * a * c))
      in ((- complex_of_real b + d) / complex_of_real (2 * a),
          (- complex_of_real b - d) / complex_of_real (2 * a)))"

text \<open>
  The environment made of the three functions above, a tolerance \<open>eps\<close> for
  \<^verbatim>\<open>Matrix<T>\<close> and the tolerance 0 for \<^verbatim>\<open>Matrix<std::complex<T>>\<close> (the value
  \<^verbatim>\<open>std::numeric_limits\<close> gives for a type it is not specialised for). The theorems
  hold for every environment; this one is the concrete input of their witnesses.
\<close>

definition spec_env :: "real \<Rightarrow> env" where
  "spec_env eps = \<lparr>EuclideanNorm = EuclideanNorm_spec, EuclideanNormC = EuclideanNormC_spec,
                    MinimalSquareProblem = MinimalSquareProblem_spec,
                    SolveQuadraticEquation = SolveQuadraticEquation_spec,
                    GetEps = eps, GetEpsC = 0\<rparr>"

text \<open>
  \<open>solves_system l r c0 c1\<close>: the unknowns \<open>c = (c0, c1)\<close> satisfy every equation of
  \<open>l c = r\<close>.
\<close>

definition solves_system :: "real list Matrix \<Rightarrow> real list Matrix \<Rightarrow> real \<Rightarrow> real \<Rightarrow> bool" where
  "solves_system l r c0 c1 =
     list_all (\<lambda>i. elem l i 0 * c0 + elem l i 1 * c1 = elem r i 0) [0..rows l - 1]"

text \<open>
  In the words of the specification, for the claim on Method 3: the relation
  \<open>A\<^sup>2 u = s (c1 (A u) + c0 u)\<close> between the real parts, row by row. With \<open>s = 1\<close> it is
  the relation \<open>A\<^sup>2 u = c1 (A u) + c0 u\<close> of the claim.
\<close>

definition recurrence ::
  "real \<Rightarrow> complex list Matrix \<Rightarrow> complex list Matrix \<Rightarrow> complex list Matrix \<Rightarrow> real \<Rightarrow> real \<Rightarrow> bool" where
  "recurrence s a squared_a u c0 c1 =
     list_all (\<lambda>i. Re (psum squared_a u i 0 (rows u))
                    = s * (c1 * Re (psum a u i 0 (rows u)) + c0 * Re (elem u i 0)))
       [0..rows u - 1]"

text \<open>
  What the specification says of \<^verbatim>\<open>SolveQuadraticEquation\<close>: called with the leading
  coefficient 1 and the coefficients \<open>b\<close> and \<open>c\<close>, it returns two roots of
  \<open>x\<^sup>2 + b x + c = 0\<close>.
\<close>

definition solves_quadratic :: "env \<Rightarrow> bool" where
  "solves_quadratic E =
     (\<forall>b c. (fst (SolveQuadraticEquation E 1 b c))\<^sup>2
               + complex_of_real b * fst (SolveQuadraticEquation E 1 b c) + complex_of_real c = 0
           \<and> (snd (SolveQuadraticEquation E 1 b c))\<^sup>2
               + complex_of_real b * snd (SolveQuadraticEquation E 1 b c) + complex_of_real c = 0)"

section \<open>Matrices that share their arrays\<close>

text \<open>
  The store holds the arrays that \<^verbatim>\<open>new T[k]\<close> has allocated; an address is a position
  in it, and \<^verbatim>\<open>data_\<close> of a matrix is an address: two matrices with the same address
  share their elements. \<^verbatim>\<open>std::shared_ptr\<close> frees an array when its last owner is gone; the
  model keeps every array, which no read or write of a live matrix can tell.
\<close>

type_synonym 'a store = "'a list list"

definition new_array_st :: "'a store \<Rightarrow> int \<Rightarrow> error + (nat \<times> 'a store)" where
  "new_array_st h k = bind (new_array k) (\<lambda>buf. Inr (length h, h @ [buf]))"

definition load_st :: "'a store \<Rightarrow> nat \<Rightarrow> int \<Rightarrow> error + 'a" where
  "load_st h p k = (if p < length h then load (h ! p) k else Inl UndefinedBehaviour)"

definition store_st :: "'a store \<Rightarrow> nat \<Rightarrow> int \<Rightarrow> 'a \<Rightarrow> error + 'a store" where
  "store_st h p k v =
     (if p < length h then bind (store (h ! p) k v) (\<lambda>buf. Inr (h[p := buf]))
      else Inl UndefinedBehaviour)"

definition get_st :: "'a store \<Rightarrow> nat Matrix \<Rightarrow> int \<Rightarrow> int \<Rightarrow> error + 'a" where
  "get_st h m i j = bind (At m i j) (load_st h (data m))"

definition put_st :: "'a store \<Rightarrow> nat Matrix \<Rightarrow> int \<Rightarrow> int \<Rightarrow> 'a \<Rightarrow> error + 'a store" where
  "put_st h m i j v = bind (At m i j) (\<lambda>k. store_st h (data m) k v)"

definition get1_st :: "'a store \<Rightarrow> nat Matrix \<Rightarrow> int \<Rightarrow> error + 'a" where
  "get1_st h m i = bind (At1 m i) (load_st h (data m))"


definition Matrix_fill_st :: "'a store \<Rightarrow> int \<Rightarrow> int \<Rightarrow> 'a \<Rightarrow> error + (nat Matrix \<times> 'a store)" where
  "Matrix_fill_st h n m v =
     bind (new_array_st h (n * m)) (\<lambda>(p, h).
       let this = \<lparr>data = p, data_rows = n, data_cols = m, cols = m, rows = n,
                   offset_i = 0, offset_j = 0\<rparr>
       in bind (for_upto n (\<lambda>i. for_upto m (\<lambda>j h. put_st h this i j v)) h)
            (\<lambda>h. Inr (this, h)))"

definition Matrix_dims_st :: "('a::zero) store \<Rightarrow> int \<Rightarrow> int \<Rightarrow> error + (nat Matrix \<times> 'a store)" where
  "Matrix_dims_st h n m = Matrix_fill_st h n m 0"

definition Matrix_default_st :: "('a::zero) store \<Rightarrow> error + (nat Matrix \<times> 'a store)" where
  "Matrix_default_st h = Matrix_dims_st h 0 0"

definition Assign_st :: "'a store \<Rightarrow> nat Matrix \<Rightarrow> nat Matrix \<Rightarrow> error + 'a store" where
  "Assign_st h this b =
     bind (AssertEqualSizes this b) (\<lambda>_.
       for_upto (Rows this) (\<lambda>i. for_upto (Cols this) (\<lambda>j h.
         bind (get_st h b i j) (\<lambda>x. put_st h this i j x))) h)"

definition CopyFrom_st ::
  "('a::zero) store \<Rightarrow> nat Matrix \<Rightarrow> nat Matrix \<Rightarrow> error + (nat Matrix \<times> 'a store)" where
  "CopyFrom_st h this other =
     bind (Matrix_dims_st h (Rows other) (Cols other)) (\<lambda>(fresh, h).
       let this = MakeRef this fresh
       in bind (Assign_st h this other) (\<lambda>h. Inr (this, h)))"

text \<open>
  The copy constructor, the copy assignment \<^verbatim>\<open>operator=(const Matrix<T>&)\<close>, the move
  constructor \<^verbatim>\<open>Matrix(Matrix<T>&& other) : Matrix() { Swap(other); }\<close>, which returns the
  new matrix and the state of \<open>other\<close>, and the move assignment
  \<^verbatim>\<open>operator=(Matrix<T>&& b) { Swap(b); }\<close>, which returns the states of \<open>this\<close> and of
  \<open>b\<close> and leaves the store as it is.
\<close>

definition Matrix_copy_st :: "('a::zero) store \<Rightarrow> nat Matrix \<Rightarrow> error + (nat Matrix \<times> 'a store)" where
  "Matrix_copy_st h other = CopyFrom_st h other other"

definition operator_assign_st ::
  "('a::zero) store \<Rightarrow> nat Matrix \<Rightarrow> nat Matrix \<Rightarrow> error + (nat Matrix \<times> 'a store)" where
  "operator_assign_st h this b = CopyFrom_st h this b"

definition Matrix_move_st ::
  "('a::zero) store \<Rightarrow> nat Matrix \<Rightarrow> error + (nat Matrix \<times> nat Matrix \<times> 'a store)" where
  "Matrix_move_st h other =
     bind (Matrix_default_st h) (\<lambda>(this, h).
       case Swap this other of (this, other) \<Rightarrow> Inr (this, other, h))"

definition operator_assign_move :: "nat Matrix \<Rightarrow> nat Matrix \<Rightarrow> nat Matrix \<times> nat Matrix" where
  "operator_assign_move this b = Swap this b"




text \<open>
  A matrix of the store taken with the content of its array, and the matrices of the
  store the theorems speak about: the address is allocated and the invariant holds.
\<close>

definition snapshot :: "'a store \<Rightarrow> nat Matrix \<Rightarrow> 'a list Matrix" where
  "snapshot h m = \<lparr>data = h ! data m, data_rows = data_rows m, data_cols = data_cols m,
                   cols = cols m, rows = rows m, offset_i = offset_i m, offset_j = offset_j m\<rparr>"

definition wf_st :: "'a store \<Rightarrow> nat Matrix \<Rightarrow> bool" where
  "wf_st h m = (data m < length h \<and> wf (snapshot h m))"

text \<open>The state of a default-constructed matrix: no rows, no columns, an array of its own without elements.\<close>

definition default_empty :: "'a store \<Rightarrow> nat Matrix \<Rightarrow> bool" where
  "default_empty h m = (rows m = 0 \<and> cols m = 0 \<and> data_rows m = 0 \<and> data_cols m = 0
                        \<and> offset_i m = 0 \<and> offset_j m = 0 \<and> data m < length h \<and> h ! data m = [])"


text \<open>
  \<open>tracks h0 this h t\<close>: the store \<open>h\<close> differs from \<open>h0\<close> in the array of \<open>this\<close>
  only, and \<open>t\<close> is \<open>this\<close> taken with that array.
\<close>

definition tracks :: "'a store \<Rightarrow> nat Matrix \<Rightarrow> 'a store \<Rightarrow> 'a list Matrix \<Rightarrow> bool" where
  "tracks h0 this h t = (length h = length h0 \<and> data this < length h0 \<and> t = snapshot h this
                        \<and> (\<forall>q. q \<noteq> data this \<longrightarrow> h ! q = h0 ! q))"

section \<open>Sequencing and loops\<close>

lemma bind_simps [simp]: "bind (Inr x) f = f x" "bind (Inl e) f = Inl e"
  by (simp_all add: bind_def)

lemma forM_append: "forM (xs @ ys) body s = (case forM xs body s of Inl e \<Rightarrow> Inl e | Inr s' \<Rightarrow> forM ys body s')"
  by (induction xs arbitrary: s) (auto split: sum.splits)

lemma forM_upto_ind:
  assumes "I 0 s"
    and "\<And>i s. 0 \<le> i \<Longrightarrow> i < int k \<Longrightarrow> I i s \<Longrightarrow> \<exists>s'. body i s = Inr s' \<and> I (i + 1) s'"
  shows "\<exists>s'. forM [0..int k - 1] body s = Inr s' \<and> I (int k) s'"
  using assms
proof (induction k)
  case 0
  then show ?case by simp
next
  case (Suc k)
  have "\<exists>s'. forM [0..int k - 1] body s = Inr s' \<and> I (int k) s'"
    using Suc.IH[OF Suc.prems(1)] Suc.prems(2) by force
  then obtain s1 where s1: "forM [0..int k - 1] body s = Inr s1" "I (int k) s1" by blast
  obtain s2 where s2: "body (int k) s1 = Inr s2" "I (int k + 1) s2"
    using Suc.prems(2)[of "int k" s1] s1(2) by auto
  have "[0..int (Suc k) - 1] = [0..int k - 1] @ [int k]"
    using upto_rec2[of 0 "int k"] by simp
  then show ?case using s1 s2 by (simp add: forM_append add.commute)
qed

lemma for_upto_rule:
  assumes "0 \<le> n" "I 0 s"
    and "\<And>i s. 0 \<le> i \<Longrightarrow> i < n \<Longrightarrow> I i s \<Longrightarrow> \<exists>s'. body i s = Inr s' \<and> I (i + 1) s'"
  shows "\<exists>s'. for_upto n body s = Inr s' \<and> I n s'"
  using forM_upto_ind[of I s "nat n" body] assms by (simp add: for_upto_def)

lemma for_upto_nonpos: "n \<le> 0 \<Longrightarrow> for_upto n body s = Inr s"
  by (simp add: for_upto_def)

lemma idx_bounds:
  assumes "wf m" "0 \<le> i" "i < rows m" "0 \<le> j" "j < cols m"
  shows "0 \<le> (i + offset_i m) * data_cols m + offset_j m + j"
    and "(i + offset_i m) * data_cols m + offset_j m + j < int (length (data m))"
proof -
  have dc: "0 \<le> data_cols m" and A: "0 \<le> i + offset_i m" "i + offset_i m \<le> data_rows m - 1"
    and B: "0 \<le> offset_j m + j" "offset_j m + j \<le> data_cols m - 1"
    and len: "int (length (data m)) = data_rows m * data_cols m"
    using assms by (auto simp: wf_def)
  have "0 \<le> (i + offset_i m) * data_cols m" using A dc by simp
  then show "0 \<le> (i + offset_i m) * data_cols m + offset_j m + j" using B by linarith
  have "(i + offset_i m) * data_cols m \<le> (data_rows m - 1) * data_cols m"
    using A dc by (intro mult_right_mono) auto
  then show "(i + offset_i m) * data_cols m + offset_j m + j < int (length (data m))"
    using B len by (simp add: algebra_simps)
qed

lemma idx_inj:
  fixes a b c d::int
  assumes "0 \<le> b" "b < n" "0 \<le> d" "d < n" "a * n + b = c * n + d"
  shows "a = c \<and> b = d"
proof -
  have 1: "(a * n + b) div n = a" using assms(1,2) by simp
  have 2: "(c * n + d) div n = c" using assms(3,4) by simp
  have "a = c" using 1 2 assms(5) by metis
  then show ?thesis using assms(5) by simp
qed

lemma elem_idx: "elem m i j = data m ! nat (idx m i j)"
  by (simp add: elem_def idx_def)

lemma At_ok: "inrange m i j \<Longrightarrow> At m i j = Inr (idx m i j)"
  by (auto simp: At_def inrange_def idx_def)

lemma idx_ok:
  assumes "wf m" "inrange m i j"
  shows "0 \<le> idx m i j" "idx m i j < int (length (data m))"
  using idx_bounds[of m i j] assms by (auto simp: inrange_def idx_def)

lemma idx_eq_iff:
  assumes "wf m" "inrange m i j" "inrange m i' j'"
  shows "idx m i j = idx m i' j' \<longleftrightarrow> i = i' \<and> j = j'"
proof
  assume e: "idx m i j = idx m i' j'"
  have "0 \<le> offset_j m + j" "offset_j m + j < data_cols m"
       "0 \<le> offset_j m + j'" "offset_j m + j' < data_cols m"
    using assms by (auto simp: wf_def inrange_def)
  moreover have "(i + offset_i m) * data_cols m + (offset_j m + j)
               = (i' + offset_i m) * data_cols m + (offset_j m + j')"
    using e by (simp add: idx_def)
  ultimately have "i + offset_i m = i' + offset_i m \<and> offset_j m + j = offset_j m + j'"
    by (rule idx_inj)
  then show "i = i' \<and> j = j'" by simp
qed simp

lemma get_ok: "wf m \<Longrightarrow> inrange m i j \<Longrightarrow> get m i j = Inr (elem m i j)"
  using idx_ok[of m i j] by (simp add: get_def At_ok load_def elem_idx)

lemma put_ok:
  "wf m \<Longrightarrow> inrange m i j \<Longrightarrow> put m i j v = Inr (m\<lparr>data := (data m)[nat (idx m i j) := v]\<rparr>)"
  using idx_ok[of m i j] by (simp add: put_def At_ok store_def)

lemma modify_ok:
  "wf m \<Longrightarrow> inrange m i j \<Longrightarrow> modify m i j f = put m i j (f (elem m i j))"
  using idx_ok[of m i j] by (simp add: modify_def put_def At_ok load_def store_def elem_idx)

lemma frame_refl [simp]: "frame t t"
  by (simp add: frame_def)

lemma frame_trans: "frame t t' \<Longrightarrow> frame t' t'' \<Longrightarrow> frame t t''"
  unfolding frame_def by (metis Matrix.surjective Matrix.update_convs(1))

lemma frame_fields:
  assumes "frame t t'"
  shows "rows t' = rows t" "cols t' = cols t" "data_rows t' = data_rows t"
    "data_cols t' = data_cols t" "offset_i t' = offset_i t" "offset_j t' = offset_j t"
    "length (data t') = length (data t)"
  using assms unfolding frame_def
  by (metis Matrix.select_convs Matrix.surjective Matrix.update_convs(1))+

lemma frame_wf: "frame t t' \<Longrightarrow> wf t \<Longrightarrow> wf t'"
  by (simp add: wf_def frame_fields)

lemma frame_inrange: "frame t t' \<Longrightarrow> inrange t' i j = inrange t i j"
  by (simp add: inrange_def frame_fields)

lemma frame_idx: "frame t t' \<Longrightarrow> idx t' i j = idx t i j"
  by (simp add: idx_def frame_fields)

lemma frame_update: "frame t (t\<lparr>data := (data t)[k := v]\<rparr>)"
  by (simp add: frame_def)

lemma elem_update:
  assumes "wf m" "inrange m i j" "inrange m i' j'"
  shows "elem (m\<lparr>data := (data m)[nat (idx m i j) := v]\<rparr>) i' j'
         = (if i' = i \<and> j' = j then v else elem m i' j')"
proof -
  have a: "0 \<le> idx m i j" "idx m i j < int (length (data m))"
    and b: "0 \<le> idx m i' j'" "idx m i' j' < int (length (data m))"
    using assms idx_ok by blast+
  have "nat (idx m i' j') = nat (idx m i j) \<longleftrightarrow> i' = i \<and> j' = j"
    using idx_eq_iff[OF assms(1) assms(3) assms(2)] a b by auto
  then show ?thesis
    using a b by (auto simp: elem_def idx_def nth_list_update)
qed

text \<open>Writing one element: the frame is kept, the element holds the value, the others stay.\<close>

lemma put_elem:
  assumes "wf m" "inrange m i j"
  shows "\<exists>m'. put m i j v = Inr m' \<and> frame m m' \<and> elem m' i j = v
           \<and> (\<forall>i' j'. inrange m i' j' \<and> (i' \<noteq> i \<or> j' \<noteq> j) \<longrightarrow> elem m' i' j' = elem m i' j')"
  using assms by (auto simp: put_ok frame_update elem_update)

lemma loop2_pointwise:
  assumes wf: "wf t"
    and body: "\<And>i j t'. inrange t i j \<Longrightarrow> frame t t' \<Longrightarrow>
                 (\<forall>i' j'. inrange t i' j' \<and> \<not> (i' < i \<or> (i' = i \<and> j' < j)) \<longrightarrow> elem t' i' j' = elem t i' j') \<Longrightarrow>
                 body i j t' = put t' i j (g i j)"
  shows "\<exists>t'. for_upto (rows t) (\<lambda>i. for_upto (cols t) (body i)) t = Inr t' \<and> frame t t'
           \<and> (\<forall>i j. inrange t i j \<longrightarrow> elem t' i j = g i j)"
proof -
  let ?I = "\<lambda>i t'. frame t t' \<and> (\<forall>i' j'. inrange t i' j' \<longrightarrow>
              elem t' i' j' = (if i' < i then g i' j' else elem t i' j'))"
  have r: "0 \<le> rows t" and c: "0 \<le> cols t" using wf by (auto simp: wf_def)
  have "\<exists>t'. for_upto (rows t) (\<lambda>i. for_upto (cols t) (body i)) t = Inr t' \<and> ?I (rows t) t'"
  proof (rule for_upto_rule[OF r])
    show "?I 0 t" by (auto simp: inrange_def)
  next
    fix i s assume i: "0 \<le> i" "i < rows t" and Is: "?I i s"
    let ?J = "\<lambda>j t'. frame t t' \<and> (\<forall>i' j'. inrange t i' j' \<longrightarrow>
              elem t' i' j' = (if i' < i \<or> (i' = i \<and> j' < j) then g i' j' else elem t i' j'))"
    have "\<exists>s'. for_upto (cols t) (body i) s = Inr s' \<and> ?J (cols t) s'"
    proof (rule for_upto_rule[OF c])
      show "?J 0 s" using Is by (auto simp: inrange_def)
    next
      fix j s1 assume j: "0 \<le> j" "j < cols t" and J: "?J j s1"
      have ir: "inrange t i j" using i j by (simp add: inrange_def)
      have f1: "frame t s1" using J by simp
      have b: "body i j s1 = put s1 i j (g i j)"
        using body[OF ir f1] J by auto
      have wf1: "wf s1" using f1 wf by (rule frame_wf)
      have ir1: "inrange s1 i j" using ir f1 by (simp add: frame_inrange)
      obtain s2 where s2: "put s1 i j (g i j) = Inr s2" "frame s1 s2" "elem s2 i j = g i j"
        "\<forall>i' j'. inrange s1 i' j' \<and> (i' \<noteq> i \<or> j' \<noteq> j) \<longrightarrow> elem s2 i' j' = elem s1 i' j'"
        using put_elem[OF wf1 ir1, of "g i j"] by blast
      have "frame t s2" using f1 s2(2) by (rule frame_trans)
      moreover have "\<forall>i' j'. inrange t i' j' \<longrightarrow>
              elem s2 i' j' = (if i' < i \<or> (i' = i \<and> j' < j + 1) then g i' j' else elem t i' j')"
      proof (intro allI impI)
        fix i' j' assume a: "inrange t i' j'"
        show "elem s2 i' j' = (if i' < i \<or> (i' = i \<and> j' < j + 1) then g i' j' else elem t i' j')"
        proof (cases "i' = i \<and> j' = j")
          case True then show ?thesis using s2(3) by simp
        next
          case False
          then have "elem s2 i' j' = elem s1 i' j'"
            using s2(4) a f1 by (auto simp: frame_inrange)
          then show ?thesis using J a False by auto
        qed
      qed
      ultimately show "\<exists>s'. body i j s1 = Inr s' \<and> ?J (j + 1) s'"
        using b s2(1) by auto
    qed
    then obtain s' where s': "for_upto (cols t) (body i) s = Inr s'" "?J (cols t) s'" by blast
    have "?I (i + 1) s'"
      using s'(2) by (auto simp: inrange_def)
    then show "\<exists>s'. for_upto (cols t) (body i) s = Inr s' \<and> ?I (i + 1) s'"
      using s'(1) by blast
  qed
  then show ?thesis by (auto simp: inrange_def)
qed

lemma frame_owning: "frame t t' \<Longrightarrow> owning t \<Longrightarrow> owning t'"
  by (simp add: owning_def frame_wf IsSubMatrix_def frame_fields)

lemma frame_shaped: "frame t t' \<Longrightarrow> shaped n m t \<Longrightarrow> shaped n m t'"
  by (simp add: shaped_def frame_owning frame_fields)

lemma shaped_wf: "shaped n m t \<Longrightarrow> wf t"
  by (simp add: shaped_def owning_def)

lemma shaped_dims: "shaped n m t \<Longrightarrow> rows t = n \<and> cols t = m \<and> 0 \<le> n \<and> 0 \<le> m"
  by (auto simp: shaped_def owning_def wf_def)

lemma Matrix_fill_ok:
  assumes "0 \<le> n" "0 \<le> m"
  shows "\<exists>t. Matrix_fill n m v = Inr t \<and> shaped n m t \<and> (\<forall>i j. inrange t i j \<longrightarrow> elem t i j = v)"
proof -
  let ?t0 = "\<lparr>data = replicate (nat (n * m)) undefined, data_rows = n, data_cols = m, cols = m,
              rows = n, offset_i = 0, offset_j = 0\<rparr> :: 'a list Matrix"
  have nm: "0 \<le> n * m" using assms by simp
  have wf0: "wf ?t0" using assms nm by (simp add: wf_def)
  have sh: "shaped n m ?t0" using wf0 by (simp add: shaped_def owning_def IsSubMatrix_def)
  have "\<exists>t'. for_upto (rows ?t0) (\<lambda>i. for_upto (cols ?t0) (\<lambda>j this. put this i j v)) ?t0 = Inr t'
          \<and> frame ?t0 t' \<and> (\<forall>i j. inrange ?t0 i j \<longrightarrow> elem t' i j = v)"
    by (rule loop2_pointwise[OF wf0]) simp
  then obtain t' where t': "for_upto n (\<lambda>i. for_upto m (\<lambda>j this. put this i j v)) ?t0 = Inr t'"
    "frame ?t0 t'" "\<forall>i j. inrange ?t0 i j \<longrightarrow> elem t' i j = v" by auto
  have "Matrix_fill n m v = Inr t'"
    using nm t'(1) by (simp add: Matrix_fill_def new_array_def)
  moreover have "shaped n m t'" using frame_shaped[OF t'(2) sh] .
  moreover have "\<forall>i j. inrange t' i j \<longrightarrow> elem t' i j = v"
    using t'(3) frame_inrange[OF t'(2)] by simp
  ultimately show ?thesis by blast
qed

lemma Matrix_dims_ok:
  assumes "0 \<le> n" "0 \<le> m"
  shows "\<exists>t. Matrix_dims n m = Inr t \<and> shaped n m t \<and> (\<forall>i j. inrange t i j \<longrightarrow> elem t i j = 0)"
  unfolding Matrix_dims_def using Matrix_fill_ok[OF assms] .

lemma AssertEqualSizes_ok: "rows a = rows b \<Longrightarrow> cols a = cols b \<Longrightarrow> AssertEqualSizes a b = Inr ()"
  by (simp add: AssertEqualSizes_def Size_def)

lemma inrange_cong: "rows a = rows b \<Longrightarrow> cols a = cols b \<Longrightarrow> inrange a i j = inrange b i j"
  by (simp add: inrange_def)

lemma Assign_ok:
  assumes "wf this" "wf b" "rows this = rows b" "cols this = cols b"
  shows "\<exists>t'. Assign this b = Inr t' \<and> frame this t'
           \<and> (\<forall>i j. inrange this i j \<longrightarrow> elem t' i j = elem b i j)"
proof -
  have "\<exists>t'. for_upto (rows this) (\<lambda>i. for_upto (cols this)
                (\<lambda>j this. bind (get b i j) (\<lambda>x. put this i j x))) this = Inr t'
          \<and> frame this t' \<and> (\<forall>i j. inrange this i j \<longrightarrow> elem t' i j = elem b i j)"
  proof (rule loop2_pointwise[OF assms(1)])
    fix i j t' assume "inrange this i j"
    then have "inrange b i j" using assms(3,4) by (simp add: inrange_def)
    then show "bind (get b i j) (\<lambda>x. put t' i j x) = put t' i j (elem b i j)"
      using assms(2) by (simp add: get_ok)
  qed
  then show ?thesis
    using assms(3,4) by (simp add: Assign_def AssertEqualSizes_ok Rows_def Cols_def)
qed

lemma MakeRef_eq [simp]: "MakeRef this b = b"
  by (simp add: MakeRef_def)

lemma Matrix_copy_ok:
  assumes "wf a"
  shows "\<exists>t. Matrix_copy a = Inr t \<and> shaped (rows a) (cols a) t
           \<and> (\<forall>i j. inrange a i j \<longrightarrow> elem t i j = elem a i j)"
proof -
  have d: "0 \<le> rows a" "0 \<le> cols a" using assms by (auto simp: wf_def)
  obtain f where f: "Matrix_dims (rows a) (cols a) = Inr f" "shaped (rows a) (cols a) (f::'a list Matrix)"
    using Matrix_dims_ok[OF d] by blast
  have fr: "rows f = rows a" "cols f = cols a" using f(2) by (auto simp: shaped_def)
  obtain t where t: "Assign f a = Inr t" "frame f t" "\<forall>i j. inrange f i j \<longrightarrow> elem t i j = elem a i j"
    using Assign_ok[OF shaped_wf[OF f(2)] assms fr] by blast
  have "Matrix_copy a = Inr t"
    using f(1) t(1) by (simp add: Matrix_copy_def CopyFrom_def Rows_def Cols_def)
  moreover have "shaped (rows a) (cols a) t" using frame_shaped[OF t(2) f(2)] .
  moreover have "\<forall>i j. inrange a i j \<longrightarrow> elem t i j = elem a i j"
    using t(3) fr by (simp add: inrange_def)
  ultimately show ?thesis by blast
qed

lemma loop2_modify:
  assumes wf: "wf t"
    and body: "\<And>i j t'. inrange t i j \<Longrightarrow> frame t t' \<Longrightarrow> body i j t' = modify t' i j (h i j)"
  shows "\<exists>t'. for_upto (rows t) (\<lambda>i. for_upto (cols t) (body i)) t = Inr t' \<and> frame t t'
           \<and> (\<forall>i j. inrange t i j \<longrightarrow> elem t' i j = h i j (elem t i j))"
proof (rule loop2_pointwise[OF wf])
  fix i j t'
  assume ir: "inrange t i j" and fr: "frame t t'"
    and old: "\<forall>i' j'. inrange t i' j' \<and> \<not> (i' < i \<or> i' = i \<and> j' < j) \<longrightarrow> elem t' i' j' = elem t i' j'"
  have "elem t' i j = elem t i j" using old ir by simp
  moreover have "modify t' i j (h i j) = put t' i j (h i j (elem t' i j))"
    using modify_ok[of t' i j] frame_wf[OF fr wf] frame_inrange[OF fr] ir by simp
  ultimately show "body i j t' = put t' i j (h i j (elem t i j))"
    using body[OF ir fr] by simp
qed

lemma operator_plus_assign_ok:
  assumes "wf this" "wf a" "rows this = rows a" "cols this = cols a"
  shows "\<exists>t'. operator_plus_assign this a = Inr t' \<and> frame this t'
           \<and> (\<forall>i j. inrange this i j \<longrightarrow> elem t' i j = elem this i j + elem a i j)"
proof -
  have "\<exists>t'. for_upto (rows this) (\<lambda>i. for_upto (cols this)
                (\<lambda>j this. bind (get a i j) (\<lambda>x. modify this i j (\<lambda>old. old + x)))) this = Inr t'
          \<and> frame this t' \<and> (\<forall>i j. inrange this i j \<longrightarrow> elem t' i j = elem this i j + elem a i j)"
  proof (rule loop2_modify[OF assms(1)])
    fix i j t' assume "inrange this i j"
    then have "inrange a i j" using assms(3,4) by (simp add: inrange_def)
    then show "bind (get a i j) (\<lambda>x. modify t' i j (\<lambda>old. old + x))
               = modify t' i j (\<lambda>old. old + elem a i j)"
      using assms(2) by (simp add: get_ok)
  qed
  then show ?thesis
    using assms(3,4) by (simp add: operator_plus_assign_def AssertEqualSizes_ok Rows_def Cols_def)
qed

lemma operator_minus_assign_ok:
  assumes "wf this" "wf a" "rows this = rows a" "cols this = cols a"
  shows "\<exists>t'. operator_minus_assign this a = Inr t' \<and> frame this t'
           \<and> (\<forall>i j. inrange this i j \<longrightarrow> elem t' i j = elem this i j - elem a i j)"
proof -
  have "\<exists>t'. for_upto (rows this) (\<lambda>i. for_upto (cols this)
                (\<lambda>j this. bind (get a i j) (\<lambda>x. modify this i j (\<lambda>old. old - x)))) this = Inr t'
          \<and> frame this t' \<and> (\<forall>i j. inrange this i j \<longrightarrow> elem t' i j = elem this i j - elem a i j)"
  proof (rule loop2_modify[OF assms(1)])
    fix i j t' assume "inrange this i j"
    then have "inrange a i j" using assms(3,4) by (simp add: inrange_def)
    then show "bind (get a i j) (\<lambda>x. modify t' i j (\<lambda>old. old - x))
               = modify t' i j (\<lambda>old. old - elem a i j)"
      using assms(2) by (simp add: get_ok)
  qed
  then show ?thesis
    using assms(3,4) by (simp add: operator_minus_assign_def AssertEqualSizes_ok Rows_def Cols_def)
qed

lemma operator_times_assign_ok:
  assumes "wf this"
  shows "\<exists>t'. operator_times_assign this b = Inr t' \<and> frame this t'
           \<and> (\<forall>i j. inrange this i j \<longrightarrow> elem t' i j = elem this i j * b)"
  unfolding operator_times_assign_def Rows_def Cols_def
  by (rule loop2_modify[OF assms]) simp

lemma operator_divide_assign_ok:
  assumes "wf this"
  shows "\<exists>t'. operator_divide_assign this b = Inr t' \<and> frame this t'
           \<and> (\<forall>i j. inrange this i j \<longrightarrow> elem t' i j = elem this i j / b)"
  unfolding operator_divide_assign_def Rows_def Cols_def
  by (rule loop2_modify[OF assms]) simp

lemma shaped_inrange: "shaped n m t \<Longrightarrow> inrange t i j = (0 \<le> i \<and> i < n \<and> 0 \<le> j \<and> j < m)"
  by (auto simp: shaped_def inrange_def)

lemma operator_plus_ok:
  assumes "wf a" "wf b" "rows a = rows b" "cols a = cols b"
  shows "\<exists>t. operator_plus a b = Inr t \<and> shaped (rows a) (cols a) t
           \<and> (\<forall>i j. inrange a i j \<longrightarrow> elem t i j = elem a i j + elem b i j)"
proof -
  obtain r where r: "Matrix_copy a = Inr r" "shaped (rows a) (cols a) r"
    "\<forall>i j. inrange a i j \<longrightarrow> elem r i j = elem a i j"
    using Matrix_copy_ok[OF assms(1)] by blast
  have rd: "rows r = rows b" "cols r = cols b" using r(2) assms(3,4) by (auto simp: shaped_def)
  obtain t where t: "operator_plus_assign r b = Inr t" "frame r t"
    "\<forall>i j. inrange r i j \<longrightarrow> elem t i j = elem r i j + elem b i j"
    using operator_plus_assign_ok[OF shaped_wf[OF r(2)] assms(2) rd] by blast
  have ir: "\<And>i j. inrange r i j = inrange a i j"
    using rd assms(3,4) by (simp add: inrange_def)
  have "operator_plus a b = Inr t"
    using r(1) t(1) assms(3,4) by (simp add: operator_plus_def AssertEqualSizes_ok)
  moreover have "shaped (rows a) (cols a) t" using frame_shaped[OF t(2) r(2)] .
  moreover have "\<forall>i j. inrange a i j \<longrightarrow> elem t i j = elem a i j + elem b i j"
    using t(3) r(3) ir by simp
  ultimately show ?thesis by blast
qed

lemma operator_minus_ok:
  assumes "wf a" "wf b" "rows a = rows b" "cols a = cols b"
  shows "\<exists>t. operator_minus a b = Inr t \<and> shaped (rows a) (cols a) t
           \<and> (\<forall>i j. inrange a i j \<longrightarrow> elem t i j = elem a i j - elem b i j)"
proof -
  obtain r where r: "Matrix_copy a = Inr r" "shaped (rows a) (cols a) r"
    "\<forall>i j. inrange a i j \<longrightarrow> elem r i j = elem a i j"
    using Matrix_copy_ok[OF assms(1)] by blast
  have rd: "rows r = rows b" "cols r = cols b" using r(2) assms(3,4) by (auto simp: shaped_def)
  obtain t where t: "operator_minus_assign r b = Inr t" "frame r t"
    "\<forall>i j. inrange r i j \<longrightarrow> elem t i j = elem r i j - elem b i j"
    using operator_minus_assign_ok[OF shaped_wf[OF r(2)] assms(2) rd] by blast
  have ir: "\<And>i j. inrange r i j = inrange a i j"
    using rd assms(3,4) by (simp add: inrange_def)
  have "operator_minus a b = Inr t"
    using r(1) t(1) assms(3,4) by (simp add: operator_minus_def AssertEqualSizes_ok)
  moreover have "shaped (rows a) (cols a) t" using frame_shaped[OF t(2) r(2)] .
  moreover have "\<forall>i j. inrange a i j \<longrightarrow> elem t i j = elem a i j - elem b i j"
    using t(3) r(3) ir by simp
  ultimately show ?thesis by blast
qed

lemma operator_mult_scalar_ok:
  assumes "wf a"
  shows "\<exists>t. operator_mult_scalar a c = Inr t \<and> shaped (rows a) (cols a) t
           \<and> (\<forall>i j. inrange a i j \<longrightarrow> elem t i j = elem a i j * c)"
proof -
  obtain r where r: "Matrix_copy a = Inr r" "shaped (rows a) (cols a) r"
    "\<forall>i j. inrange a i j \<longrightarrow> elem r i j = elem a i j"
    using Matrix_copy_ok[OF assms(1)] by blast
  obtain t where t: "operator_times_assign r c = Inr t" "frame r t"
    "\<forall>i j. inrange r i j \<longrightarrow> elem t i j = elem r i j * c"
    using operator_times_assign_ok[OF shaped_wf[OF r(2)]] by blast
  have ir: "\<And>i j. inrange r i j = inrange a i j"
    using r(2) by (simp add: inrange_def shaped_def)
  have "operator_mult_scalar a c = Inr t"
    using r(1) t(1) by (simp add: operator_mult_scalar_def)
  moreover have "shaped (rows a) (cols a) t" using frame_shaped[OF t(2) r(2)] .
  moreover have "\<forall>i j. inrange a i j \<longrightarrow> elem t i j = elem a i j * c"
    using t(3) r(3) ir by simp
  ultimately show ?thesis by blast
qed

lemma operator_scalar_mult_ok:
  assumes "wf a"
  shows "\<exists>t. operator_scalar_mult c a = Inr t \<and> shaped (rows a) (cols a) t
           \<and> (\<forall>i j. inrange a i j \<longrightarrow> elem t i j = elem a i j * c)"
  unfolding operator_scalar_mult_def by (rule operator_mult_scalar_ok[OF assms])

lemma operator_div_scalar_ok:
  assumes "wf a"
  shows "\<exists>t. operator_div_scalar a c = Inr t \<and> shaped (rows a) (cols a) t
           \<and> (\<forall>i j. inrange a i j \<longrightarrow> elem t i j = elem a i j / c)"
proof -
  obtain r where r: "Matrix_copy a = Inr r" "shaped (rows a) (cols a) r"
    "\<forall>i j. inrange a i j \<longrightarrow> elem r i j = elem a i j"
    using Matrix_copy_ok[OF assms(1)] by blast
  obtain t where t: "operator_divide_assign r c = Inr t" "frame r t"
    "\<forall>i j. inrange r i j \<longrightarrow> elem t i j = elem r i j / c"
    using operator_divide_assign_ok[OF shaped_wf[OF r(2)]] by blast
  have ir: "\<And>i j. inrange r i j = inrange a i j"
    using r(2) by (simp add: inrange_def shaped_def)
  have "operator_div_scalar a c = Inr t"
    using r(1) t(1) by (simp add: operator_div_scalar_def)
  moreover have "shaped (rows a) (cols a) t" using frame_shaped[OF t(2) r(2)] .
  moreover have "\<forall>i j. inrange a i j \<longrightarrow> elem t i j = elem a i j / c"
    using t(3) r(3) ir by simp
  ultimately show ?thesis by blast
qed

lemma ToComplex_ok:
  assumes "wf a"
  shows "\<exists>t. ToComplex a = Inr t \<and> shaped (rows a) (cols a) t
           \<and> (\<forall>i j. inrange a i j \<longrightarrow> elem t i j = complex_of_real (elem a i j))"
proof -
  have d: "0 \<le> rows a" "0 \<le> cols a" using assms by (auto simp: wf_def)
  obtain f where f: "Matrix_dims (rows a) (cols a) = Inr f" "shaped (rows a) (cols a) (f::complex list Matrix)"
    using Matrix_dims_ok[OF d] by blast
  have fr: "rows f = rows a" "cols f = cols a" using f(2) by (auto simp: shaped_def)
  have "\<exists>t'. for_upto (rows f) (\<lambda>i. for_upto (cols f)
                (\<lambda>j ans. bind (get a i j) (\<lambda>x. put ans i j (complex_of_real x)))) f = Inr t'
          \<and> frame f t' \<and> (\<forall>i j. inrange f i j \<longrightarrow> elem t' i j = complex_of_real (elem a i j))"
  proof (rule loop2_pointwise[OF shaped_wf[OF f(2)]])
    fix i j t' assume "inrange f i j"
    then have "inrange a i j" using fr by (simp add: inrange_def)
    then show "bind (get a i j) (\<lambda>x. put t' i j (complex_of_real x))
               = put t' i j (complex_of_real (elem a i j))"
      using assms by (simp add: get_ok)
  qed
  then obtain t where t: "for_upto (rows a) (\<lambda>i. for_upto (cols a)
                (\<lambda>j ans. bind (get a i j) (\<lambda>x. put ans i j (complex_of_real x)))) f = Inr t"
     "frame f t" "\<forall>i j. inrange f i j \<longrightarrow> elem t i j = complex_of_real (elem a i j)"
    using fr by auto
  have "ToComplex a = Inr t"
    using f(1) t(1) by (simp add: ToComplex_def Rows_def Cols_def)
  moreover have "shaped (rows a) (cols a) t" using frame_shaped[OF t(2) f(2)] .
  moreover have "\<forall>i j. inrange a i j \<longrightarrow> elem t i j = complex_of_real (elem a i j)"
    using t(3) fr by (simp add: inrange_def)
  ultimately show ?thesis by blast
qed

lemma row_modify:
  assumes wf: "wf t" and i: "0 \<le> i" "i < rows t"
    and body: "\<And>j t'. 0 \<le> j \<Longrightarrow> j < cols t \<Longrightarrow> frame t t' \<Longrightarrow> body j t' = modify t' i j (h j)"
  shows "\<exists>t'. for_upto (cols t) body t = Inr t' \<and> frame t t'
           \<and> (\<forall>i' j'. inrange t i' j' \<longrightarrow>
                 elem t' i' j' = (if i' = i then h j' (elem t i' j') else elem t i' j'))"
proof -
  let ?J = "\<lambda>j t'. frame t t' \<and> (\<forall>i' j'. inrange t i' j' \<longrightarrow>
              elem t' i' j' = (if i' = i \<and> j' < j then h j' (elem t i' j') else elem t i' j'))"
  have c: "0 \<le> cols t" using wf by (simp add: wf_def)
  have "\<exists>t'. for_upto (cols t) body t = Inr t' \<and> ?J (cols t) t'"
  proof (rule for_upto_rule[OF c])
    show "?J 0 t" by (auto simp: inrange_def)
  next
    fix j s assume j: "0 \<le> j" "j < cols t" and J: "?J j s"
    have ir: "inrange t i j" using i j by (simp add: inrange_def)
    have f1: "frame t s" using J by simp
    have wf1: "wf s" using f1 wf by (rule frame_wf)
    have ir1: "inrange s i j" using ir f1 by (simp add: frame_inrange)
    have old: "elem s i j = elem t i j" using J ir by simp
    have b: "body j s = put s i j (h j (elem t i j))"
      using body[OF j f1] modify_ok[OF wf1 ir1] old by simp
    obtain s2 where s2: "put s i j (h j (elem t i j)) = Inr s2" "frame s s2"
      "elem s2 i j = h j (elem t i j)"
      "\<forall>i' j'. inrange s i' j' \<and> (i' \<noteq> i \<or> j' \<noteq> j) \<longrightarrow> elem s2 i' j' = elem s i' j'"
      using put_elem[OF wf1 ir1, of "h j (elem t i j)"] by blast
    have "frame t s2" using f1 s2(2) by (rule frame_trans)
    moreover have "\<forall>i' j'. inrange t i' j' \<longrightarrow>
        elem s2 i' j' = (if i' = i \<and> j' < j + 1 then h j' (elem t i' j') else elem t i' j')"
    proof (intro allI impI)
      fix i' j' assume a: "inrange t i' j'"
      show "elem s2 i' j' = (if i' = i \<and> j' < j + 1 then h j' (elem t i' j') else elem t i' j')"
      proof (cases "i' = i \<and> j' = j")
        case True then show ?thesis using s2(3) by simp
      next
        case False
        then have "elem s2 i' j' = elem s i' j'"
          using s2(4) a f1 by (auto simp: frame_inrange)
        then show ?thesis using J a False by auto
      qed
    qed
    ultimately show "\<exists>s'. body j s = Inr s' \<and> ?J (j + 1) s'"
      using b s2(1) by auto
  qed
  then show ?thesis by (auto simp: inrange_def)
qed

lemma psum_0 [simp]: "psum lhs rhs i j 0 = 0"
  by (simp add: psum_def)

lemma psum_step: "0 \<le> k \<Longrightarrow> psum lhs rhs i j (k + 1) = psum lhs rhs i j k + elem lhs i k * elem rhs k j"
proof -
  assume "0 \<le> k"
  then have "{0..<k + 1} = insert k {0..<k}" by auto
  then show ?thesis by (simp add: psum_def add.commute)
qed

lemma product_row:
  fixes lhs rhs t :: "('a::semiring_0) list Matrix"
  assumes wl: "wf lhs" and wr: "wf rhs" and wt: "wf t"
    and d: "cols lhs = rows rhs" "rows t = rows lhs" "cols t = cols rhs"
    and i: "0 \<le> i" "i < rows lhs"
  shows "\<exists>t'. for_upto (cols lhs) (\<lambda>k. for_upto (cols rhs) (\<lambda>j result.
            bind (get lhs i k) (\<lambda>x. bind (get rhs k j) (\<lambda>y.
              modify result i j (\<lambda>old. old + x * y))))) t = Inr t' \<and> frame t t'
           \<and> (\<forall>i' j'. inrange t i' j' \<longrightarrow>
                 elem t' i' j' = (if i' = i then elem t i' j' + psum lhs rhs i j' (cols lhs)
                                  else elem t i' j'))"
proof -
  let ?body = "\<lambda>k. for_upto (cols rhs) (\<lambda>j result.
            bind (get lhs i k) (\<lambda>x. bind (get rhs k j) (\<lambda>y.
              modify result i j (\<lambda>old. old + x * y))))"
  let ?K = "\<lambda>k t'. frame t t' \<and> (\<forall>i' j'. inrange t i' j' \<longrightarrow>
                 elem t' i' j' = (if i' = i then elem t i' j' + psum lhs rhs i j' k
                                  else elem t i' j'))"
  have c: "0 \<le> cols lhs" using wl by (simp add: wf_def)
  have "\<exists>t'. for_upto (cols lhs) ?body t = Inr t' \<and> ?K (cols lhs) t'"
  proof (rule for_upto_rule[OF c])
    show "?K 0 t" by simp
  next
    fix k s assume k: "0 \<le> k" "k < cols lhs" and K: "?K k s"
    have f1: "frame t s" using K by simp
    have wf1: "wf s" using f1 wt by (rule frame_wf)
    have irs: "0 \<le> i" "i < rows s" using i d f1 by (auto simp: frame_fields)
    have cs: "cols s = cols rhs" using d f1 by (simp add: frame_fields)
    have "\<exists>t'. for_upto (cols s) (\<lambda>j result.
            bind (get lhs i k) (\<lambda>x. bind (get rhs k j) (\<lambda>y.
              modify result i j (\<lambda>old. old + x * y)))) s = Inr t' \<and> frame s t'
           \<and> (\<forall>i' j'. inrange s i' j' \<longrightarrow>
                 elem t' i' j' = (if i' = i then (\<lambda>j old. old + elem lhs i k * elem rhs k j) j' (elem s i' j')
                                  else elem s i' j'))"
    proof (rule row_modify[OF wf1 irs])
      fix j t' assume j: "0 \<le> j" "j < cols s"
      have "inrange lhs i k" using i k by (simp add: inrange_def)
      moreover have "inrange rhs k j" using k j d cs by (simp add: inrange_def)
      ultimately show "bind (get lhs i k) (\<lambda>x. bind (get rhs k j) (\<lambda>y. modify t' i j (\<lambda>old. old + x * y)))
            = modify t' i j (\<lambda>old. old + elem lhs i k * elem rhs k j)"
        using wl wr by (simp add: get_ok)
    qed
    then obtain s' where s': "?body k s = Inr s'" "frame s s'"
      "\<forall>i' j'. inrange s i' j' \<longrightarrow>
                 elem s' i' j' = (if i' = i then elem s i' j' + elem lhs i k * elem rhs k j'
                                  else elem s i' j')"
      using cs by auto
    have "frame t s'" using f1 s'(2) by (rule frame_trans)
    moreover have "\<forall>i' j'. inrange t i' j' \<longrightarrow>
                 elem s' i' j' = (if i' = i then elem t i' j' + psum lhs rhs i j' (k + 1)
                                  else elem t i' j')"
      using s'(3) K frame_inrange[OF f1] by (simp add: add.assoc psum_step[OF k(1)])
    ultimately show "\<exists>s'. ?body k s = Inr s' \<and> ?K (k + 1) s'" using s'(1) by blast
  qed
  then show ?thesis by blast
qed

lemma operator_mult_ok:
  fixes lhs rhs :: "('a::semiring_0) list Matrix"
  assumes wl: "wf lhs" and wr: "wf rhs" and d: "cols lhs = rows rhs"
  shows "\<exists>t. operator_mult lhs rhs = Inr t \<and> shaped (rows lhs) (cols rhs) t
           \<and> (\<forall>i j. inrange t i j \<longrightarrow> elem t i j = psum lhs rhs i j (cols lhs))"
proof -
  have dd: "0 \<le> rows lhs" "0 \<le> cols rhs" using wl wr by (auto simp: wf_def)
  obtain z where z: "Matrix_dims (rows lhs) (cols rhs) = Inr z" "shaped (rows lhs) (cols rhs) z"
    "\<forall>i j. inrange z i j \<longrightarrow> elem z i j = (0::'a)"
    using Matrix_dims_ok[OF dd] by blast
  have wz: "wf z" using z(2) by (rule shaped_wf)
  have zd: "rows z = rows lhs" "cols z = cols rhs" using z(2) by (auto simp: shaped_def)
  let ?row = "\<lambda>i. for_upto (cols lhs) (\<lambda>k. for_upto (cols rhs) (\<lambda>j result.
            bind (get lhs i k) (\<lambda>x. bind (get rhs k j) (\<lambda>y.
              modify result i j (\<lambda>old. old + x * y)))))"
  let ?I = "\<lambda>i t'. frame z t' \<and> (\<forall>i' j'. inrange z i' j' \<longrightarrow>
              elem t' i' j' = (if i' < i then psum lhs rhs i' j' (cols lhs) else 0))"
  have "\<exists>t'. for_upto (rows lhs) ?row z = Inr t' \<and> ?I (rows lhs) t'"
  proof (rule for_upto_rule[OF dd(1)])
    show "?I 0 z" using z(3) by (auto simp: inrange_def)
  next
    fix i s assume i: "0 \<le> i" "i < rows lhs" and I: "?I i s"
    have f1: "frame z s" using I by simp
    have wf1: "wf s" using f1 wz by (rule frame_wf)
    have sd: "rows s = rows lhs" "cols s = cols rhs" using zd f1 by (auto simp: frame_fields)
    obtain s' where s': "?row i s = Inr s'" "frame s s'"
      "\<forall>i' j'. inrange s i' j' \<longrightarrow>
                 elem s' i' j' = (if i' = i then elem s i' j' + psum lhs rhs i j' (cols lhs)
                                  else elem s i' j')"
      using product_row[OF wl wr wf1 d sd i] by blast
    have "frame z s'" using f1 s'(2) by (rule frame_trans)
    moreover have "\<forall>i' j'. inrange z i' j' \<longrightarrow>
              elem s' i' j' = (if i' < i + 1 then psum lhs rhs i' j' (cols lhs) else 0)"
      using s'(3) I frame_inrange[OF f1] by auto
    ultimately show "\<exists>s'. ?row i s = Inr s' \<and> ?I (i + 1) s'" using s'(1) by blast
  qed
  then obtain t where t: "for_upto (rows lhs) ?row z = Inr t" "?I (rows lhs) t" by blast
  have "operator_mult lhs rhs = Inr t"
    using d z(1) t(1) by (simp add: operator_mult_def Rows_def Cols_def)
  moreover have "shaped (rows lhs) (cols rhs) t" using t(2) z(2) frame_shaped by blast
  moreover have "\<forall>i j. inrange t i j \<longrightarrow> elem t i j = psum lhs rhs i j (cols lhs)"
    using t(2) zd frame_inrange[of z t] by (auto simp: inrange_def)
  ultimately show ?thesis by blast
qed

lemma At1_ok:
  assumes "IsVector m" "0 \<le> i" "i < vlen m" "0 < cols m"
  shows "At1 m i = (if rows m = 1 then At m 0 i else At m i 0)"
    and "if rows m = 1 then inrange m 0 i else inrange m i 0"
  using assms
  by (auto simp: At1_def IsVector_def IsRowVector_def IsColVector_def Rows_def Cols_def vlen_def
      inrange_def)

lemma get1_ok:
  assumes "wf m" "IsVector m" "0 \<le> i" "i < vlen m" "0 < cols m"
  shows "get1 m i = Inr (velem m i)"
proof (cases "rows m = 1")
  case True
  then have "get1 m i = get m 0 i" "inrange m 0 i"
    using At1_ok[OF assms(2-5)] by (simp_all add: get1_def get_def)
  then show ?thesis using assms(1) True by (simp add: get_ok velem_def)
next
  case False
  then have "get1 m i = get m i 0" "inrange m i 0"
    using At1_ok[OF assms(2-5)] by (simp_all add: get1_def get_def)
  then show ?thesis using assms(1) False by (simp add: get_ok velem_def)
qed

lemma put1_ok:
  assumes "wf m" "IsVector m" "0 \<le> i" "i < vlen m" "0 < cols m"
  shows "\<exists>m'. put1 m i v = Inr m' \<and> frame m m' \<and> velem m' i = v
           \<and> (\<forall>i'. 0 \<le> i' \<and> i' < vlen m \<and> i' \<noteq> i \<longrightarrow> velem m' i' = velem m i')"
proof (cases "rows m = 1")
  case True
  then have e: "put1 m i v = put m 0 i v" and ir: "inrange m 0 i"
    using At1_ok[OF assms(2-5)] by (simp_all add: put1_def put_def)
  obtain m' where m': "put m 0 i v = Inr m'" "frame m m'" "elem m' 0 i = v"
    "\<forall>i' j'. inrange m i' j' \<and> (i' \<noteq> 0 \<or> j' \<noteq> i) \<longrightarrow> elem m' i' j' = elem m i' j'"
    using put_elem[OF assms(1) ir, of v] by blast
  have r: "rows m' = 1" using m'(2) True by (simp add: frame_fields)
  have "\<forall>i'. 0 \<le> i' \<and> i' < vlen m \<and> i' \<noteq> i \<longrightarrow> velem m' i' = velem m i'"
    using m'(4) True r assms(5) by (auto simp: velem_def vlen_def inrange_def)
  then show ?thesis using e m' r True by (auto simp: velem_def)
next
  case False
  then have e: "put1 m i v = put m i 0 v" and ir: "inrange m i 0"
    using At1_ok[OF assms(2-5)] by (simp_all add: put1_def put_def)
  obtain m' where m': "put m i 0 v = Inr m'" "frame m m'" "elem m' i 0 = v"
    "\<forall>i' j'. inrange m i' j' \<and> (i' \<noteq> i \<or> j' \<noteq> 0) \<longrightarrow> elem m' i' j' = elem m i' j'"
    using put_elem[OF assms(1) ir, of v] by blast
  have r: "rows m' \<noteq> 1" using m'(2) False by (simp add: frame_fields)
  have "\<forall>i'. 0 \<le> i' \<and> i' < vlen m \<and> i' \<noteq> i \<longrightarrow> velem m' i' = velem m i'"
    using m'(4) False r assms(5) by (auto simp: velem_def vlen_def inrange_def)
  then show ?thesis using e m' r False by (auto simp: velem_def)
qed

lemma vdot_step: "0 \<le> n \<Longrightarrow> vdot a b (n + 1) = vdot a b n + velem a n * velem b n"
proof -
  assume "0 \<le> n"
  then have "{0..<n + 1} = insert n {0..<n}" by auto
  then show ?thesis by (simp add: vdot_def add.commute)
qed

lemma ScalarProduct_ok:
  fixes a b :: "('a::semiring_0) list Matrix"
  assumes wa: "wf a" and wb: "wf b" and v: "IsVector a"
    and d: "rows a = rows b" "cols a = cols b" and ne: "0 < rows a" "0 < cols a"
  shows "ScalarProduct a b = Inr (vdot a b (vlen a))"
proof -
  have vb: "IsVector b" using v d by (simp add: IsVector_def IsColVector_def IsRowVector_def Rows_def Cols_def)
  have mx: "max (cols a) (rows a) = vlen a"
    using v ne by (auto simp: vlen_def IsVector_def IsColVector_def IsRowVector_def Rows_def Cols_def)
  have lb: "vlen b = vlen a" using d by (simp add: vlen_def)
  have n0: "0 \<le> vlen a" using ne by (simp add: vlen_def)
  let ?body = "\<lambda>i ans. bind (get1 a i) (\<lambda>x. bind (get1 b i) (\<lambda>y. Inr (ans + x * y)))"
  have "\<exists>r. for_upto (vlen a) ?body 0 = Inr r \<and> r = vdot a b (vlen a)"
  proof (rule for_upto_rule[OF n0, where I = "\<lambda>i r. r = vdot a b i"])
    show "0 = vdot a b 0" by (simp add: vdot_def)
  next
    fix i s assume i: "0 \<le> i" "i < vlen a" and s: "s = vdot a b i"
    have "get1 a i = Inr (velem a i)" using get1_ok[OF wa v i ne(2)] .
    moreover have "get1 b i = Inr (velem b i)" using get1_ok[OF wb vb i(1)] i(2) lb ne(2) d by simp
    ultimately show "\<exists>s'. ?body i s = Inr s' \<and> s' = vdot a b (i + 1)"
      using s by (simp add: vdot_step[OF i(1)])
  qed
  then show ?thesis
    using v vb d mx by (simp add: ScalarProduct_def AssertEqualSizes_ok Rows_def Cols_def)
qed

text \<open>The comparison: the test of some pair of corresponding elements succeeds.\<close>

lemma operator_ne_ok:
  assumes wa: "wf a" and wb: "wf b" and d: "rows a = rows b" "cols a = cols b"
  shows "operator_ne eps a b = Inr (\<exists>i j. inrange a i j \<and> differs eps (elem a i j) (elem b i j))"
proof -
  let ?D = "\<lambda>i j. differs eps (elem a i j) (elem b i j)"
  let ?body = "\<lambda>i j returned. if returned then Inr True
         else bind (get a i j) (\<lambda>x. bind (get b i j) (\<lambda>y.
           Inr (fp_ne x x \<or> fp_ne y y \<or> fp_gt (fp_abs (x - y)) eps)))"
  let ?I = "\<lambda>i r. r = (\<exists>i' j'. inrange a i' j' \<and> i' < i \<and> ?D i' j')"
  have r: "0 \<le> rows a" and c: "0 \<le> cols a" using wa by (auto simp: wf_def)
  have "\<exists>r. for_upto (rows a) (\<lambda>i. for_upto (cols a) (?body i)) False = Inr r \<and> ?I (rows a) r"
  proof (rule for_upto_rule[OF r])
    show "?I 0 False" by (auto simp: inrange_def)
  next
    fix i s assume i: "0 \<le> i" "i < rows a" and I: "?I i s"
    let ?J = "\<lambda>j r. r = (\<exists>i' j'. inrange a i' j' \<and> (i' < i \<or> (i' = i \<and> j' < j)) \<and> ?D i' j')"
    have "\<exists>s'. for_upto (cols a) (?body i) s = Inr s' \<and> ?J (cols a) s'"
    proof (rule for_upto_rule[OF c])
      show "?J 0 s" using I by (auto simp: inrange_def)
    next
      fix j s1 assume j: "0 \<le> j" "j < cols a" and J: "?J j s1"
      have ia: "inrange a i j" using i j by (simp add: inrange_def)
      then have ib: "inrange b i j" using d by (simp add: inrange_def)
      have b: "?body i j s1 = Inr (s1 \<or> ?D i j)"
        using ia ib wa wb by (simp add: get_ok differs_def)
      have "(s1 \<or> ?D i j) = (\<exists>i' j'. inrange a i' j' \<and> (i' < i \<or> (i' = i \<and> j' < j + 1)) \<and> ?D i' j')"
      proof -
        have "\<And>j'. (j' < j + 1) = (j' < j \<or> j' = j)" by auto
        then show ?thesis using J ia by auto
      qed
      then show "\<exists>s'. ?body i j s1 = Inr s' \<and> ?J (j + 1) s'" using b by simp
    qed
    then obtain s' where s': "for_upto (cols a) (?body i) s = Inr s'" "?J (cols a) s'" by blast
    have "?I (i + 1) s'"
    proof -
      have "\<And>i'. (i' < i + 1) = (i' < i \<or> i' = i)" by auto
      then show ?thesis using s'(2) by (auto simp: inrange_def)
    qed
    then show "\<exists>s'. for_upto (cols a) (?body i) s = Inr s' \<and> ?I (i + 1) s'" using s'(1) by blast
  qed
  then obtain r where r: "for_upto (rows a) (\<lambda>i. for_upto (cols a) (?body i)) False = Inr r"
    "?I (rows a) r" by blast
  have "r = (\<exists>i j. inrange a i j \<and> ?D i j)" using r(2) by (auto simp: inrange_def)
  then show ?thesis
    using r(1) d by (simp add: operator_ne_def AssertEqualSizes_ok Rows_def Cols_def)
qed

lemma operator_eq_ok:
  assumes wa: "wf a" and wb: "wf b" and d: "rows a = rows b" "cols a = cols b"
  shows "operator_eq eps a b = Inr (\<forall>i j. inrange a i j \<longrightarrow> \<not> differs eps (elem a i j) (elem b i j))"
  by (simp add: operator_eq_def operator_ne_ok[OF assms])

lemma shaped_vector: "shaped n 1 t \<Longrightarrow> IsVector t"
  by (simp add: shaped_def IsVector_def IsColVector_def Cols_def)

lemma shaped_vlen: "shaped n 1 t \<Longrightarrow> 0 < n \<Longrightarrow> vlen t = n"
  by (auto simp: shaped_def vlen_def)

lemma shaped_velem: "shaped n 1 t \<Longrightarrow> 0 \<le> i \<Longrightarrow> i < n \<Longrightarrow> velem t i = elem t i 0"
proof -
  assume a: "shaped n 1 t" "0 \<le> i" "i < n"
  show ?thesis
  proof (cases "rows t = 1")
    case True
    then have "i = 0" using a by (auto simp: shaped_def)
    then show ?thesis by (simp add: velem_def)
  next
    case False
    then show ?thesis by (simp add: velem_def)
  qed
qed

lemma Assign_shaped:
  assumes "shaped n m this" "wf b" "rows b = n" "cols b = m"
  shows "\<exists>t'. Assign this b = Inr t' \<and> shaped n m t'
           \<and> (\<forall>i j. 0 \<le> i \<and> i < n \<and> 0 \<le> j \<and> j < m \<longrightarrow> elem t' i j = elem b i j)"
proof -
  have d: "rows this = rows b" "cols this = cols b" using assms by (auto simp: shaped_def)
  obtain t' where t': "Assign this b = Inr t'" "frame this t'"
    "\<forall>i j. inrange this i j \<longrightarrow> elem t' i j = elem b i j"
    using Assign_ok[OF shaped_wf[OF assms(1)] assms(2) d] by blast
  show ?thesis
    using t' frame_shaped[OF t'(2) assms(1)] shaped_inrange[OF assms(1)] by auto
qed

lemma mult_vec:
  fixes a u :: "('a::semiring_0) list Matrix"
  assumes "wf a" "rows a = n" "cols a = n" "shaped n 1 u"
  shows "\<exists>t. operator_mult a u = Inr t \<and> shaped n 1 t
           \<and> (\<forall>i. 0 \<le> i \<and> i < n \<longrightarrow> elem t i 0 = psum a u i 0 n)"
proof -
  have d: "cols a = rows u" "cols u = 1" using assms by (auto simp: shaped_def)
  obtain t where t: "operator_mult a u = Inr t" "shaped (rows a) (cols u) t"
    "\<forall>i j. inrange t i j \<longrightarrow> elem t i j = psum a u i j (cols a)"
    using operator_mult_ok[OF assms(1) shaped_wf[OF assms(4)] d(1)] by blast
  have s: "shaped n 1 t" using t(2) assms d by simp
  show ?thesis using t(1) s t(3) assms(3) shaped_inrange[OF s] by auto
qed

lemma div_vec:
  fixes u :: "('a::{zero,inverse}) list Matrix"
  assumes "shaped n m u"
  shows "\<exists>t. operator_div_scalar u c = Inr t \<and> shaped n m t
           \<and> (\<forall>i j. 0 \<le> i \<and> i < n \<and> 0 \<le> j \<and> j < m \<longrightarrow> elem t i j = elem u i j / c)"
proof -
  have d: "rows u = n" "cols u = m" using assms by (auto simp: shaped_def)
  obtain t where t: "operator_div_scalar u c = Inr t" "shaped (rows u) (cols u) t"
    "\<forall>i j. inrange u i j \<longrightarrow> elem t i j = elem u i j / c"
    using operator_div_scalar_ok[OF shaped_wf[OF assms]] by blast
  show ?thesis using t d shaped_inrange[OF assms] by auto
qed

lemma ScalarProduct_vec:
  fixes a b :: "('a::semiring_0) list Matrix"
  assumes "shaped n 1 a" "shaped n 1 b" "0 < n"
  shows "ScalarProduct a b = Inr (vdot a b n)"
proof -
  have d: "rows a = rows b" "cols a = cols b" "0 < rows a" "0 < cols a"
    using assms by (auto simp: shaped_def)
  show ?thesis
    using ScalarProduct_ok[OF shaped_wf[OF assms(1)] shaped_wf[OF assms(2)]
        shaped_vector[OF assms(1)] d] shaped_vlen[OF assms(1,3)] by simp
qed

lemma Matrix_copy_shaped:
  assumes "shaped n m u"
  shows "\<exists>t. Matrix_copy u = Inr t \<and> shaped n m t
           \<and> (\<forall>i j. 0 \<le> i \<and> i < n \<and> 0 \<le> j \<and> j < m \<longrightarrow> elem t i j = elem u i j)"
proof -
  have d: "rows u = n" "cols u = m" using assms by (auto simp: shaped_def)
  show ?thesis
    using Matrix_copy_ok[OF shaped_wf[OF assms]] d shaped_inrange[OF assms] by auto
qed

text \<open>One step of Method 2 on vectors of the right shape.\<close>

lemma PowerIterationMethod2Iteration_ok:
  assumes a2: "wf a2" "rows a2 = n" "cols a2 = n" and u: "shaped n 1 u" and y: "shaped n 1 y"
    and n: "0 < n"
  shows "\<exists>r u' y'. PowerIterationMethod2Iteration E a a2 u y = Inr (r, u', y')
           \<and> shaped n 1 u' \<and> shaped n 1 y'
           \<and> (\<forall>i. 0 \<le> i \<and> i < n \<longrightarrow> elem y' i 0 = psum a2 u i 0 n)"
proof -
  obtain p where p: "operator_mult a2 u = Inr p" "shaped n 1 p"
    "\<forall>i. 0 \<le> i \<and> i < n \<longrightarrow> elem p i 0 = psum a2 u i 0 n"
    using mult_vec[OF a2 u] by blast
  obtain y' where y': "Assign y p = Inr y'" "shaped n 1 y'"
    "\<forall>i j. 0 \<le> i \<and> i < n \<and> 0 \<le> j \<and> j < 1 \<longrightarrow> elem y' i j = elem p i j"
    using Assign_shaped[OF y shaped_wf[OF p(2)]] p(2) by (auto simp: shaped_def)
  obtain q where q: "operator_div_scalar y' (EuclideanNorm E y') = Inr q" "shaped n 1 q"
    using div_vec[OF y'(2)] by blast
  obtain u' where u': "Assign u q = Inr u'" "shaped n 1 u'"
    using Assign_shaped[OF u shaped_wf[OF q(2)]] q(2) by (auto simp: shaped_def)
  obtain p' where p': "operator_mult a2 u' = Inr p'" "shaped n 1 p'"
    using mult_vec[OF a2 u'(2)] by blast
  have sp: "ScalarProduct u' p' = Inr (vdot u' p' n)"
    using ScalarProduct_vec[OF u'(2) p'(2) n] .
  have "PowerIterationMethod2Iteration E a a2 u y = Inr (vdot u' p' n, u', y')"
    using p(1) y'(1) q(1) u'(1) p'(1) sp by (simp add: PowerIterationMethod2Iteration_def)
  moreover have "\<forall>i. 0 \<le> i \<and> i < n \<longrightarrow> elem y' i 0 = psum a2 u i 0 n"
    using y'(3) p(3) by simp
  ultimately show ?thesis using u'(2) y'(2) by blast
qed

lemma PowerMethodEigenvalues2_loop_ok:
  assumes a2: "wf a2" "rows a2 = n" "cols a2 = n" and n: "0 < n"
    and u: "shaped n 1 u" and y: "shaped n 1 y" and it: "0 \<le> iter"
  shows "\<exists>l u' y' it. PowerMethodEigenvalues2_loop E a a2 max_iters eps lambda prev_lambda u y iter
                        = Inr (l, u', y', it)
           \<and> shaped n 1 u' \<and> shaped n 1 y' \<and> iter \<le> it"
  using u y it
proof (induction "nat (max_iters - iter)" arbitrary: lambda prev_lambda u y iter rule: less_induct)
  case less
  show ?case
  proof (cases "\<bar>lambda - prev_lambda\<bar> > eps")
    case False
    then show ?thesis
      using less.prems by (simp add: PowerMethodEigenvalues2_loop.simps[of E a a2 max_iters eps lambda])
  next
    case True
    obtain r u' y' where s: "PowerIterationMethod2Iteration E a a2 u y = Inr (r, u', y')"
      "shaped n 1 u'" "shaped n 1 y'"
      using PowerIterationMethod2Iteration_ok[OF a2 less.prems(1,2) n, of E a] by blast
    show ?thesis
    proof (cases "iter + 1 > max_iters")
      case True
      then show ?thesis
        using \<open>\<bar>lambda - prev_lambda\<bar> > eps\<close> s
        by (simp add: PowerMethodEigenvalues2_loop.simps[of E a a2 max_iters eps lambda])
    next
      case False
      then have "nat (max_iters - (iter + 1)) < nat (max_iters - iter)" by simp
      then have "\<exists>l u'' y'' it. PowerMethodEigenvalues2_loop E a a2 max_iters eps (sqrt \<bar>r\<bar>) lambda u' y' (iter + 1)
                        = Inr (l, u'', y'', it)
           \<and> shaped n 1 u'' \<and> shaped n 1 y'' \<and> iter + 1 \<le> it"
        using less.hyps[of "iter + 1" u' y'] s(2,3) less.prems(3) by simp
      then show ?thesis
        using True False s(1)
        by (auto simp: PowerMethodEigenvalues2_loop.simps[of E a a2 max_iters eps lambda prev_lambda u y iter])
    qed
  qed
qed

section \<open>The element-wise operators and the comparison\<close>

lemma wf_mk: "0 \<le> n \<Longrightarrow> 0 \<le> m \<Longrightarrow> int (length xs) = n * m \<Longrightarrow> wf (mk n m xs)"
  by (simp add: wf_def mk_def)

lemma differs_plus_zero:
  "differs eps (x + 0) x = (x = NaN \<or> fp_finite x \<and> fp_gt 0 eps)"
  by (cases x) (simp_all add: differs_def fp_ne_def zero_fp_def)

lemma differs_minus_self:
  "differs eps (x - x) 0 = (\<not> fp_finite x \<or> fp_gt 0 eps)"
  by (cases x) (simp_all add: differs_def fp_ne_def zero_fp_def)

lemma plus_zeros_eq_ok:
  assumes "wf a"
  shows "plus_zeros_eq eps a
         = Inr (\<forall>i j. inrange a i j \<longrightarrow> \<not> (elem a i j = NaN \<or> fp_finite (elem a i j) \<and> fp_gt 0 eps))"
proof -
  have d: "0 \<le> rows a" "0 \<le> cols a" using assms by (auto simp: wf_def)
  obtain z where z: "Matrix_dims (rows a) (cols a) = Inr z" "shaped (rows a) (cols a) z"
    "\<forall>i j. inrange z i j \<longrightarrow> elem z i j = (0::fp)"
    using Matrix_dims_ok[OF d] by blast
  have zd: "rows a = rows z" "cols a = cols z" using z(2) by (auto simp: shaped_def)
  obtain s where s: "operator_plus a z = Inr s" "shaped (rows a) (cols a) s"
    "\<forall>i j. inrange a i j \<longrightarrow> elem s i j = elem a i j + elem z i j"
    using operator_plus_ok[OF assms shaped_wf[OF z(2)] zd] by blast
  have sd: "rows s = rows a" "cols s = cols a" using s(2) by (auto simp: shaped_def)
  have e: "operator_eq eps s a = Inr (\<forall>i j. inrange s i j \<longrightarrow> \<not> differs eps (elem s i j) (elem a i j))"
    using operator_eq_ok[OF shaped_wf[OF s(2)] assms sd] .
  have "\<And>i j. inrange a i j \<Longrightarrow> elem s i j = elem a i j + 0"
    using s(3) z(3) zd by (simp add: inrange_def)
  then have "(\<forall>i j. inrange s i j \<longrightarrow> \<not> differs eps (elem s i j) (elem a i j))
           = (\<forall>i j. inrange a i j \<longrightarrow> \<not> (elem a i j = NaN \<or> fp_finite (elem a i j) \<and> fp_gt 0 eps))"
    using sd by (simp add: inrange_def differs_plus_zero)
  then show ?thesis
    using z(1) s(1) e by (simp add: plus_zeros_eq_def Zeros_def Rows_def Cols_def)
qed

lemma minus_self_eq_ok:
  assumes "wf a"
  shows "minus_self_eq eps a
         = Inr (\<forall>i j. inrange a i j \<longrightarrow> \<not> (\<not> fp_finite (elem a i j) \<or> fp_gt 0 eps))"
proof -
  have d: "0 \<le> rows a" "0 \<le> cols a" using assms by (auto simp: wf_def)
  obtain z where z: "Matrix_dims (rows a) (cols a) = Inr z" "shaped (rows a) (cols a) z"
    "\<forall>i j. inrange z i j \<longrightarrow> elem z i j = (0::fp)"
    using Matrix_dims_ok[OF d] by blast
  have zd: "rows z = rows a" "cols z = cols a" using z(2) by (auto simp: shaped_def)
  obtain s where s: "operator_minus a a = Inr s" "shaped (rows a) (cols a) s"
    "\<forall>i j. inrange a i j \<longrightarrow> elem s i j = elem a i j - elem a i j"
    using operator_minus_ok[OF assms assms] by blast
  have sd: "rows s = rows z" "cols s = cols z" using s(2) zd by (auto simp: shaped_def)
  have e: "operator_eq eps s z = Inr (\<forall>i j. inrange s i j \<longrightarrow> \<not> differs eps (elem s i j) (elem z i j))"
    using operator_eq_ok[OF shaped_wf[OF s(2)] shaped_wf[OF z(2)] sd] .
  have "\<And>i j. inrange a i j \<Longrightarrow> elem s i j = elem a i j - elem a i j \<and> elem z i j = 0"
    using s(3) z(3) zd by (simp add: inrange_def)
  then have "(\<forall>i j. inrange s i j \<longrightarrow> \<not> differs eps (elem s i j) (elem z i j))
           = (\<forall>i j. inrange a i j \<longrightarrow> \<not> (\<not> fp_finite (elem a i j) \<or> fp_gt 0 eps))"
    using sd zd by (simp add: inrange_def differs_minus_self)
  then show ?thesis
    using z(1) s(1) e by (simp add: minus_self_eq_def Zeros_def Rows_def Cols_def)
qed

text \<open>
  Claim C8, as amended. For a well-formed square matrix \<open>A\<close> all of whose elements are
  finite (neither NaN nor an infinity) and a tolerance \<open>eps\<close> that is not below zero,
  \<^verbatim>\<open>(A + Zeros) == A\<close> and \<^verbatim>\<open>(A - A) == Zeros\<close> both evaluate to \<^verbatim>\<open>true\<close>, where
  \<open>Zeros\<close> is the zero matrix of the size of \<open>A\<close>.
\<close>

theorem add_zeros_and_subtract_self:
  assumes "wf a" "IsSquare a" "\<forall>i j. inrange a i j \<longrightarrow> fp_finite (elem a i j)" "\<not> fp_gt 0 eps"
  shows "plus_zeros_eq eps a = Inr True \<and> minus_self_eq eps a = Inr True"
proof -
  have "\<forall>i j. inrange a i j \<longrightarrow> elem a i j \<noteq> NaN"
    using assms(3) by fastforce
  then show ?thesis
    using assms by (simp add: plus_zeros_eq_ok minus_self_eq_ok)
qed

lemma inrange_mk22:
  "inrange (mk 2 2 xs) i j = ((i = 0 \<or> i = 1) \<and> (j = 0 \<or> j = 1))"
  by (auto simp: inrange_def mk_def)

theorem add_zeros_and_subtract_self_witness:
  "plus_zeros_eq (Finite (1 / 2 ^ 52)) (mk 2 2 [Finite 1, Finite 2, Finite 3, Finite 4]) = Inr True
   \<and> minus_self_eq (Finite (1 / 2 ^ 52)) (mk 2 2 [Finite 1, Finite 2, Finite 3, Finite 4]) = Inr True"
proof -
  let ?a = "mk 2 2 [Finite 1, Finite 2, Finite 3, Finite 4]"
  have "wf ?a" by (simp add: wf_def mk_def)
  moreover have "IsSquare ?a"
    by (simp add: IsSquare_def Rows_def Cols_def mk_def)
  moreover have "\<forall>i j. inrange ?a i j \<longrightarrow> fp_finite (elem ?a i j)"
  proof (intro allI impI)
    fix i j assume "inrange ?a i j"
    then have "(i = 0 \<or> i = 1) \<and> (j = 0 \<or> j = 1)" by (simp only: inrange_mk22)
    then show "fp_finite (elem ?a i j)" by (auto simp: elem_def mk_def)
  qed
  moreover have "\<not> fp_gt 0 (Finite (1 / 2 ^ 52))" by (simp add: zero_fp_def)
  ultimately show ?thesis by (rule add_zeros_and_subtract_self)
qed

text \<open>
  The claim as stated is about every square matrix and whatever tolerance is
  configured. With the initial tolerance \<^verbatim>\<open>std::numeric_limits<double>::epsilon()\<close>,
  which is \<open>2\<^sup>-\<^sup>5\<^sup>2\<close>, both comparisons are \<^verbatim>\<open>false\<close> for the 1 by 1 matrix
  holding NaN, whose element \<^verbatim>\<open>operator!=\<close> finds different from itself, and
  \<^verbatim>\<open>(A - A) == Zeros\<close> is \<^verbatim>\<open>false\<close> for the 1 by 1 matrix holding an infinity, whose
  difference with itself is NaN. With \<^verbatim>\<open>SetEps(-1, ...)\<close> the test
  \<^verbatim>\<open>std::abs(a(i, j) - b(i, j)) > eps\<close> holds for every pair of numbers, so both
  comparisons are \<^verbatim>\<open>false\<close> for the 1 by 1 zero matrix.
\<close>

theorem add_zeros_not_equal_counterexample:
  "IsSquare (mk 1 1 [NaN]) \<and> wf (mk 1 1 [NaN])
   \<and> plus_zeros_eq (Finite (1 / 2 ^ 52)) (mk 1 1 [NaN]) = Inr False
   \<and> minus_self_eq (Finite (1 / 2 ^ 52)) (mk 1 1 [NaN]) = Inr False
   \<and> plus_zeros_eq (Finite (1 / 2 ^ 52)) (mk 1 1 [PInf]) = Inr True
   \<and> minus_self_eq (Finite (1 / 2 ^ 52)) (mk 1 1 [PInf]) = Inr False
   \<and> plus_zeros_eq (Finite (- 1)) (mk 1 1 [Finite 0]) = Inr False
   \<and> minus_self_eq (Finite (- 1)) (mk 1 1 [Finite 0]) = Inr False"
  by code_simp

section \<open>ScalarProduct\<close>

text \<open>
  Claim C9, as amended. \<^verbatim>\<open>ScalarProduct\<close> throws \<^verbatim>\<open>std::runtime_error\<close> when an
  operand is not a vector; it throws \<^verbatim>\<open>std::invalid_argument\<close> when both are
  vectors of different sizes; and for two well-formed vectors of the same size with at
  least one element it returns the sum of the products of corresponding elements. The
  scalar type is any semiring: the products are plain products, also for
  \<open>complex\<close>, where no operand is conjugated.
\<close>

theorem ScalarProduct_cases:
  fixes a b :: "('a::semiring_0) list Matrix"
  shows "(\<not> IsVector a \<or> \<not> IsVector b \<longrightarrow> (\<exists>msg. ScalarProduct a b = Inl (RuntimeError msg)))
       \<and> (IsVector a \<and> IsVector b \<and> Size a \<noteq> Size b
            \<longrightarrow> (\<exists>msg. ScalarProduct a b = Inl (InvalidArgument msg)))
       \<and> (IsVector a \<and> IsVector b \<and> Size a = Size b \<and> wf a \<and> wf b \<and> 0 < rows a \<and> 0 < cols a
            \<longrightarrow> ScalarProduct a b = Inr (\<Sum>i \<in> {0..<vlen a}. velem a i * velem b i))"
proof (intro conjI impI)
  assume "\<not> IsVector a \<or> \<not> IsVector b"
  then show "\<exists>msg. ScalarProduct a b = Inl (RuntimeError msg)"
    by (auto simp: ScalarProduct_def)
next
  assume "IsVector a \<and> IsVector b \<and> Size a \<noteq> Size b"
  then show "\<exists>msg. ScalarProduct a b = Inl (InvalidArgument msg)"
    by (simp add: ScalarProduct_def AssertEqualSizes_def)
next
  assume h: "IsVector a \<and> IsVector b \<and> Size a = Size b \<and> wf a \<and> wf b \<and> 0 < rows a \<and> 0 < cols a"
  then have "rows a = rows b" "cols a = cols b" by (auto simp: Size_def)
  then show "ScalarProduct a b = Inr (\<Sum>i \<in> {0..<vlen a}. velem a i * velem b i)"
    using h ScalarProduct_ok[of a b] by (simp add: vdot_def)
qed

lemma sum3: "(\<Sum>i \<in> {0..<(3::int)}. f i) = f 0 + f 1 + (f 2 :: 'a::comm_monoid_add)"
proof -
  have "{0..<(3::int)} = {0, 1, 2}" by auto
  then show ?thesis by (simp add: add.assoc)
qed

theorem ScalarProduct_cases_witness:
  "(\<exists>msg. ScalarProduct (mk 2 2 [1, 2, 3, 4::complex]) (mk 2 1 [1, 1]) = Inl (RuntimeError msg))
   \<and> (\<exists>msg. ScalarProduct (mk 1 3 [1, 2, 3::complex]) (mk 3 1 [1, 1, 1]) = Inl (InvalidArgument msg))
   \<and> ScalarProduct (mk 3 1 [\<i>, 2, 3]) (mk 3 1 [\<i>, 1, 1]) = Inr 4"
proof -
  let ?m = "mk 2 2 [1, 2, 3, 4::complex]" and ?c = "mk 2 1 [1, 1::complex]"
  let ?r = "mk 1 3 [1, 2, 3::complex]" and ?d = "mk 3 1 [1, 1, 1::complex]"
  let ?u = "mk 3 1 [\<i>, 2, 3]" and ?v = "mk 3 1 [\<i>, 1, 1]"
  have 1: "\<not> IsVector ?m \<or> \<not> IsVector ?c"
    by (simp add: IsVector_def IsColVector_def IsRowVector_def Rows_def Cols_def mk_def)
  have 2: "IsVector ?r \<and> IsVector ?d \<and> Size ?r \<noteq> Size ?d"
    by (simp add: IsVector_def IsColVector_def IsRowVector_def Rows_def Cols_def Size_def mk_def)
  have 3: "IsVector ?u \<and> IsVector ?v \<and> Size ?u = Size ?v \<and> wf ?u \<and> wf ?v \<and> 0 < rows ?u \<and> 0 < cols ?u"
    by (simp add: IsVector_def IsColVector_def IsRowVector_def Rows_def Cols_def Size_def mk_def wf_def)
  have 4: "(\<Sum>i \<in> {0..<vlen ?u}. velem ?u i * velem ?v i) = 4"
    by (simp add: vlen_def mk_def sum3 velem_def elem_def)
  show ?thesis
    using ScalarProduct_cases[of ?m ?c] ScalarProduct_cases[of ?r ?d] ScalarProduct_cases[of ?u ?v]
      1 2 3 4 by simp
qed

text \<open>
  For two vectors of size \<open>(0, 1)\<close> the loop bound \<^verbatim>\<open>std::max(Cols(), Rows())\<close> is 1:
  the loop reads element 0, and the bounds check of \<^verbatim>\<open>At\<close> throws
  \<^verbatim>\<open>std::out_of_range\<close>, where the claim as stated has the empty sum returned.
\<close>

theorem ScalarProduct_empty_counterexample:
  "IsVector (mk 0 1 ([]::real list)) \<and> Size (mk 0 1 ([]::real list)) = Size (mk 0 1 ([]::real list))
   \<and> ScalarProduct (mk 0 1 ([]::real list)) (mk 0 1 [])
      = Inl (OutOfRange ''Indexes (0; 0) out of matrix size (0; 1)'')"
  by code_simp

section \<open>The three methods return\<close>

lemma shaped_wf_dims: "shaped n m t \<Longrightarrow> wf t \<and> rows t = n \<and> cols t = m"
  by (simp add: shaped_def owning_def)

lemma psum_cong:
  assumes "\<And>k. 0 \<le> k \<Longrightarrow> k < n \<Longrightarrow> elem a i k = elem a' i k"
    and "\<And>k. 0 \<le> k \<Longrightarrow> k < n \<Longrightarrow> elem u k j = elem u' k j"
  shows "psum a u i j n = psum a' u' i j n"
  unfolding psum_def by (rule sum.cong) (auto simp: assms)

lemma psum_scale:
  fixes a :: "('a::comm_semiring_0) list Matrix"
  assumes "\<And>k. 0 \<le> k \<Longrightarrow> k < n \<Longrightarrow> elem sa i k = elem a i k * s"
  shows "psum sa u i j n = s * psum a u i j n"
proof -
  have "psum sa u i j n = (\<Sum>k \<in> {0..<n}. s * (elem a i k * elem u k j))"
    unfolding psum_def by (rule sum.cong) (auto simp: assms mult_ac)
  then show ?thesis by (simp add: psum_def sum_distrib_left)
qed

text \<open>The candidate vector of Method 2, element by element.\<close>

lemma candidate_ok:
  assumes a: "wf a" "rows a = n" "cols a = n" and a2: "wf a2" "rows a2 = n" "cols a2 = n"
    and u: "shaped n 1 u"
  shows "\<exists>v. candidate s lambda a a2 u = Inr v \<and> shaped n 1 v
           \<and> (\<forall>i. 0 \<le> i \<and> i < n \<longrightarrow>
                 elem v i 0 = (s * psum a u i 0 n + psum a2 u i 0 n) / (2 * lambda * lambda))"
proof -
  obtain sa where sa: "operator_scalar_mult s a = Inr sa" "shaped (rows a) (cols a) sa"
    "\<forall>i j. inrange a i j \<longrightarrow> elem sa i j = elem a i j * s"
    using operator_scalar_mult_ok[OF a(1)] by blast
  have sad: "wf sa" "rows sa = n" "cols sa = n" using sa(2) a by (auto simp: shaped_def owning_def)
  obtain p where p: "operator_mult sa u = Inr p" "shaped n 1 p"
    "\<forall>i. 0 \<le> i \<and> i < n \<longrightarrow> elem p i 0 = psum sa u i 0 n"
    using mult_vec[OF sad u] by blast
  obtain q where q: "operator_mult a2 u = Inr q" "shaped n 1 q"
    "\<forall>i. 0 \<le> i \<and> i < n \<longrightarrow> elem q i 0 = psum a2 u i 0 n"
    using mult_vec[OF a2 u] by blast
  have pd: "wf p" "rows p = n" "cols p = 1" using shaped_wf_dims[OF p(2)] by auto
  have qd: "wf q" "rows q = n" "cols q = 1" using shaped_wf_dims[OF q(2)] by auto
  obtain w where w: "operator_plus p q = Inr w" "shaped (rows p) (cols p) w"
    "\<forall>i j. inrange p i j \<longrightarrow> elem w i j = elem p i j + elem q i j"
    using operator_plus_ok[OF pd(1) qd(1)] pd qd by auto
  have ws: "shaped n 1 w" using w(2) pd by simp
  obtain v where v: "operator_div_scalar w (2 * lambda * lambda) = Inr v" "shaped n 1 v"
    "\<forall>i j. 0 \<le> i \<and> i < n \<and> 0 \<le> j \<and> j < 1 \<longrightarrow> elem v i j = elem w i j / (2 * lambda * lambda)"
    using div_vec[OF ws] by blast
  have "candidate s lambda a a2 u = Inr v"
    using sa(1) p(1) q(1) w(1) v(1) by (simp add: candidate_def)
  moreover have "\<forall>i. 0 \<le> i \<and> i < n \<longrightarrow>
                 elem v i 0 = (s * psum a u i 0 n + psum a2 u i 0 n) / (2 * lambda * lambda)"
  proof (intro allI impI)
    fix i assume i: "0 \<le> i \<and> i < n"
    have "psum sa u i 0 n = s * psum a u i 0 n"
      using sa(3) a i by (intro psum_scale) (simp add: inrange_def)
    moreover have "elem w i 0 = elem p i 0 + elem q i 0"
      using w(3) pd i by (simp add: inrange_def)
    ultimately show "elem v i 0 = (s * psum a u i 0 n + psum a2 u i 0 n) / (2 * lambda * lambda)"
      using v(3) p(3) q(3) i by simp
  qed
  ultimately show ?thesis using v(2) by blast
qed

lemma ToComplex_shaped:
  assumes "shaped n m v"
  shows "\<exists>c. ToComplex v = Inr c \<and> shaped n m c
           \<and> (\<forall>i j. 0 \<le> i \<and> i < n \<and> 0 \<le> j \<and> j < m \<longrightarrow> elem c i j = complex_of_real (elem v i j))"
proof -
  have d: "wf v" "rows v = n" "cols v = m" using shaped_wf_dims[OF assms] by auto
  show ?thesis using ToComplex_ok[OF d(1)] d shaped_inrange[OF assms] by auto
qed

text \<open>What Method 2 does after its loop.\<close>

lemma PowerMethodEigenvalues2_results_ok:
  assumes a: "wf a" "rows a = n" "cols a = n" and a2: "wf a2" "rows a2 = n" "cols a2 = n"
    and u: "shaped n 1 u"
  shows "\<exists>v1 v2 c1 c2.
           candidate lambda lambda a a2 u = Inr v1 \<and> candidate (- lambda) lambda a a2 u = Inr v2
         \<and> ToComplex v1 = Inr c1 \<and> ToComplex v2 = Inr c2
         \<and> PowerMethodEigenvalues2_results E a a2 iters max_iters eps lambda u iter
             = Inr ((if EuclideanNorm E v1 > eps then [(complex_of_real lambda, c1)] else [])
                    @ (if EuclideanNorm E v2 > eps then [(complex_of_real (- lambda), c2)] else []),
                    set_iters iters
                      (if iter \<ge> max_iters \<or> \<not> EuclideanNorm E v1 > eps \<and> \<not> EuclideanNorm E v2 > eps
                       then - 1 else iter + 1))"
proof -
  obtain v1 where v1: "candidate lambda lambda a a2 u = Inr v1" "shaped n 1 v1"
    using candidate_ok[OF a a2 u] by blast
  obtain v2 where v2: "candidate (- lambda) lambda a a2 u = Inr v2" "shaped n 1 v2"
    using candidate_ok[OF a a2 u] by blast
  obtain c1 where c1: "ToComplex v1 = Inr c1" using ToComplex_shaped[OF v1(2)] by blast
  obtain c2 where c2: "ToComplex v2 = Inr c2" using ToComplex_shaped[OF v2(2)] by blast
  have "PowerMethodEigenvalues2_results E a a2 iters max_iters eps lambda u iter
             = Inr ((if EuclideanNorm E v1 > eps then [(complex_of_real lambda, c1)] else [])
                    @ (if EuclideanNorm E v2 > eps then [(complex_of_real (- lambda), c2)] else []),
                    set_iters iters
                      (if iter \<ge> max_iters \<or> \<not> EuclideanNorm E v1 > eps \<and> \<not> EuclideanNorm E v2 > eps
                       then - 1 else iter + 1))"
    using v1(1) v2(1) c1 c2 by (simp add: PowerMethodEigenvalues2_results_def)
  then show ?thesis using v1(1) v2(1) c1 c2 by blast
qed

text \<open>Method 2 up to its loop.\<close>

lemma PowerMethodEigenvalues2_start:
  assumes a: "wf a" "rows a = n" "cols a = n" and n: "0 < n" and y: "shaped n 1 y"
  shows "\<exists>a2 u0 r. operator_mult a a = Inr a2 \<and> shaped n n a2
           \<and> (\<forall>i j. 0 \<le> i \<and> i < n \<and> 0 \<le> j \<and> j < n \<longrightarrow> elem a2 i j = psum a a i j n)
           \<and> operator_div_scalar y (EuclideanNorm E y) = Inr u0 \<and> shaped n 1 u0
           \<and> (\<forall>i. 0 \<le> i \<and> i < n \<longrightarrow> elem u0 i 0 = elem y i 0 / EuclideanNorm E y)
           \<and> bind (operator_mult a2 u0) (ScalarProduct u0) = Inr r
           \<and> (\<exists>c. Matrix_copy u0 = Inr c)"
proof -
  obtain a2 where a2: "operator_mult a a = Inr a2" "shaped (rows a) (cols a) a2"
    "\<forall>i j. inrange a2 i j \<longrightarrow> elem a2 i j = psum a a i j (cols a)"
    using operator_mult_ok[OF a(1) a(1)] a by auto
  have a2s: "shaped n n a2" using a2(2) a by simp
  have a2d: "wf a2" "rows a2 = n" "cols a2 = n" using shaped_wf_dims[OF a2s] by auto
  obtain u0 where u0: "operator_div_scalar y (EuclideanNorm E y) = Inr u0" "shaped n 1 u0"
    "\<forall>i j. 0 \<le> i \<and> i < n \<and> 0 \<le> j \<and> j < 1 \<longrightarrow> elem u0 i j = elem y i j / EuclideanNorm E y"
    using div_vec[OF y] by blast
  obtain p where p: "operator_mult a2 u0 = Inr p" "shaped n 1 p"
    using mult_vec[OF a2d u0(2)] by blast
  have sp: "ScalarProduct u0 p = Inr (vdot u0 p n)" using ScalarProduct_vec[OF u0(2) p(2) n] .
  obtain c where c: "Matrix_copy u0 = Inr c" "shaped n 1 c"
    "\<forall>i j. 0 \<le> i \<and> i < n \<and> 0 \<le> j \<and> j < 1 \<longrightarrow> elem c i j = elem u0 i j"
    using Matrix_copy_shaped[OF u0(2)] by blast
  have "bind (operator_mult a2 u0) (ScalarProduct u0) = Inr (vdot u0 p n)"
    using p(1) sp by simp
  moreover have "\<forall>i j. 0 \<le> i \<and> i < n \<and> 0 \<le> j \<and> j < n \<longrightarrow> elem a2 i j = psum a a i j n"
    using a2(3) a shaped_inrange[OF a2s] by simp
  moreover have "\<forall>i. 0 \<le> i \<and> i < n \<longrightarrow> elem u0 i 0 = elem y i 0 / EuclideanNorm E y"
    using u0(3) by simp
  ultimately show ?thesis using a2(1) a2s u0(1,2) c(1) by blast
qed

text \<open>Method 2 as a whole: its start, its loop and what it does after the loop.\<close>

lemma PowerMethodEigenvalues2_unfold:
  assumes sq: "IsSquare a"
    and s: "operator_mult a a = Inr a2" "operator_div_scalar y (EuclideanNorm E y) = Inr u0"
      "bind (operator_mult a2 u0) (ScalarProduct u0) = Inr r" "Matrix_copy u0 = Inr c"
    and l: "PowerMethodEigenvalues2_loop E a a2 max_iters eps (sqrt \<bar>r\<bar>) (10 ^ 18) u0 y 0
            = Inr (lambda, u, y', iter)"
    and f: "PowerMethodEigenvalues2_results E a a2 iters max_iters eps lambda u iter = Inr (ans, it)"
  shows "PowerMethodEigenvalues2 E a y iters max_iters eps = Inr (ans, it, y')"
proof -
  obtain p where p: "operator_mult a2 u0 = Inr p" "ScalarProduct u0 p = Inr r"
    using s(3) by (cases "operator_mult a2 u0") auto
  show ?thesis
    using sq s(1,2,4) p l f by (simp add: PowerMethodEigenvalues2_def)
qed

lemma get1_vec:
  assumes "shaped n 1 t" "0 \<le> i" "i < n"
  shows "get1 t i = Inr (elem t i 0)"
proof -
  have n: "0 < n" using assms by simp
  have d: "wf t" "cols t = 1" using shaped_wf_dims[OF assms(1)] by auto
  have "get1 t i = Inr (velem t i)"
    using get1_ok[OF d(1) shaped_vector[OF assms(1)] assms(2)] shaped_vlen[OF assms(1) n] assms(3) d(2)
    by simp
  then show ?thesis using shaped_velem[OF assms] by simp
qed

lemma put1_vec:
  assumes "shaped n 1 t" "0 \<le> i" "i < n"
  shows "\<exists>t'. put1 t i v = Inr t' \<and> shaped n 1 t' \<and> elem t' i 0 = v
           \<and> (\<forall>i'. 0 \<le> i' \<and> i' < n \<and> i' \<noteq> i \<longrightarrow> elem t' i' 0 = elem t i' 0)"
proof -
  have n: "0 < n" using assms by simp
  have d: "wf t" "cols t = 1" using shaped_wf_dims[OF assms(1)] by auto
  have l: "vlen t = n" using shaped_vlen[OF assms(1) n] .
  obtain t' where t': "put1 t i v = Inr t'" "frame t t'" "velem t' i = v"
    "\<forall>i'. 0 \<le> i' \<and> i' < vlen t \<and> i' \<noteq> i \<longrightarrow> velem t' i' = velem t i'"
    using put1_ok[OF d(1) shaped_vector[OF assms(1)] assms(2), of v] l assms(3) d(2) by auto
  have s: "shaped n 1 t'" using frame_shaped[OF t'(2) assms(1)] .
  have "elem t' i 0 = v" using t'(3) shaped_velem[OF s assms(2,3)] by simp
  moreover have "\<forall>i'. 0 \<le> i' \<and> i' < n \<and> i' \<noteq> i \<longrightarrow> elem t' i' 0 = elem t i' 0"
    using t'(4) l shaped_velem[OF s] shaped_velem[OF assms(1)] by simp
  ultimately show ?thesis using t'(1) s by blast
qed

lemma put_shaped:
  assumes "shaped n m t" "0 \<le> i" "i < n" "0 \<le> j" "j < m"
  shows "\<exists>t'. put t i j v = Inr t' \<and> shaped n m t' \<and> elem t' i j = v
           \<and> (\<forall>i' j'. 0 \<le> i' \<and> i' < n \<and> 0 \<le> j' \<and> j' < m \<and> (i' \<noteq> i \<or> j' \<noteq> j)
                 \<longrightarrow> elem t' i' j' = elem t i' j')"
proof -
  have ir: "inrange t i j" using assms shaped_inrange[OF assms(1)] by simp
  obtain t' where t': "put t i j v = Inr t'" "frame t t'" "elem t' i j = v"
    "\<forall>i' j'. inrange t i' j' \<and> (i' \<noteq> i \<or> j' \<noteq> j) \<longrightarrow> elem t' i' j' = elem t i' j'"
    using put_elem[OF shaped_wf[OF assms(1)] ir, of v] by blast
  show ?thesis
    using t' frame_shaped[OF t'(2) assms(1)] shaped_inrange[OF assms(1)] by auto
qed




text \<open>Method 2 on a square matrix with at least one row and a seed of its height.\<close>

lemma PowerMethodEigenvalues2_ok:
  assumes a: "wf a" "IsSquare a" "0 < rows a" and y: "shaped (rows a) 1 y"
  shows "\<exists>a2 u0 r lambda u y' iter v1 v2 c1 c2.
           operator_mult a a = Inr a2 \<and> shaped (rows a) (rows a) a2
         \<and> (\<forall>i j. 0 \<le> i \<and> i < rows a \<and> 0 \<le> j \<and> j < rows a \<longrightarrow> elem a2 i j = psum a a i j (rows a))
         \<and> operator_div_scalar y (EuclideanNorm E y) = Inr u0
         \<and> bind (operator_mult a2 u0) (ScalarProduct u0) = Inr r
         \<and> PowerMethodEigenvalues2_loop E a a2 max_iters eps (sqrt \<bar>r\<bar>) (10 ^ 18) u0 y 0
             = Inr (lambda, u, y', iter)
         \<and> shaped (rows a) 1 u \<and> shaped (rows a) 1 y' \<and> 0 \<le> iter
         \<and> candidate lambda lambda a a2 u = Inr v1 \<and> candidate (- lambda) lambda a a2 u = Inr v2
         \<and> ToComplex v1 = Inr c1 \<and> ToComplex v2 = Inr c2
         \<and> PowerMethodEigenvalues2 E a y iters max_iters eps
             = Inr ((if EuclideanNorm E v1 > eps then [(complex_of_real lambda, c1)] else [])
                    @ (if EuclideanNorm E v2 > eps then [(complex_of_real (- lambda), c2)] else []),
                    set_iters iters
                      (if iter \<ge> max_iters \<or> \<not> EuclideanNorm E v1 > eps \<and> \<not> EuclideanNorm E v2 > eps
                       then - 1 else iter + 1),
                    y')"
proof -
  let ?n = "rows a"
  have ad: "wf a" "rows a = ?n" "cols a = ?n" using a by (auto simp: IsSquare_def Rows_def Cols_def)
  obtain a2 u0 r c where s: "operator_mult a a = Inr a2" "shaped ?n ?n a2"
    "\<forall>i j. 0 \<le> i \<and> i < ?n \<and> 0 \<le> j \<and> j < ?n \<longrightarrow> elem a2 i j = psum a a i j ?n"
    "operator_div_scalar y (EuclideanNorm E y) = Inr u0" "shaped ?n 1 u0"
    "bind (operator_mult a2 u0) (ScalarProduct u0) = Inr r" "Matrix_copy u0 = Inr c"
    using PowerMethodEigenvalues2_start[OF ad a(3) y, of E] by blast
  have a2d: "wf a2" "rows a2 = ?n" "cols a2 = ?n" using shaped_wf_dims[OF s(2)] by auto
  obtain lambda u y' iter where l:
    "PowerMethodEigenvalues2_loop E a a2 max_iters eps (sqrt \<bar>r\<bar>) (10 ^ 18) u0 y 0 = Inr (lambda, u, y', iter)"
    "shaped ?n 1 u" "shaped ?n 1 y'" "0 \<le> iter"
    using PowerMethodEigenvalues2_loop_ok[OF a2d a(3) s(5) y, of 0 E a max_iters eps "sqrt \<bar>r\<bar>" "10 ^ 18"]
    by auto
  obtain v1 v2 c1 c2 where f:
    "candidate lambda lambda a a2 u = Inr v1" "candidate (- lambda) lambda a a2 u = Inr v2"
    "ToComplex v1 = Inr c1" "ToComplex v2 = Inr c2"
    "PowerMethodEigenvalues2_results E a a2 iters max_iters eps lambda u iter
             = Inr ((if EuclideanNorm E v1 > eps then [(complex_of_real lambda, c1)] else [])
                    @ (if EuclideanNorm E v2 > eps then [(complex_of_real (- lambda), c2)] else []),
                    set_iters iters
                      (if iter \<ge> max_iters \<or> \<not> EuclideanNorm E v1 > eps \<and> \<not> EuclideanNorm E v2 > eps
                       then - 1 else iter + 1))"
    using PowerMethodEigenvalues2_results_ok[OF ad a2d l(2), of lambda E iters max_iters eps iter] by blast
  have "PowerMethodEigenvalues2 E a y iters max_iters eps
             = Inr ((if EuclideanNorm E v1 > eps then [(complex_of_real lambda, c1)] else [])
                    @ (if EuclideanNorm E v2 > eps then [(complex_of_real (- lambda), c2)] else []),
                    set_iters iters
                      (if iter \<ge> max_iters \<or> \<not> EuclideanNorm E v1 > eps \<and> \<not> EuclideanNorm E v2 > eps
                       then - 1 else iter + 1),
                    y')"
    using PowerMethodEigenvalues2_unfold[OF a(2) s(1,4,6,7) l(1) f(5)] .
  then show ?thesis using s(1,2,3,4,6) l f(1-4) by blast
qed

lemma ComplexIteration_system_ok:
  assumes a: "wf a" "rows a = n" "cols a = n" and sa: "wf squared_a" "rows squared_a = n" "cols squared_a = n"
    and u: "shaped n 1 u" and n: "0 < n"
  shows "\<exists>l r. ComplexIteration_system a squared_a u = Inr (l, r) \<and> shaped n 2 l \<and> shaped n 1 r
           \<and> (\<forall>i. 0 \<le> i \<and> i < n \<longrightarrow>
                 elem l i 0 = Re (elem u i 0) \<and> elem l i 1 = Re (psum a u i 0 n)
               \<and> elem r i 0 = - Re (psum squared_a u i 0 n))"
proof -
  have ud: "wf u" "rows u = n" "cols u = 1" using shaped_wf_dims[OF u] by auto
  have n0: "0 \<le> n" using n by simp
  obtain l0 where l0: "Matrix_dims n 2 = Inr l0" "shaped n 2 (l0::real list Matrix)"
    using Matrix_dims_ok[OF n0, of 2] by auto
  obtain au where au: "operator_mult a u = Inr au" "shaped n 1 au"
    "\<forall>i. 0 \<le> i \<and> i < n \<longrightarrow> elem au i 0 = psum a u i 0 n"
    using mult_vec[OF a u] by blast
  let ?lb = "\<lambda>i l. bind (get1 u i) (\<lambda>x. bind (put l i 0 (Re x)) (\<lambda>l.
             bind (get1 au i) (\<lambda>z. put l i 1 (Re z))))"
  let ?L = "\<lambda>i l. shaped n 2 l \<and> (\<forall>i'. 0 \<le> i' \<and> i' < i \<longrightarrow>
              elem l i' 0 = Re (elem u i' 0) \<and> elem l i' 1 = Re (elem au i' 0))"
  have "\<exists>l. for_upto n ?lb l0 = Inr l \<and> ?L n l"
  proof (rule for_upto_rule[OF n0, where I = ?L])
    show "?L 0 l0" using l0(2) by simp
  next
    fix i s assume i: "0 \<le> i" "i < n" and L: "?L i s"
    have s: "shaped n 2 s" using L by simp
    obtain s1 where s1: "put s i 0 (Re (elem u i 0)) = Inr s1" "shaped n 2 s1"
      "elem s1 i 0 = Re (elem u i 0)"
      "\<forall>i' j'. 0 \<le> i' \<and> i' < n \<and> 0 \<le> j' \<and> j' < 2 \<and> (i' \<noteq> i \<or> j' \<noteq> 0) \<longrightarrow> elem s1 i' j' = elem s i' j'"
      using put_shaped[OF s i, of 0 "Re (elem u i 0)"] by auto
    obtain s2 where s2: "put s1 i 1 (Re (elem au i 0)) = Inr s2" "shaped n 2 s2"
      "elem s2 i 1 = Re (elem au i 0)"
      "\<forall>i' j'. 0 \<le> i' \<and> i' < n \<and> 0 \<le> j' \<and> j' < 2 \<and> (i' \<noteq> i \<or> j' \<noteq> 1) \<longrightarrow> elem s2 i' j' = elem s1 i' j'"
      using put_shaped[OF s1(2) i, of 1 "Re (elem au i 0)"] by auto
    have b: "?lb i s = Inr s2"
      using get1_vec[OF u i] get1_vec[OF au(2) i] s1(1) s2(1) by simp
    have "\<forall>i'. 0 \<le> i' \<and> i' < i + 1 \<longrightarrow>
              elem s2 i' 0 = Re (elem u i' 0) \<and> elem s2 i' 1 = Re (elem au i' 0)"
    proof (intro allI impI)
      fix i' assume i': "0 \<le> i' \<and> i' < i + 1"
      show "elem s2 i' 0 = Re (elem u i' 0) \<and> elem s2 i' 1 = Re (elem au i' 0)"
      proof (cases "i' = i")
        case True
        have "elem s2 i 0 = elem s1 i 0" using s2(4) i by simp
        then show ?thesis using True s1(3) s2(3) by simp
      next
        case False
        then have lt: "i' < i" "i' < n" using i' i by auto
        have "elem s2 i' 0 = elem s1 i' 0" "elem s2 i' 1 = elem s1 i' 1"
          using s2(4) i' lt False by auto
        moreover have "elem s1 i' 0 = elem s i' 0" "elem s1 i' 1 = elem s i' 1"
          using s1(4) i' lt False by auto
        ultimately show ?thesis using L i' lt by simp
      qed
    qed
    then show "\<exists>s'. ?lb i s = Inr s' \<and> ?L (i + 1) s'" using b s2(2) by blast
  qed
  then obtain l where l: "for_upto n ?lb l0 = Inr l" "?L n l" by blast
  obtain m where m: "operator_scalar_mult (- 1) squared_a = Inr m" "shaped (rows squared_a) (cols squared_a) m"
    "\<forall>i j. inrange squared_a i j \<longrightarrow> elem m i j = elem squared_a i j * (- 1)"
    using operator_scalar_mult_ok[OF sa(1)] by blast
  have md: "wf m" "rows m = n" "cols m = n" using shaped_wf_dims[OF m(2)] sa by auto
  obtain rc where rc: "operator_mult m u = Inr rc" "shaped n 1 rc"
    "\<forall>i. 0 \<le> i \<and> i < n \<longrightarrow> elem rc i 0 = psum m u i 0 n"
    using mult_vec[OF md u] by blast
  obtain r0 where r0: "Matrix_dims n 1 = Inr r0" "shaped n 1 (r0::real list Matrix)"
    using Matrix_dims_ok[OF n0, of 1] by auto
  let ?rb = "\<lambda>i r. bind (get1 rc i) (\<lambda>x. put1 r i (Re x))"
  let ?R = "\<lambda>i r. shaped n 1 r \<and> (\<forall>i'. 0 \<le> i' \<and> i' < i \<longrightarrow> elem r i' 0 = Re (elem rc i' 0))"
  have "\<exists>r. for_upto n ?rb r0 = Inr r \<and> ?R n r"
  proof (rule for_upto_rule[OF n0, where I = ?R])
    show "?R 0 r0" using r0(2) by simp
  next
    fix i s assume i: "0 \<le> i" "i < n" and R: "?R i s"
    have s: "shaped n 1 s" using R by simp
    obtain s1 where s1: "put1 s i (Re (elem rc i 0)) = Inr s1" "shaped n 1 s1"
      "elem s1 i 0 = Re (elem rc i 0)"
      "\<forall>i'. 0 \<le> i' \<and> i' < n \<and> i' \<noteq> i \<longrightarrow> elem s1 i' 0 = elem s i' 0"
      using put1_vec[OF s i, of "Re (elem rc i 0)"] by auto
    have b: "?rb i s = Inr s1" using get1_vec[OF rc(2) i] s1(1) by simp
    have "\<forall>i'. 0 \<le> i' \<and> i' < i + 1 \<longrightarrow> elem s1 i' 0 = Re (elem rc i' 0)"
    proof (intro allI impI)
      fix i' assume i': "0 \<le> i' \<and> i' < i + 1"
      show "elem s1 i' 0 = Re (elem rc i' 0)"
      proof (cases "i' = i")
        case True then show ?thesis using s1(3) by simp
      next
        case False
        then have "i' < i" "i' < n" using i' i by auto
        then show ?thesis using s1(4) R i' False by simp
      qed
    qed
    then show "\<exists>s'. ?rb i s = Inr s' \<and> ?R (i + 1) s'" using b s1(2) by blast
  qed
  then obtain r where r: "for_upto n ?rb r0 = Inr r" "?R n r" by blast
  have "ComplexIteration_system a squared_a u = Inr (l, r)"
    using l0(1) au(1) l(1) m(1) rc(1) r0(1) r(1) ud
    by (simp add: ComplexIteration_system_def Rows_def)
  moreover have "\<forall>i. 0 \<le> i \<and> i < n \<longrightarrow>
                 elem l i 0 = Re (elem u i 0) \<and> elem l i 1 = Re (psum a u i 0 n)
               \<and> elem r i 0 = - Re (psum squared_a u i 0 n)"
  proof (intro allI impI)
    fix i assume i: "0 \<le> i \<and> i < n"
    have "psum m u i 0 n = (- 1) * psum squared_a u i 0 n"
      using m(3) sa i by (intro psum_scale) (simp add: inrange_def)
    then show "elem l i 0 = Re (elem u i 0) \<and> elem l i 1 = Re (psum a u i 0 n)
               \<and> elem r i 0 = - Re (psum squared_a u i 0 n)"
      using l(2) r(2) au(3) rc(3) i by simp
  qed
  ultimately show ?thesis using l(2) r(2) by blast
qed

text \<open>One step of Method 3.\<close>

lemma PowerMethodEigenvaluesComplexIteration_ok:
  assumes a: "wf a" "rows a = n" "cols a = n" and sa: "wf squared_a" "rows squared_a = n" "cols squared_a = n"
    and u: "shaped n 1 u" and y: "shaped n 1 y" and n: "0 < n" and E: "solves_two_unknowns E n"
  shows "\<exists>y' u' l r. PowerMethodEigenvaluesComplexIteration E a squared_a y u
             = Inr (SolveQuadraticEquation E 1 (elem (MinimalSquareProblem E l r) 1 0)
                      (elem (MinimalSquareProblem E l r) 0 0), y', u')
           \<and> shaped n 1 y' \<and> shaped n 1 u'
           \<and> ComplexIteration_system a squared_a u' = Inr (l, r)"
proof -
  obtain p where p: "operator_mult a u = Inr p" "shaped n 1 p"
    using mult_vec[OF a u] by blast
  obtain y' where y': "Assign y p = Inr y'" "shaped n 1 y'"
    using Assign_shaped[OF y shaped_wf[OF p(2)]] p(2) by (auto simp: shaped_def)
  obtain q where q: "operator_div_scalar y' (EuclideanNormC E y') = Inr q" "shaped n 1 q"
    using div_vec[OF y'(2)] by blast
  obtain u' where u': "Assign u q = Inr u'" "shaped n 1 u'"
    using Assign_shaped[OF u shaped_wf[OF q(2)]] q(2) by (auto simp: shaped_def)
  obtain l r where s: "ComplexIteration_system a squared_a u' = Inr (l, r)" "shaped n 2 l" "shaped n 1 r"
    using ComplexIteration_system_ok[OF a sa u'(2) n] by blast
  let ?c = "MinimalSquareProblem E l r"
  have c: "shaped 2 1 ?c" using E s(2,3) by (simp add: solves_two_unknowns_def)
  have g: "get1 ?c 1 = Inr (elem ?c 1 0)" "get1 ?c 0 = Inr (elem ?c 0 0)"
    using get1_vec[OF c, of 1] get1_vec[OF c, of 0] by auto
  have "PowerMethodEigenvaluesComplexIteration E a squared_a y u
             = Inr (SolveQuadraticEquation E 1 (elem ?c 1 0) (elem ?c 0 0), y', u')"
    using p(1) y'(1) q(1) u'(1) s(1) g by (simp add: PowerMethodEigenvaluesComplexIteration_def Let_def)
  then show ?thesis using y'(2) u'(2) s(1) by blast
qed

lemma PowerMethodEigenvalues3_loop_ok:
  assumes a: "wf a" "rows a = n" "cols a = n" and sa: "wf squared_a" "rows squared_a = n" "cols squared_a = n"
    and n: "0 < n" and E: "solves_two_unknowns E n"
    and u: "shaped n 1 u" and y: "shaped n 1 y" and it: "0 \<le> iter"
  shows "\<exists>r1' r2' y' u' it. PowerMethodEigenvalues3_loop E a squared_a max_iters prev_r1 r1 prev_r2 r2 y u iter
                        = Inr (r1', r2', y', u', it)
           \<and> shaped n 1 u' \<and> shaped n 1 y' \<and> iter \<le> it"
  using u y it
proof (induction "nat (max_iters - iter)" arbitrary: prev_r1 r1 prev_r2 r2 u y iter rule: less_induct)
  case less
  let ?c = "cmod (prev_r1 - r1) > \<bar>GetEps E\<bar> \<or> cmod (prev_r2 - r2) > \<bar>GetEps E\<bar>"
  show ?case
  proof (cases ?c)
    case False
    then show ?thesis
      using less.prems
      by (simp add: PowerMethodEigenvalues3_loop.simps[of E a squared_a max_iters prev_r1 r1 prev_r2 r2])
  next
    case True
    obtain p y' u' where s: "PowerMethodEigenvaluesComplexIteration E a squared_a y u = Inr (p, y', u')"
      "shaped n 1 y'" "shaped n 1 u'"
      using PowerMethodEigenvaluesComplexIteration_ok[OF a sa less.prems(1,2) n E] by blast
    obtain p1 p2 where pp: "p = (p1, p2)" by (cases p)
    show ?thesis
    proof (cases "iter + 1 > max_iters")
      case True
      then show ?thesis
        using \<open>?c\<close> s pp
        by (simp add: PowerMethodEigenvalues3_loop.simps[of E a squared_a max_iters prev_r1 r1 prev_r2 r2])
    next
      case False
      then have "nat (max_iters - (iter + 1)) < nat (max_iters - iter)" by simp
      then have "\<exists>r1' r2' y'' u'' it. PowerMethodEigenvalues3_loop E a squared_a max_iters r1 p1 r2 p2 y' u' (iter + 1)
                        = Inr (r1', r2', y'', u'', it)
           \<and> shaped n 1 u'' \<and> shaped n 1 y'' \<and> iter + 1 \<le> it"
        using less.hyps[of "iter + 1" u' y'] s(2,3) less.prems(3) by simp
      then show ?thesis
        using True False s(1) pp
        by (auto simp: PowerMethodEigenvalues3_loop.simps[of E a squared_a max_iters prev_r1 r1 prev_r2 r2 y u iter])
    qed
  qed
qed

text \<open>Method 3 on a square matrix with at least one row.\<close>

lemma PowerMethodEigenvalues3_run:
  assumes a: "wf a" "IsSquare a" "0 < rows a" and E: "solves_two_unknowns E (rows a)"
  shows "\<exists>sq ca cs y0 y1 u0 r1 r2 y' u iter ans.
             operator_mult a a = Inr sq \<and> ToComplex a = Inr ca \<and> ToComplex sq = Inr cs
           \<and> Matrix_dims (Rows a) 1 = Inr y0 \<and> put1 y0 0 1 = Inr y1
           \<and> operator_div_scalar y1 (EuclideanNormC E y1) = Inr u0
           \<and> PowerMethodEigenvalues3_loop E ca cs max_iters (10 ^ 18) 0 (10 ^ 18) 0 y1 u0 0
               = Inr (r1, r2, y', u, iter)
           \<and> PowerMethodEigenvalues3 E a iters max_iters
               = Inr (ans, set_iters iters (if iter \<ge> max_iters then - 1 else iter + 1))
           \<and> 0 \<le> iter \<and> length ans \<le> 2"
proof -
  let ?n = "rows a"
  have n0: "0 \<le> ?n" using a(3) by simp
  have ad: "wf a" "rows a = ?n" "cols a = ?n" using a by (auto simp: IsSquare_def Rows_def Cols_def)
  obtain sq where sq: "operator_mult a a = Inr sq" "shaped ?n ?n sq"
    using operator_mult_ok[OF a(1) a(1)] ad by auto
  have sqd: "wf sq" "rows sq = ?n" "cols sq = ?n" using shaped_wf_dims[OF sq(2)] by auto
  obtain ca where ca: "ToComplex a = Inr ca" "shaped ?n ?n ca"
    using ToComplex_ok[OF a(1)] ad by auto
  obtain cs where cs: "ToComplex sq = Inr cs" "shaped ?n ?n cs"
    using ToComplex_shaped[OF sq(2)] by blast
  have cad: "wf ca" "rows ca = ?n" "cols ca = ?n" using shaped_wf_dims[OF ca(2)] by auto
  have csd: "wf cs" "rows cs = ?n" "cols cs = ?n" using shaped_wf_dims[OF cs(2)] by auto
  obtain y0 where y0: "Matrix_dims ?n 1 = Inr y0" "shaped ?n 1 (y0::complex list Matrix)"
    using Matrix_dims_ok[OF n0, of 1] by auto
  obtain y1 where y1: "put1 y0 0 1 = Inr y1" "shaped ?n 1 y1"
    using put1_vec[OF y0(2), of 0 1] a(3) by auto
  obtain u0 where u0: "operator_div_scalar y1 (EuclideanNormC E y1) = Inr u0" "shaped ?n 1 u0"
    using div_vec[OF y1(2)] by blast
  obtain r1 r2 y' u iter where l:
    "PowerMethodEigenvalues3_loop E ca cs max_iters (10 ^ 18) 0 (10 ^ 18) 0 y1 u0 0 = Inr (r1, r2, y', u, iter)"
    "shaped ?n 1 u" "0 \<le> iter"
    using PowerMethodEigenvalues3_loop_ok[OF cad csd a(3) E u0(2) y1(2), of 0 max_iters "10 ^ 18" 0 "10 ^ 18" 0]
    by auto
  have ur: "rows u = ?n" using shaped_wf_dims[OF l(2)] by simp
  obtain u1 where u1: "operator_mult ca u = Inr u1" "shaped ?n 1 u1"
    using mult_vec[OF cad l(2)] by blast
  obtain u2 where u2: "operator_mult cs u = Inr u2" "shaped ?n 1 u2"
    using mult_vec[OF csd l(2)] by blast
  obtain z1 where z1: "Matrix_dims ?n 1 = Inr z1" "shaped ?n 1 (z1::complex list Matrix)"
    using Matrix_dims_ok[OF n0, of 1] by auto
  let ?vb = "\<lambda>i (v1, v2).
                bind (get1 u2 i) (\<lambda>x2. bind (get1 u1 i) (\<lambda>x1.
                bind (put1 v1 i (x2 - r2 * x1)) (\<lambda>v1.
                bind (put1 v2 i (x1 - x2 / r1)) (\<lambda>v2. Inr (v1, v2)))))"
  let ?V = "\<lambda>(i::int) (v::complex list Matrix \<times> complex list Matrix). shaped ?n 1 (fst v) \<and> shaped ?n 1 (snd v)"
  have "\<exists>v. for_upto ?n ?vb (z1, z1) = Inr v \<and> ?V ?n v"
  proof (rule for_upto_rule[OF n0, where I = ?V])
    show "?V 0 (z1, z1)" using z1(2) by simp
  next
    fix i s assume i: "0 \<le> i" "i < ?n" and V: "?V i s"
    obtain v1 v2 where s: "s = (v1, v2)" by (cases s)
    have sh: "shaped ?n 1 v1" "shaped ?n 1 v2" using V s by auto
    obtain w1 where w1: "put1 v1 i (elem u2 i 0 - r2 * elem u1 i 0) = Inr w1" "shaped ?n 1 w1"
      using put1_vec[OF sh(1) i] by blast
    obtain w2 where w2: "put1 v2 i (elem u1 i 0 - elem u2 i 0 / r1) = Inr w2" "shaped ?n 1 w2"
      using put1_vec[OF sh(2) i] by blast
    have "?vb i s = Inr (w1, w2)"
      using s get1_vec[OF u2(2) i] get1_vec[OF u1(2) i] w1(1) w2(1) by simp
    then show "\<exists>s'. ?vb i s = Inr s' \<and> ?V (i + 1) s'" using w1(2) w2(2) by simp
  qed
  then obtain v1 v2 where v: "for_upto ?n ?vb (z1, z1) = Inr (v1, v2)" by auto
  let ?ans = "(if (cmod (EuclideanNormC E v1))\<^sup>2 > (cmod (GetEpsC E))\<^sup>2 then [(r1, v1)] else [])
                  @ (if (cmod (EuclideanNormC E v2))\<^sup>2 > (cmod (GetEpsC E))\<^sup>2 then [(r2, v2)]
                     else [])"
  have "PowerMethodEigenvalues3 E a iters max_iters
          = Inr (?ans, set_iters iters (if iter \<ge> max_iters then - 1 else iter + 1))"
    using a(2) sq(1) ca(1) cs(1) y0(1) y1(1) u0(1) l(1) u1(1) u2(1) z1(1) v ur
    by (simp add: PowerMethodEigenvalues3_def Rows_def)
  moreover have "length ?ans \<le> 2" by simp
  moreover have "Matrix_dims (Rows a) 1 = Inr y0" using y0(1) by (simp add: Rows_def)
  ultimately show ?thesis using sq(1) ca(1) cs(1) y1(1) u0(1) l(1,3) by blast
qed

lemma PowerMethodEigenvalues3_ok:
  assumes a: "wf a" "IsSquare a" "0 < rows a" and E: "solves_two_unknowns E (rows a)"
  shows "\<exists>ans iter. PowerMethodEigenvalues3 E a iters max_iters
             = Inr (ans, set_iters iters (if iter \<ge> max_iters then - 1 else iter + 1))
           \<and> 0 \<le> iter \<and> length ans \<le> 2"
  using PowerMethodEigenvalues3_run[OF assms, of max_iters iters] by blast

text \<open>The seed vector the dispatcher builds: \<^verbatim>\<open>Matrix<T> y(a.Rows(), 1); y(0) = 1;\<close>.\<close>

lemma seed_ok:
  assumes "0 < n"
  shows "\<exists>y0 y. Matrix_dims n 1 = Inr y0 \<and> put1 y0 0 (1::'a::zero_neq_one) = Inr y \<and> shaped n 1 y
           \<and> elem y 0 0 = 1 \<and> (\<forall>i. 0 < i \<and> i < n \<longrightarrow> elem y i 0 = 0)"
proof -
  have n0: "0 \<le> n" using assms by simp
  obtain y0 where y0: "Matrix_dims n 1 = Inr y0" "shaped n 1 (y0::'a list Matrix)"
    "\<forall>i j. inrange y0 i j \<longrightarrow> elem y0 i j = 0"
    using Matrix_dims_ok[OF n0, of 1] by auto
  obtain y where y: "put1 y0 0 1 = Inr y" "shaped n 1 y" "elem y 0 0 = 1"
    "\<forall>i'. 0 \<le> i' \<and> i' < n \<and> i' \<noteq> 0 \<longrightarrow> elem y i' 0 = elem y0 i' 0"
    using put1_vec[OF y0(2), of 0 1] assms by auto
  have "\<forall>i. 0 < i \<and> i < n \<longrightarrow> elem y i 0 = 0"
    using y(4) y0(3) shaped_inrange[OF y0(2)] by simp
  then show ?thesis using y0(1) y(1,2,3) by blast
qed

section \<open>Non-square input\<close>

lemma shaped_mk: "0 \<le> n \<Longrightarrow> 0 \<le> m \<Longrightarrow> int (length xs) = n * m \<Longrightarrow> shaped n m (mk n m xs)"
  by (simp add: shaped_def owning_def wf_def IsSubMatrix_def mk_def)

lemma spec_env_solves [simp]: "solves_two_unknowns (spec_env eps) n"
  by (simp add: solves_two_unknowns_def spec_env_def MinimalSquareProblem_spec_def Let_def shaped_mk)

text \<open>
  Claim C5, as amended. On a matrix that is not square each of the three methods throws
  \<^verbatim>\<open>std::invalid_argument\<close> as its first statement, before any iteration and whatever
  its other arguments are; the message holds the rows and columns of the matrix as
  \<^verbatim>\<open>PairToString\<close> prints them. The dispatcher does the same, on every path, when the
  matrix has at least one row. The matrix is a \<^verbatim>\<open>const\<close> reference that the routines
  only read: it is no part of what they change.
\<close>

theorem non_square_is_rejected:
  assumes "\<not> IsSquare a"
  shows "PowerMethodEigenvalues1 E a y iters max_iters = Inl (not_square a)
       \<and> PowerMethodEigenvalues2 E a y iters max_iters eps = Inl (not_square a)
       \<and> PowerMethodEigenvalues3 E a iters max_iters = Inl (not_square a)
       \<and> not_square a = InvalidArgument (''Matrix of size ('' @ to_string (rows a) @ ''; ''
                                          @ to_string (cols a) @ '') is not square.'')
       \<and> (0 < rows a \<longrightarrow>
            PowerMethodEigenvalues E a iters max_iters check_iters check_step force_method
              = Inl (not_square a))"
proof -
  have m: "PowerMethodEigenvalues1 E a y iters max_iters = Inl (not_square a)"
    "PowerMethodEigenvalues2 E a y iters max_iters eps = Inl (not_square a)"
    "PowerMethodEigenvalues3 E a iters max_iters = Inl (not_square a)" for y iters eps
    using assms
    by (simp_all add: PowerMethodEigenvalues1_def PowerMethodEigenvalues2_def PowerMethodEigenvalues3_def)
  have msg: "not_square a = InvalidArgument (''Matrix of size ('' @ to_string (rows a) @ ''; ''
                                          @ to_string (cols a) @ '') is not square.'')"
    by (simp add: not_square_def PairToString_def Size_def)
  have d: "PowerMethodEigenvalues E a iters max_iters check_iters check_step force_method
              = Inl (not_square a)" if n: "0 < rows a"
  proof -
    obtain y0 y where y: "Matrix_dims (rows a) 1 = Inr y0" "put1 y0 0 (1::real) = Inr y" "shaped (rows a) 1 y"
      using seed_ok[OF n] by blast
    obtain c where c: "Matrix_copy y = Inr c" using Matrix_copy_shaped[OF y(3)] by blast
    have "PowerMethodEigenvalues_forced E a (set_iters iters 0) max_iters force_method
            = (if force_method \<in> {0, 1, 2} then Inl (not_square a) else Inr None)"
      using y(1,2) c m by (simp add: PowerMethodEigenvalues_forced_def Rows_def)
    then show ?thesis
      using y(1,2) m by (simp add: PowerMethodEigenvalues_def Rows_def)
  qed
  show ?thesis using m msg d by blast
qed

theorem non_square_is_rejected_witness:
  "PowerMethodEigenvalues1 (spec_env (1 / 2 ^ 52)) (mk 2 3 [1, 2, 3, 4, 5, 6]) (mk 2 1 [1, 0]) (Some 0) 100
     = Inl (InvalidArgument ''Matrix of size (2; 3) is not square.'')
   \<and> PowerMethodEigenvalues2 (spec_env (1 / 2 ^ 52)) (mk 2 3 [1, 2, 3, 4, 5, 6]) (mk 2 1 [1, 0]) (Some 0) 100 (1 / 10)
     = Inl (InvalidArgument ''Matrix of size (2; 3) is not square.'')
   \<and> PowerMethodEigenvalues3 (spec_env (1 / 2 ^ 52)) (mk 2 3 [1, 2, 3, 4, 5, 6]) (Some 0) 100
     = Inl (InvalidArgument ''Matrix of size (2; 3) is not square.'')
   \<and> PowerMethodEigenvalues (spec_env (1 / 2 ^ 52)) (mk 2 3 [1, 2, 3, 4, 5, 6]) (Some 0) 100 10 5 (- 1)
     = Inl (InvalidArgument ''Matrix of size (2; 3) is not square.'')"
proof -
  let ?a = "mk 2 3 [1, 2, 3, 4, 5, 6::real]"
  have 1: "\<not> IsSquare ?a" by (simp add: IsSquare_def Rows_def Cols_def mk_def)
  have 2: "0 < rows ?a" by (simp add: mk_def)
  have 3: "to_string 2 = ''2''" "to_string 3 = ''3''" by code_simp+
  have 4: "rows ?a = 2" "cols ?a = 3" by (simp_all add: mk_def)
  show ?thesis
    using non_square_is_rejected[OF 1, of "spec_env (1 / 2 ^ 52)" "mk 2 1 [1, 0]" "Some 0" 100 "1 / 10" 10 5 "- 1"] 2
    by (simp add: 3 4)
qed

lemma seed_zero_rows:
  "Matrix_dims 0 1 = Inr (mk 0 1 ([]::real list))"
  "put1 (mk 0 1 ([]::real list)) 0 1 = Inl (OutOfRange ''Indexes (0; 0) out of matrix size (0; 1)'')"
  by code_simp+

text \<open>
  The dispatcher builds its seed vector before it calls a method:
  \<^verbatim>\<open>Matrix<T> y(a.Rows(), 1); y(0) = 1;\<close>. For a matrix of no rows and one column \<open>y\<close>
  has no element, and the bounds check of \<^verbatim>\<open>At\<close> throws \<^verbatim>\<open>std::out_of_range\<close> before
  any method has seen the matrix: on the path without an override and on the forced ones.
\<close>

theorem dispatcher_zero_rows_counterexample:
  "\<not> IsSquare (mk 0 1 ([]::real list))
   \<and> PowerMethodEigenvalues (spec_env (1 / 2 ^ 52)) (mk 0 1 []) (Some 0) 100 10 5 (- 1)
     = Inl (OutOfRange ''Indexes (0; 0) out of matrix size (0; 1)'')
   \<and> PowerMethodEigenvalues (spec_env (1 / 2 ^ 52)) (mk 0 1 []) (Some 0) 100 10 5 2
     = Inl (OutOfRange ''Indexes (0; 0) out of matrix size (0; 1)'')"
proof -
  have r: "Rows (mk 0 1 ([]::real list)) = 0" by (simp add: Rows_def mk_def)
  have "\<not> IsSquare (mk 0 1 ([]::real list))"
    by (simp add: IsSquare_def Rows_def Cols_def mk_def)
  then show ?thesis
    by (simp add: PowerMethodEigenvalues_def PowerMethodEigenvalues_forced_def r seed_zero_rows)
qed

section \<open>Method 2 after its loop\<close>

text \<open>
  Claim C3. For a well-formed square matrix \<open>a\<close> with at least one row and an owning
  seed \<open>y\<close> of its height, Method 2 reaches the end of its loop with an estimate
  \<open>lambda\<close>, an iterate \<open>u\<close> and a count \<open>iter\<close>. It then computes \<open>v1\<close> and
  \<open>v2\<close>, whose \<open>i\<close>-th elements are \<open>(lambda (A u)\<^sub>i + (A\<^sup>2 u)\<^sub>i) / (2 lambda\<^sup>2)\<close> and
  \<open>(- lambda (A u)\<^sub>i + (A\<^sup>2 u)\<^sub>i) / (2 lambda\<^sup>2)\<close>; the result holds the pair for
  \<open>lambda\<close> when the norm of \<open>v1\<close> exceeds \<open>eps\<close>, followed by the pair for
  \<open>- lambda\<close> when the norm of \<open>v2\<close> does: at most two pairs, and when there is none
  the out-parameter is set to -1.
\<close>

theorem PowerMethodEigenvalues2_after_loop:
  assumes "wf a" "IsSquare a" "0 < rows a" "shaped (rows a) 1 y"
  shows "\<exists>a2 u0 r lambda u y' iter v1 v2 c1 c2 ans.
           operator_mult a a = Inr a2
         \<and> operator_div_scalar y (EuclideanNorm E y) = Inr u0
         \<and> bind (operator_mult a2 u0) (ScalarProduct u0) = Inr r
         \<and> PowerMethodEigenvalues2_loop E a a2 max_iters eps (sqrt \<bar>r\<bar>) (10 ^ 18) u0 y 0
             = Inr (lambda, u, y', iter)
         \<and> candidate lambda lambda a a2 u = Inr v1 \<and> candidate (- lambda) lambda a a2 u = Inr v2
         \<and> (\<forall>i. 0 \<le> i \<and> i < rows a \<longrightarrow>
               elem v1 i 0 = (lambda * psum a u i 0 (rows a) + psum a2 u i 0 (rows a))
                             / (2 * lambda * lambda)
             \<and> elem v2 i 0 = (- lambda * psum a u i 0 (rows a) + psum a2 u i 0 (rows a))
                             / (2 * lambda * lambda))
         \<and> ToComplex v1 = Inr c1 \<and> ToComplex v2 = Inr c2
         \<and> ans = (if EuclideanNorm E v1 > eps then [(complex_of_real lambda, c1)] else [])
                 @ (if EuclideanNorm E v2 > eps then [(complex_of_real (- lambda), c2)] else [])
         \<and> length ans \<le> 2
         \<and> PowerMethodEigenvalues2 E a y iters max_iters eps
             = Inr (ans, set_iters iters (if iter \<ge> max_iters \<or> ans = [] then - 1 else iter + 1), y')
         \<and> (ans = [] \<longrightarrow> PowerMethodEigenvalues2 E a y iters max_iters eps
                             = Inr ([], set_iters iters (- 1), y'))"
proof -
  let ?n = "rows a"
  have ad: "wf a" "rows a = ?n" "cols a = ?n"
    using assms by (auto simp: IsSquare_def Rows_def Cols_def)
  obtain a2 u0 r lambda u y' iter v1 v2 c1 c2 where s:
    "operator_mult a a = Inr a2" "shaped ?n ?n a2"
    "operator_div_scalar y (EuclideanNorm E y) = Inr u0"
    "bind (operator_mult a2 u0) (ScalarProduct u0) = Inr r"
    "PowerMethodEigenvalues2_loop E a a2 max_iters eps (sqrt \<bar>r\<bar>) (10 ^ 18) u0 y 0
             = Inr (lambda, u, y', iter)"
    "shaped ?n 1 u"
    "candidate lambda lambda a a2 u = Inr v1" "candidate (- lambda) lambda a a2 u = Inr v2"
    "ToComplex v1 = Inr c1" "ToComplex v2 = Inr c2"
    "PowerMethodEigenvalues2 E a y iters max_iters eps
             = Inr ((if EuclideanNorm E v1 > eps then [(complex_of_real lambda, c1)] else [])
                    @ (if EuclideanNorm E v2 > eps then [(complex_of_real (- lambda), c2)] else []),
                    set_iters iters
                      (if iter \<ge> max_iters \<or> \<not> EuclideanNorm E v1 > eps \<and> \<not> EuclideanNorm E v2 > eps
                       then - 1 else iter + 1),
                    y')"
    using PowerMethodEigenvalues2_ok[OF assms, of E max_iters eps iters] by blast
  have a2d: "wf a2" "rows a2 = ?n" "cols a2 = ?n" using shaped_wf_dims[OF s(2)] by auto
  have e1: "\<forall>i. 0 \<le> i \<and> i < ?n \<longrightarrow>
      elem v1 i 0 = (lambda * psum a u i 0 ?n + psum a2 u i 0 ?n) / (2 * lambda * lambda)"
    using candidate_ok[OF ad a2d s(6), of lambda lambda] s(7) by auto
  have e2: "\<forall>i. 0 \<le> i \<and> i < ?n \<longrightarrow>
      elem v2 i 0 = (- lambda * psum a u i 0 ?n + psum a2 u i 0 ?n) / (2 * lambda * lambda)"
    using candidate_ok[OF ad a2d s(6), of "- lambda" lambda] s(8) by auto
  let ?ans = "(if EuclideanNorm E v1 > eps then [(complex_of_real lambda, c1)] else [])
                 @ (if EuclideanNorm E v2 > eps then [(complex_of_real (- lambda), c2)] else [])"
  have emp: "(?ans = []) = (\<not> EuclideanNorm E v1 > eps \<and> \<not> EuclideanNorm E v2 > eps)" by simp
  have m: "PowerMethodEigenvalues2 E a y iters max_iters eps
             = Inr (?ans, set_iters iters (if iter \<ge> max_iters \<or> ?ans = [] then - 1 else iter + 1), y')"
    using s(11) unfolding emp .
  have "?ans = [] \<longrightarrow> PowerMethodEigenvalues2 E a y iters max_iters eps
                             = Inr ([], set_iters iters (- 1), y')"
    using m by auto
  moreover have "length ?ans \<le> 2" by simp
  ultimately show ?thesis using s(1,3,4,5,7,8,9,10) e1 e2 m by blast
qed

lemma spec_env_fields [simp]:
  "GetEps (spec_env eps) = eps" "GetEpsC (spec_env eps) = 0"
  "EuclideanNorm (spec_env eps) = EuclideanNorm_spec"
  "EuclideanNormC (spec_env eps) = EuclideanNormC_spec"
  "MinimalSquareProblem (spec_env eps) = MinimalSquareProblem_spec"
  "SolveQuadraticEquation (spec_env eps) = SolveQuadraticEquation_spec"
  by (simp_all add: spec_env_def)

lemma square_mk: "IsSquare (mk n n xs)"
  by (simp add: IsSquare_def Rows_def Cols_def mk_def)

lemma mk_fields [simp]: "rows (mk n m xs) = n" "cols (mk n m xs) = m" "data (mk n m xs) = xs"
  "data_rows (mk n m xs) = n" "data_cols (mk n m xs) = m" "offset_i (mk n m xs) = 0"
  "offset_j (mk n m xs) = 0"
  by (simp_all add: mk_def)

section \<open>A run of the dispatcher\<close>

text \<open>
  The matrix \<open>diag(2, -2)\<close> of the specification's testable properties, run by hand:
  each operation of Method 2 evaluated on the vectors it meets.
\<close>

lemma sqrt_16: "sqrt 16 = 4"
  using real_sqrt_abs[of 4] by simp

lemma norm_e0: "EuclideanNorm_spec (mk 2 1 [1, 0]) = 1"
  by (simp add: EuclideanNorm_spec_def vlen_def velem_def elem_def upto.simps)

lemma norm_4e0: "EuclideanNorm_spec (mk 2 1 [4, 0]) = 4"
  by (simp add: EuclideanNorm_spec_def vlen_def velem_def elem_def upto.simps sqrt_16)

lemma norm_zero: "EuclideanNorm_spec (mk 2 1 [0, 0]) = 0"
  by (simp add: EuclideanNorm_spec_def vlen_def velem_def elem_def upto.simps)

lemma diag_ops:
  "operator_mult (mk 2 2 [2, 0, 0, - 2]) (mk 2 2 [2, 0, 0, - 2::real]) = Inr (mk 2 2 [4, 0, 0, 4])"
  "operator_div_scalar (mk 2 1 [1, 0]) (1::real) = Inr (mk 2 1 [1, 0])"
  "operator_div_scalar (mk 2 1 [4, 0]) (4::real) = Inr (mk 2 1 [1, 0])"
  "operator_mult (mk 2 2 [4, 0, 0, 4]) (mk 2 1 [1, 0::real]) = Inr (mk 2 1 [4, 0])"
  "ScalarProduct (mk 2 1 [1, 0]) (mk 2 1 [4, 0::real]) = Inr 4"
  "Matrix_copy (mk 2 1 [1, 0::real]) = Inr (mk 2 1 [1, 0])"
  "Assign (mk 2 1 [1, 0]) (mk 2 1 [4, 0::real]) = Inr (mk 2 1 [4, 0])"
  "Assign (mk 2 1 [4, 0]) (mk 2 1 [4, 0::real]) = Inr (mk 2 1 [4, 0])"
  "Assign (mk 2 1 [1, 0]) (mk 2 1 [1, 0::real]) = Inr (mk 2 1 [1, 0])"
  "candidate 2 2 (mk 2 2 [2, 0, 0, - 2]) (mk 2 2 [4, 0, 0, 4]) (mk 2 1 [1, 0]) = Inr (mk 2 1 [1, 0])"
  "candidate (- 2) 2 (mk 2 2 [2, 0, 0, - 2]) (mk 2 2 [4, 0, 0, 4]) (mk 2 1 [1, 0]) = Inr (mk 2 1 [0, 0])"
  "ToComplex (mk 2 1 [1, 0]) = Inr (mk 2 1 [1, 0])"
  "Matrix_dims 2 1 = Inr (mk 2 1 [0, 0::real])"
  "put1 (mk 2 1 [0, 0::real]) 0 1 = Inr (mk 2 1 [1, 0])"
  by code_simp+

lemma diag_step:
  "PowerIterationMethod2Iteration (spec_env eps) (mk 2 2 [2, 0, 0, - 2]) (mk 2 2 [4, 0, 0, 4])
     (mk 2 1 [1, 0]) (mk 2 1 [1, 0]) = Inr (4, mk 2 1 [1, 0], mk 2 1 [4, 0])"
  "PowerIterationMethod2Iteration (spec_env eps) (mk 2 2 [2, 0, 0, - 2]) (mk 2 2 [4, 0, 0, 4])
     (mk 2 1 [1, 0]) (mk 2 1 [4, 0]) = Inr (4, mk 2 1 [1, 0], mk 2 1 [4, 0])"
  by (simp_all add: PowerIterationMethod2Iteration_def diag_ops norm_4e0)

lemma diag_loop:
  assumes "0 \<le> eps" "eps < 1"
  shows "PowerMethodEigenvalues2_loop (spec_env e) (mk 2 2 [2, 0, 0, - 2]) (mk 2 2 [4, 0, 0, 4]) 100 eps
           2 1000000000000000000 (mk 2 1 [1, 0]) (mk 2 1 [1, 0]) 0 = Inr (2, mk 2 1 [1, 0], mk 2 1 [4, 0], 1)"
    and "PowerMethodEigenvalues2_loop (spec_env e) (mk 2 2 [2, 0, 0, - 2]) (mk 2 2 [4, 0, 0, 4]) 100 eps
           2 1000000000000000000 (mk 2 1 [1, 0]) (mk 2 1 [4, 0]) 0 = Inr (2, mk 2 1 [1, 0], mk 2 1 [4, 0], 1)"
proof -
  have c: "\<bar>2 - 1000000000000000000\<bar> > eps" using assms by simp
  have l1: "PowerMethodEigenvalues2_loop (spec_env e) (mk 2 2 [2, 0, 0, - 2]) (mk 2 2 [4, 0, 0, 4]) 100 eps
           2 2 (mk 2 1 [1, 0]) (mk 2 1 [4, 0]) 1 = Inr (2, mk 2 1 [1, 0], mk 2 1 [4, 0], 1)"
    using assms by (subst PowerMethodEigenvalues2_loop.simps) simp
  show "PowerMethodEigenvalues2_loop (spec_env e) (mk 2 2 [2, 0, 0, - 2]) (mk 2 2 [4, 0, 0, 4]) 100 eps
           2 1000000000000000000 (mk 2 1 [1, 0]) (mk 2 1 [1, 0]) 0 = Inr (2, mk 2 1 [1, 0], mk 2 1 [4, 0], 1)"
    using c by (subst PowerMethodEigenvalues2_loop.simps) (simp add: diag_step l1)
  show "PowerMethodEigenvalues2_loop (spec_env e) (mk 2 2 [2, 0, 0, - 2]) (mk 2 2 [4, 0, 0, 4]) 100 eps
           2 1000000000000000000 (mk 2 1 [1, 0]) (mk 2 1 [4, 0]) 0 = Inr (2, mk 2 1 [1, 0], mk 2 1 [4, 0], 1)"
    using c by (subst PowerMethodEigenvalues2_loop.simps) (simp add: diag_step l1)
qed

lemma diag_method2:
  assumes "0 \<le> eps" "eps < 1"
  shows "PowerMethodEigenvalues2 (spec_env e) (mk 2 2 [2, 0, 0, - 2]) (mk 2 1 [1, 0]) (Some 0) 100 eps
           = Inr ([(2, mk 2 1 [1, 0])], Some 2, mk 2 1 [4, 0])"
    and "PowerMethodEigenvalues2 (spec_env e) (mk 2 2 [2, 0, 0, - 2]) (mk 2 1 [4, 0]) (Some 0) 100 eps
           = Inr ([(2, mk 2 1 [1, 0])], Some 2, mk 2 1 [4, 0])"
  using assms
  by (simp_all add: PowerMethodEigenvalues2_def PowerMethodEigenvalues2_results_def square_mk
      diag_ops norm_e0 norm_4e0 norm_zero diag_loop set_iters_def)

lemma diag_dispatcher:
  "PowerMethodEigenvalues (spec_env (1 / 2 ^ 52)) (mk 2 2 [2, 0, 0, - 2]) (Some 0) 100 10 5 (- 1)
     = Inr ([(2, mk 2 1 [1, 0])], Some 4)"
  by (simp add: PowerMethodEigenvalues_def PowerMethodEigenvalues_forced_def Rows_def diag_ops
      diag_method2 set_iters_def)

lemma diag_wf:
  "wf (mk 2 2 [2, 0, 0, - 2::real])" "IsSquare (mk 2 2 [2, 0, 0, - 2::real])"
  "0 < rows (mk 2 2 [2, 0, 0, - 2::real])"
  "shaped (rows (mk 2 2 [2, 0, 0, - 2::real])) 1 (mk 2 1 [1, 0::real])"
  "shaped (rows (mk 2 2 [2, 0, 0, - 2::real])) 1 (mk 2 1 [4, 0::real])"
  by (simp_all add: wf_mk square_mk shaped_mk)

theorem PowerMethodEigenvalues2_after_loop_witness:
  "PowerMethodEigenvalues2 (spec_env (1 / 2 ^ 52)) (mk 2 2 [2, 0, 0, - 2]) (mk 2 1 [1, 0]) (Some 0) 100
     (1 / 10) = Inr ([(2, mk 2 1 [1, 0])], Some 2, mk 2 1 [4, 0])"
proof -
  let ?E = "spec_env (1 / 2 ^ 52)" and ?a = "mk 2 2 [2, 0, 0, - 2::real]" and ?y = "mk 2 1 [1, 0::real]"
  obtain a2 u0 r lambda u y' iter v1 v2 c1 c2 ans where s:
    "operator_mult ?a ?a = Inr a2"
    "operator_div_scalar ?y (EuclideanNorm ?E ?y) = Inr u0"
    "bind (operator_mult a2 u0) (ScalarProduct u0) = Inr r"
    "PowerMethodEigenvalues2_loop ?E ?a a2 100 (1 / 10) (sqrt \<bar>r\<bar>) (10 ^ 18) u0 ?y 0
             = Inr (lambda, u, y', iter)"
    "candidate lambda lambda ?a a2 u = Inr v1" "candidate (- lambda) lambda ?a a2 u = Inr v2"
    "ToComplex v1 = Inr c1" "ToComplex v2 = Inr c2"
    "ans = (if EuclideanNorm ?E v1 > 1 / 10 then [(complex_of_real lambda, c1)] else [])
                 @ (if EuclideanNorm ?E v2 > 1 / 10 then [(complex_of_real (- lambda), c2)] else [])"
    "PowerMethodEigenvalues2 ?E ?a ?y (Some 0) 100 (1 / 10)
             = Inr (ans, set_iters (Some 0) (if iter \<ge> 100 \<or> ans = [] then - 1 else iter + 1), y')"
    using PowerMethodEigenvalues2_after_loop[OF diag_wf(1-4), of ?E 100 "1 / 10" "Some 0"] by blast
  have a2: "a2 = mk 2 2 [4, 0, 0, 4]" using s(1) by (simp add: diag_ops)
  have u0: "u0 = mk 2 1 [1, 0]" using s(2) by (simp add: diag_ops norm_e0)
  have r: "r = 4" using s(3) a2 u0 by (simp add: diag_ops)
  have "lambda = 2 \<and> u = mk 2 1 [1, 0] \<and> y' = mk 2 1 [4, 0] \<and> iter = 1"
    using s(4) a2 u0 r diag_loop(1)[of "1 / 10" "1 / 2 ^ 52"] by simp
  then have l: "lambda = 2" "u = mk 2 1 [1, 0]" "y' = mk 2 1 [4, 0]" "iter = 1" by auto
  have v1: "v1 = mk 2 1 [1, 0]" using s(5) a2 l(1,2) by (simp add: diag_ops)
  have v2: "v2 = mk 2 1 [0, 0]" using s(6) a2 l(1,2) by (simp add: diag_ops)
  note v = v1 v2
  have c1: "c1 = mk 2 1 [1, 0]" using s(7) v by (simp add: diag_ops)
  have "ans = [(2, mk 2 1 [1, 0])]" using s(9) v c1 l by (simp add: norm_e0 norm_zero)
  then show ?thesis using s(10) l by (simp add: set_iters_def)
qed

section \<open>Failure to converge\<close>









section \<open>The dispatcher\<close>

lemma PowerMethodEigenvalues2_total:
  assumes "wf a" "IsSquare a" "0 < rows a" "shaped (rows a) 1 y"
  shows "\<exists>ans it y'. PowerMethodEigenvalues2 E a y (Some 0) max_iters eps = Inr (ans, Some it, y')
           \<and> shaped (rows a) 1 y'"
proof -
  obtain lambda iter y' v1 v2 c1 c2 where s: "shaped (rows a) 1 y'"
    "PowerMethodEigenvalues2 E a y (Some 0) max_iters eps
             = Inr ((if EuclideanNorm E v1 > eps then [(complex_of_real lambda, c1)] else [])
                    @ (if EuclideanNorm E v2 > eps then [(complex_of_real (- lambda), c2)] else []),
                    set_iters (Some 0)
                      (if iter \<ge> max_iters \<or> \<not> EuclideanNorm E v1 > eps \<and> \<not> EuclideanNorm E v2 > eps
                       then - 1 else iter + 1),
                    y')"
    using PowerMethodEigenvalues2_ok[OF assms, of E max_iters eps "Some 0"] by blast
  show ?thesis using s by (simp add: set_iters_def)
qed

text \<open>The dispatcher without an override, in terms of the two runs of Method 2.\<close>

lemma PowerMethodEigenvalues_unfold:
  assumes "Matrix_dims (rows a) 1 = Inr y0" "put1 y0 0 1 = Inr y"
    and "PowerMethodEigenvalues2 E a y (Some 0) max_iters (1 / 10) = Inr (probe, Some it1, y1)"
  shows "PowerMethodEigenvalues E a iters max_iters check_iters check_step (- 1)
         = (if 0 \<le> it1 then
              bind (PowerMethodEigenvalues2 E a y1 (Some 0) max_iters (GetEps E))
                (\<lambda>(res, iters2, y2).
                   if (case iters2 of Some v \<Rightarrow> v | None \<Rightarrow> 0) \<ge> 0 \<and> res \<noteq> [] then
                     Inr (res, set_iters iters (it1 + (case iters2 of Some v \<Rightarrow> v | None \<Rightarrow> 0)))
                   else PowerMethodEigenvalues3 E a (set_iters iters 0) max_iters)
            else PowerMethodEigenvalues3 E a (set_iters iters 0) max_iters)"
proof (cases "0 \<le> it1")
  case False
  then show ?thesis
    using assms by (simp add: PowerMethodEigenvalues_def PowerMethodEigenvalues_forced_def Rows_def)
next
  case True
  show ?thesis
  proof (cases "PowerMethodEigenvalues2 E a y1 (Some 0) max_iters (GetEps E)")
    case (Inl e)
    then show ?thesis
      using assms True
      by (simp add: PowerMethodEigenvalues_def PowerMethodEigenvalues_forced_def Rows_def)
  next
    case (Inr t)
    obtain res iters2 y2 where t: "t = (res, iters2, y2)" by (cases t)
    show ?thesis
      using assms True Inr t
      by (simp add: PowerMethodEigenvalues_def PowerMethodEigenvalues_forced_def Rows_def)
  qed
qed

text \<open>
  Claim C1, as amended. For a well-formed square matrix with at least one row and no
  override (\<open>force_method = -1\<close>) the dispatcher seeds \<open>y\<close> and runs Method 2 with the
  tolerance 0.1. When that probe reports an iteration count \<open>it1 \<ge> 0\<close>, it runs
  Method 2 again, with the tolerance \<^verbatim>\<open>GetEps()\<close> and on the \<open>y\<close> the probe has left;
  when this run reports \<open>it2 \<ge> 0\<close> and a result that is not empty, the result is
  returned and the out-parameter receives \<open>it1 + it2\<close>. In every other case the
  dispatcher returns what Method 3 returns, the out-parameter included.
\<close>

theorem dispatcher_without_override:
  assumes "wf a" "IsSquare a" "0 < rows a"
  shows "\<exists>y0 y probe it1 y1.
           Matrix_dims (rows a) 1 = Inr y0 \<and> put1 y0 0 1 = Inr y
         \<and> PowerMethodEigenvalues2 E a y (Some 0) max_iters (1 / 10) = Inr (probe, Some it1, y1)
         \<and> (if 0 \<le> it1 then
              \<exists>res it2 y2.
                PowerMethodEigenvalues2 E a y1 (Some 0) max_iters (GetEps E) = Inr (res, Some it2, y2)
              \<and> PowerMethodEigenvalues E a iters max_iters check_iters check_step (- 1)
                 = (if 0 \<le> it2 \<and> res \<noteq> [] then Inr (res, set_iters iters (it1 + it2))
                    else PowerMethodEigenvalues3 E a (set_iters iters 0) max_iters)
            else PowerMethodEigenvalues E a iters max_iters check_iters check_step (- 1)
                 = PowerMethodEigenvalues3 E a (set_iters iters 0) max_iters)"
proof -
  obtain y0 y where y: "Matrix_dims (rows a) 1 = Inr y0" "put1 y0 0 (1::real) = Inr y"
    "shaped (rows a) 1 y"
    using seed_ok[OF assms(3)] by blast
  obtain probe it1 y1 where p:
    "PowerMethodEigenvalues2 E a y (Some 0) max_iters (1 / 10) = Inr (probe, Some it1, y1)"
    "shaped (rows a) 1 y1"
    using PowerMethodEigenvalues2_total[OF assms y(3)] by blast
  obtain res it2 y2 where r:
    "PowerMethodEigenvalues2 E a y1 (Some 0) max_iters (GetEps E) = Inr (res, Some it2, y2)"
    using PowerMethodEigenvalues2_total[OF assms p(2)] by blast
  note u = PowerMethodEigenvalues_unfold[OF y(1,2) p(1), of iters check_iters check_step]
  show ?thesis
  proof (cases "0 \<le> it1")
    case True
    then have "PowerMethodEigenvalues E a iters max_iters check_iters check_step (- 1)
                 = (if 0 \<le> it2 \<and> res \<noteq> [] then Inr (res, set_iters iters (it1 + it2))
                    else PowerMethodEigenvalues3 E a (set_iters iters 0) max_iters)"
      using u r by simp
    then show ?thesis using y(1,2) p(1) r True by auto
  next
    case False
    then have "PowerMethodEigenvalues E a iters max_iters check_iters check_step (- 1)
                 = PowerMethodEigenvalues3 E a (set_iters iters 0) max_iters"
      using u by simp
    then show ?thesis using y(1,2) p(1) False by auto
  qed
qed

theorem dispatcher_without_override_witness:
  "PowerMethodEigenvalues (spec_env (1 / 2 ^ 52)) (mk 2 2 [2, 0, 0, - 2]) (Some 0) 100 10 5 (- 1)
     = Inr ([(2, mk 2 1 [1, 0])], Some 4)"
proof -
  let ?E = "spec_env (1 / 2 ^ 52)" and ?a = "mk 2 2 [2, 0, 0, - 2::real]"
  obtain y0 y probe it1 y1 where s:
    "Matrix_dims (rows ?a) 1 = Inr y0" "put1 y0 0 1 = Inr y"
    "PowerMethodEigenvalues2 ?E ?a y (Some 0) 100 (1 / 10) = Inr (probe, Some it1, y1)"
    "if 0 \<le> it1 then
              \<exists>res it2 y2.
                PowerMethodEigenvalues2 ?E ?a y1 (Some 0) 100 (GetEps ?E) = Inr (res, Some it2, y2)
              \<and> PowerMethodEigenvalues ?E ?a (Some 0) 100 10 5 (- 1)
                 = (if 0 \<le> it2 \<and> res \<noteq> [] then Inr (res, set_iters (Some 0) (it1 + it2))
                    else PowerMethodEigenvalues3 ?E ?a (set_iters (Some 0) 0) 100)
            else PowerMethodEigenvalues ?E ?a (Some 0) 100 10 5 (- 1)
                 = PowerMethodEigenvalues3 ?E ?a (set_iters (Some 0) 0) 100"
    using dispatcher_without_override[OF diag_wf(1-3), of ?E 100 "Some 0" 10 5] by blast
  have y0: "y0 = mk 2 1 [0, 0]" using s(1) by (simp add: diag_ops)
  have y: "y = mk 2 1 [1, 0]" using s(2) y0 by (simp add: diag_ops)
  have p: "probe = [(2, mk 2 1 [1, 0])] \<and> it1 = 2 \<and> y1 = mk 2 1 [4, 0]"
    using s(3) y diag_method2(1)[of "1 / 10" "1 / 2 ^ 52"] by simp
  then obtain res it2 y2 where r:
    "PowerMethodEigenvalues2 ?E ?a (mk 2 1 [4, 0]) (Some 0) 100 (1 / 2 ^ 52) = Inr (res, Some it2, y2)"
    "PowerMethodEigenvalues ?E ?a (Some 0) 100 10 5 (- 1)
                 = (if 0 \<le> it2 \<and> res \<noteq> [] then Inr (res, set_iters (Some 0) (2 + it2))
                    else PowerMethodEigenvalues3 ?E ?a (set_iters (Some 0) 0) 100)"
    using s(4) by auto
  have "res = [(2, mk 2 1 [1, 0])] \<and> it2 = 2"
    using r(1) diag_method2(2)[of "1 / 2 ^ 52" "1 / 2 ^ 52"] by simp
  then show ?thesis using r(2) by (simp add: set_iters_def)
qed

text \<open>
  A square matrix may have no rows: \<^verbatim>\<open>Matrix<T>()\<close> is the 0 by 0 matrix, and
  \<^verbatim>\<open>IsSquare\<close> holds for it. The dispatcher then fails while it seeds \<open>y\<close>, with
  \<^verbatim>\<open>std::out_of_range\<close>: it runs neither Method 2 nor Method 3.
\<close>

theorem dispatcher_empty_matrix_counterexample:
  "wf (mk 0 0 ([]::real list)) \<and> IsSquare (mk 0 0 ([]::real list))
   \<and> PowerMethodEigenvalues (spec_env (1 / 2 ^ 52)) (mk 0 0 []) (Some 0) 100 10 5 (- 1)
     = Inl (OutOfRange ''Indexes (0; 0) out of matrix size (0; 1)'')"
proof -
  have r: "Rows (mk 0 0 ([]::real list)) = 0" by (simp add: Rows_def)
  show ?thesis
    by (simp add: wf_mk square_mk PowerMethodEigenvalues_def PowerMethodEigenvalues_forced_def r
        seed_zero_rows)
qed

section \<open>The seed vector of Method 2\<close>

text \<open>
  The vector \<open>y\<close> Method 2 leaves: the one it was given when its loop ran no
  iteration, and otherwise \<open>A\<^sup>2 w\<close> for a vector \<open>w\<close>, the iterate that entered the last
  iteration.
\<close>

lemma PowerMethodEigenvalues2_loop_leaves:
  assumes a2: "wf a2" "rows a2 = n" "cols a2 = n" and n: "0 < n"
    and u: "shaped n 1 u" and y: "shaped n 1 y" and it: "0 \<le> iter"
  shows "\<exists>l u' y' it. PowerMethodEigenvalues2_loop E a a2 max_iters eps lambda prev_lambda u y iter
                        = Inr (l, u', y', it)
           \<and> ((it = iter \<and> y' = y)
              \<or> (iter < it \<and> (\<exists>w. shaped n 1 w \<and> (\<forall>i. 0 \<le> i \<and> i < n \<longrightarrow> elem y' i 0 = psum a2 w i 0 n))))"
  using u y it
proof (induction "nat (max_iters - iter)" arbitrary: lambda prev_lambda u y iter rule: less_induct)
  case less
  show ?case
  proof (cases "\<bar>lambda - prev_lambda\<bar> > eps")
    case False
    then show ?thesis
      by (simp add: PowerMethodEigenvalues2_loop.simps[of E a a2 max_iters eps lambda])
  next
    case True
    obtain r u' y' where s: "PowerIterationMethod2Iteration E a a2 u y = Inr (r, u', y')"
      "shaped n 1 u'" "shaped n 1 y'" "\<forall>i. 0 \<le> i \<and> i < n \<longrightarrow> elem y' i 0 = psum a2 u i 0 n"
      using PowerIterationMethod2Iteration_ok[OF a2 less.prems(1,2) n, of E a] by blast
    have w: "\<exists>w. shaped n 1 w \<and> (\<forall>i. 0 \<le> i \<and> i < n \<longrightarrow> elem y' i 0 = psum a2 w i 0 n)"
      using s(4) less.prems(1) by blast
    show ?thesis
    proof (cases "iter + 1 > max_iters")
      case True
      then show ?thesis
        using \<open>\<bar>lambda - prev_lambda\<bar> > eps\<close> s(1) w
        by (simp add: PowerMethodEigenvalues2_loop.simps[of E a a2 max_iters eps lambda])
    next
      case False
      then have "nat (max_iters - (iter + 1)) < nat (max_iters - iter)" by simp
      then have "\<exists>l u'' y'' it.
        PowerMethodEigenvalues2_loop E a a2 max_iters eps (sqrt \<bar>r\<bar>) lambda u' y' (iter + 1)
           = Inr (l, u'', y'', it)
        \<and> ((it = iter + 1 \<and> y'' = y')
         \<or> (iter + 1 < it \<and> (\<exists>w. shaped n 1 w \<and> (\<forall>i. 0 \<le> i \<and> i < n \<longrightarrow> elem y'' i 0 = psum a2 w i 0 n))))"
        using less.hyps[of "iter + 1" u' y' "sqrt \<bar>r\<bar>" lambda] s(2,3) less.prems(3) by simp
      then obtain l u'' y'' it where r:
        "PowerMethodEigenvalues2_loop E a a2 max_iters eps (sqrt \<bar>r\<bar>) lambda u' y' (iter + 1)
           = Inr (l, u'', y'', it)"
        "(it = iter + 1 \<and> y'' = y')
         \<or> (iter + 1 < it \<and> (\<exists>w. shaped n 1 w \<and> (\<forall>i. 0 \<le> i \<and> i < n \<longrightarrow> elem y'' i 0 = psum a2 w i 0 n)))"
        by blast
      have "iter < it \<and> (\<exists>w. shaped n 1 w \<and> (\<forall>i. 0 \<le> i \<and> i < n \<longrightarrow> elem y'' i 0 = psum a2 w i 0 n))"
        using r(2) w by auto
      moreover have "PowerMethodEigenvalues2_loop E a a2 max_iters eps lambda prev_lambda u y iter
                     = Inr (l, u'', y'', it)"
        using True False s(1) r(1)
        by (simp add: PowerMethodEigenvalues2_loop.simps[of E a a2 max_iters eps lambda prev_lambda u y iter])
      ultimately show ?thesis by blast
    qed
  qed
qed

text \<open>
  Claim C10. Every iteration of Method 2 assigns \<open>A\<^sup>2 u\<close> to the \<open>y\<close> of its caller,
  so the \<open>y\<close> a call leaves is the seed it was given only when its loop ran no
  iteration (\<open>k = 0\<close>), and \<open>A\<^sup>2 w\<close> for an iterate \<open>w\<close> otherwise. In the dispatcher
  without an override, the full-precision run of Method 2 is started on the \<open>y\<close> the
  probe has left, not on a fresh unit vector.
\<close>

theorem refined_run_starts_from_probe_vector:
  assumes "wf a" "IsSquare a" "0 < rows a"
  shows "\<exists>a2 y0 y probe it1 y1 k.
           operator_mult a a = Inr a2
         \<and> (\<forall>u v. shaped (rows a) 1 u \<and> shaped (rows a) 1 v \<longrightarrow>
               (\<exists>r u' v'. PowerIterationMethod2Iteration E a a2 u v = Inr (r, u', v')
                  \<and> (\<forall>i. 0 \<le> i \<and> i < rows a \<longrightarrow> elem v' i 0 = psum a2 u i 0 (rows a))))
         \<and> Matrix_dims (rows a) 1 = Inr y0 \<and> put1 y0 0 1 = Inr y
         \<and> PowerMethodEigenvalues2 E a y (Some 0) max_iters (1 / 10) = Inr (probe, Some it1, y1)
         \<and> it1 = (if k \<ge> max_iters \<or> probe = [] then - 1 else k + 1)
         \<and> ((k = 0 \<and> y1 = y)
            \<or> (0 < k \<and> (\<exists>w. shaped (rows a) 1 w
                          \<and> (\<forall>i. 0 \<le> i \<and> i < rows a \<longrightarrow> elem y1 i 0 = psum a2 w i 0 (rows a)))))
         \<and> (0 \<le> it1 \<longrightarrow>
              (\<exists>res it2 y2.
                 PowerMethodEigenvalues2 E a y1 (Some 0) max_iters (GetEps E) = Inr (res, Some it2, y2)
               \<and> PowerMethodEigenvalues E a iters max_iters check_iters check_step (- 1)
                  = (if 0 \<le> it2 \<and> res \<noteq> [] then Inr (res, set_iters iters (it1 + it2))
                     else PowerMethodEigenvalues3 E a (set_iters iters 0) max_iters)))"
proof -
  let ?n = "rows a"
  obtain y0 y where y: "Matrix_dims ?n 1 = Inr y0" "put1 y0 0 (1::real) = Inr y" "shaped ?n 1 y"
    using seed_ok[OF assms(3)] by blast
  obtain a2 u0 r lambda u y1 iter v1 v2 c1 c2 where s:
    "operator_mult a a = Inr a2" "shaped ?n ?n a2"
    "operator_div_scalar y (EuclideanNorm E y) = Inr u0"
    "PowerMethodEigenvalues2_loop E a a2 max_iters (1 / 10) (sqrt \<bar>r\<bar>) (10 ^ 18) u0 y 0
             = Inr (lambda, u, y1, iter)"
    "shaped ?n 1 y1" "0 \<le> iter"
    "PowerMethodEigenvalues2 E a y (Some 0) max_iters (1 / 10)
             = Inr ((if EuclideanNorm E v1 > 1 / 10 then [(complex_of_real lambda, c1)] else [])
                    @ (if EuclideanNorm E v2 > 1 / 10 then [(complex_of_real (- lambda), c2)] else []),
                    set_iters (Some 0)
                      (if iter \<ge> max_iters \<or> \<not> EuclideanNorm E v1 > 1 / 10 \<and> \<not> EuclideanNorm E v2 > 1 / 10
                       then - 1 else iter + 1),
                    y1)"
    using PowerMethodEigenvalues2_ok[OF assms y(3), of E max_iters "1 / 10" "Some 0"] by blast
  have a2d: "wf a2" "rows a2 = ?n" "cols a2 = ?n" using shaped_wf_dims[OF s(2)] by auto
  have u0: "shaped ?n 1 u0" using div_vec[OF y(3), of "EuclideanNorm E y"] s(3) by auto
  let ?probe = "(if EuclideanNorm E v1 > 1 / 10 then [(complex_of_real lambda, c1)] else [])
                    @ (if EuclideanNorm E v2 > 1 / 10 then [(complex_of_real (- lambda), c2)] else [])"
  let ?it1 = "if iter \<ge> max_iters \<or> ?probe = [] then - 1 else iter + 1"
  have emp: "(?probe = []) = (\<not> EuclideanNorm E v1 > 1 / 10 \<and> \<not> EuclideanNorm E v2 > 1 / 10)" by simp
  have p: "PowerMethodEigenvalues2 E a y (Some 0) max_iters (1 / 10) = Inr (?probe, Some ?it1, y1)"
    using s(7) unfolding emp by (simp add: set_iters_def)
  have step: "\<forall>u v. shaped ?n 1 u \<and> shaped ?n 1 v \<longrightarrow>
               (\<exists>r u' v'. PowerIterationMethod2Iteration E a a2 u v = Inr (r, u', v')
                  \<and> (\<forall>i. 0 \<le> i \<and> i < ?n \<longrightarrow> elem v' i 0 = psum a2 u i 0 ?n))"
    using PowerIterationMethod2Iteration_ok[OF a2d _ _ assms(3), of _ _ E a] by blast
  have left: "(iter = 0 \<and> y1 = y)
            \<or> (0 < iter \<and> (\<exists>w. shaped ?n 1 w \<and> (\<forall>i. 0 \<le> i \<and> i < ?n \<longrightarrow> elem y1 i 0 = psum a2 w i 0 ?n)))"
    using PowerMethodEigenvalues2_loop_leaves[OF a2d assms(3) u0 y(3), of 0 E a max_iters "1 / 10" "sqrt \<bar>r\<bar>" "10 ^ 18"]
      s(4) by auto
  obtain res it2 y2 where r:
    "PowerMethodEigenvalues2 E a y1 (Some 0) max_iters (GetEps E) = Inr (res, Some it2, y2)"
    using PowerMethodEigenvalues2_total[OF assms s(5)] by blast
  have d: "0 \<le> ?it1 \<longrightarrow>
              (\<exists>res it2 y2.
                 PowerMethodEigenvalues2 E a y1 (Some 0) max_iters (GetEps E) = Inr (res, Some it2, y2)
               \<and> PowerMethodEigenvalues E a iters max_iters check_iters check_step (- 1)
                  = (if 0 \<le> it2 \<and> res \<noteq> [] then Inr (res, set_iters iters (?it1 + it2))
                     else PowerMethodEigenvalues3 E a (set_iters iters 0) max_iters))"
  proof
    assume "0 \<le> ?it1"
    then have "PowerMethodEigenvalues E a iters max_iters check_iters check_step (- 1)
                  = (if 0 \<le> it2 \<and> res \<noteq> [] then Inr (res, set_iters iters (?it1 + it2))
                     else PowerMethodEigenvalues3 E a (set_iters iters 0) max_iters)"
      using PowerMethodEigenvalues_unfold[OF y(1,2) p, of iters check_iters check_step] r by simp
    then show "\<exists>res it2 y2.
                 PowerMethodEigenvalues2 E a y1 (Some 0) max_iters (GetEps E) = Inr (res, Some it2, y2)
               \<and> PowerMethodEigenvalues E a iters max_iters check_iters check_step (- 1)
                  = (if 0 \<le> it2 \<and> res \<noteq> [] then Inr (res, set_iters iters (?it1 + it2))
                     else PowerMethodEigenvalues3 E a (set_iters iters 0) max_iters)"
      using r by blast
  qed
  show ?thesis
    using s(1) step y(1,2) p left d by blast
qed

theorem refined_run_starts_from_probe_vector_witness:
  "PowerMethodEigenvalues2 (spec_env (1 / 2 ^ 52)) (mk 2 2 [2, 0, 0, - 2]) (mk 2 1 [1, 0]) (Some 0) 100
     (1 / 10) = Inr ([(2, mk 2 1 [1, 0])], Some 2, mk 2 1 [4, 0])
   \<and> mk 2 1 [4, 0] \<noteq> mk 2 1 [1, 0::real]
   \<and> PowerMethodEigenvalues2 (spec_env (1 / 2 ^ 52)) (mk 2 2 [2, 0, 0, - 2]) (mk 2 1 [4, 0]) (Some 0) 100
        (1 / 2 ^ 52) = Inr ([(2, mk 2 1 [1, 0])], Some 2, mk 2 1 [4, 0])
   \<and> PowerMethodEigenvalues (spec_env (1 / 2 ^ 52)) (mk 2 2 [2, 0, 0, - 2]) (Some 0) 100 10 5 (- 1)
        = Inr ([(2, mk 2 1 [1, 0])], Some (2 + 2))"
proof -
  let ?E = "spec_env (1 / 2 ^ 52)" and ?a = "mk 2 2 [2, 0, 0, - 2::real]"
  obtain y0 y probe it1 y1 where s:
    "Matrix_dims (rows ?a) 1 = Inr y0" "put1 y0 0 1 = Inr y"
    "PowerMethodEigenvalues2 ?E ?a y (Some 0) 100 (1 / 10) = Inr (probe, Some it1, y1)"
    "0 \<le> it1 \<longrightarrow>
              (\<exists>res it2 y2.
                 PowerMethodEigenvalues2 ?E ?a y1 (Some 0) 100 (GetEps ?E) = Inr (res, Some it2, y2)
               \<and> PowerMethodEigenvalues ?E ?a (Some 0) 100 10 5 (- 1)
                  = (if 0 \<le> it2 \<and> res \<noteq> [] then Inr (res, set_iters (Some 0) (it1 + it2))
                     else PowerMethodEigenvalues3 ?E ?a (set_iters (Some 0) 0) 100))"
    using refined_run_starts_from_probe_vector[OF diag_wf(1-3), of ?E 100 "Some 0" 10 5] by blast
  have y0: "y0 = mk 2 1 [0, 0]" using s(1) by (simp add: diag_ops)
  have y: "y = mk 2 1 [1, 0]" using s(2) y0 by (simp add: diag_ops)
  have m1: "PowerMethodEigenvalues2 ?E ?a (mk 2 1 [1, 0]) (Some 0) 100 (1 / 10)
              = Inr ([(2, mk 2 1 [1, 0])], Some 2, mk 2 1 [4, 0])"
    using diag_method2(1)[of "1 / 10" "1 / 2 ^ 52"] by simp
  have m2: "PowerMethodEigenvalues2 ?E ?a (mk 2 1 [4, 0]) (Some 0) 100 (1 / 2 ^ 52)
              = Inr ([(2, mk 2 1 [1, 0])], Some 2, mk 2 1 [4, 0])"
    using diag_method2(2)[of "1 / 2 ^ 52" "1 / 2 ^ 52"] by simp
  have p: "it1 = 2" "y1 = mk 2 1 [4, 0]" using s(3) y m1 by auto
  have "PowerMethodEigenvalues ?E ?a (Some 0) 100 10 5 (- 1) = Inr ([(2, mk 2 1 [1, 0])], Some (2 + 2))"
    using s(4) p m2 by (auto simp: set_iters_def)
  moreover have "mk 2 1 [4, 0] \<noteq> mk 2 1 [1, 0::real]" by (simp add: mk_def)
  ultimately show ?thesis using m1 m2 by simp
qed

section \<open>One iteration of Method 3\<close>

lemma list_all_upto: "list_all P [0..n - 1] = (\<forall>i. 0 \<le> i \<and> i < n \<longrightarrow> P i)"
  by (auto simp: list_all_iff)

text \<open>
  Claim C2, as amended. After its power step, an iteration of Method 3 builds a real
  linear system \<open>l c = r\<close> with one row for each row of the matrix and the two
  unknowns \<open>c0\<close> and \<open>c1\<close>; its solutions are the \<open>(c0, c1)\<close> with
  \<open>A\<^sup>2 u = - c1 (A u) - c0 u\<close> in the real parts, that is
  \<open>A\<^sup>2 u + c1 (A u) + c0 u = 0\<close>. The iteration returns what the quadratic solver returns
  for the coefficients \<open>(1, c(1), c(0))\<close> of the least-squares solution \<open>c\<close>: by
  the solver's contract, two roots of \<open>x\<^sup>2 + c1 x + c0 = 0\<close>.
\<close>

theorem complex_iteration_system:
  assumes "wf a" "rows a = n" "cols a = n" "wf squared_a" "rows squared_a = n" "cols squared_a = n"
    and "shaped n 1 u" "shaped n 1 y" "0 < n" "solves_two_unknowns E n" "solves_quadratic E"
  shows "\<exists>y' u' l r x1 x2.
           PowerMethodEigenvaluesComplexIteration E a squared_a y u = Inr ((x1, x2), y', u')
         \<and> ComplexIteration_system a squared_a u' = Inr (l, r)
         \<and> shaped n 2 l \<and> shaped n 1 r
         \<and> (\<forall>c0 c1. solves_system l r c0 c1 = recurrence (- 1) a squared_a u' c0 c1)
         \<and> (x1, x2) = SolveQuadraticEquation E 1 (elem (MinimalSquareProblem E l r) 1 0)
                         (elem (MinimalSquareProblem E l r) 0 0)
         \<and> x1\<^sup>2 + complex_of_real (elem (MinimalSquareProblem E l r) 1 0) * x1
               + complex_of_real (elem (MinimalSquareProblem E l r) 0 0) = 0
         \<and> x2\<^sup>2 + complex_of_real (elem (MinimalSquareProblem E l r) 1 0) * x2
               + complex_of_real (elem (MinimalSquareProblem E l r) 0 0) = 0"
proof -
  obtain y' u' l r where s:
    "PowerMethodEigenvaluesComplexIteration E a squared_a y u
             = Inr (SolveQuadraticEquation E 1 (elem (MinimalSquareProblem E l r) 1 0)
                      (elem (MinimalSquareProblem E l r) 0 0), y', u')"
    "shaped n 1 u'" "ComplexIteration_system a squared_a u' = Inr (l, r)"
    using PowerMethodEigenvaluesComplexIteration_ok[OF assms(1-10)] by blast
  have c: "shaped n 2 l" "shaped n 1 r"
    "\<forall>i. 0 \<le> i \<and> i < n \<longrightarrow>
                 elem l i 0 = Re (elem u' i 0) \<and> elem l i 1 = Re (psum a u' i 0 n)
               \<and> elem r i 0 = - Re (psum squared_a u' i 0 n)"
    using ComplexIteration_system_ok[OF assms(1-6) s(2) assms(9)] s(3) by auto
  have d: "rows l = n" "rows u' = n" using shaped_wf_dims[OF c(1)] shaped_wf_dims[OF s(2)] by auto
  have e: "solves_system l r c0 c1 = recurrence (- 1) a squared_a u' c0 c1" for c0 c1
  proof -
    have "(elem l i 0 * c0 + elem l i 1 * c1 = elem r i 0)
          = (Re (psum squared_a u' i 0 n) = - 1 * (c1 * Re (psum a u' i 0 n) + c0 * Re (elem u' i 0)))"
      if "0 \<le> i \<and> i < n" for i
      using c(3) that by (auto simp: algebra_simps)
    then show ?thesis
      by (simp add: solves_system_def recurrence_def list_all_upto d)
  qed
  obtain x1 x2 where x: "(x1, x2) = SolveQuadraticEquation E 1 (elem (MinimalSquareProblem E l r) 1 0)
                         (elem (MinimalSquareProblem E l r) 0 0)"
    by (metis surj_pair)
  have q: "x1\<^sup>2 + complex_of_real (elem (MinimalSquareProblem E l r) 1 0) * x1
               + complex_of_real (elem (MinimalSquareProblem E l r) 0 0) = 0"
    "x2\<^sup>2 + complex_of_real (elem (MinimalSquareProblem E l r) 1 0) * x2
               + complex_of_real (elem (MinimalSquareProblem E l r) 0 0) = 0"
    using assms(11) x[symmetric] unfolding solves_quadratic_def
    by (metis fst_conv, metis snd_conv)
  show ?thesis using s(1,3) c(1,2) e x q by (metis (no_types, lifting))
qed

lemma quad_root:
  fixes b c d :: complex
  assumes "d * d = b * b - 4 * c"
  shows "((- b + d) / 2)\<^sup>2 + b * ((- b + d) / 2) + c = 0"
    and "((- b - d) / 2)\<^sup>2 + b * ((- b - d) / 2) + c = 0"
proof -
  have 1: "((- b + d) / 2)\<^sup>2 + b * ((- b + d) / 2) + c = (d * d - (b * b - 4 * c)) / 4"
    by (simp add: power2_eq_square field_simps)
  have 2: "((- b - d) / 2)\<^sup>2 + b * ((- b - d) / 2) + c = (d * d - (b * b - 4 * c)) / 4"
    by (simp add: power2_eq_square field_simps)
  show "((- b + d) / 2)\<^sup>2 + b * ((- b + d) / 2) + c = 0" unfolding 1 using assms by simp
  show "((- b - d) / 2)\<^sup>2 + b * ((- b - d) / 2) + c = 0" unfolding 2 using assms by simp
qed

lemma spec_env_solves_quadratic [simp]: "solves_quadratic (spec_env eps)"
proof -
  have d: "csqrt (complex_of_real (b * b - 4 * c)) * csqrt (complex_of_real (b * b - 4 * c))
           = complex_of_real b * complex_of_real b - 4 * complex_of_real c" for b c
    using power2_csqrt[of "complex_of_real (b * b - 4 * c)"] by (simp add: power2_eq_square)
  show ?thesis
    using quad_root[OF d]
    by (simp add: solves_quadratic_def SolveQuadraticEquation_spec_def Let_def)
qed

lemma rotation_ops:
  "operator_mult (mk 2 2 [0, 1, - 1, 0]) (mk 2 1 [1, 0::complex]) = Inr (mk 2 1 [0, - 1])"
  "Assign (mk 2 1 [1, 0]) (mk 2 1 [0, - 1::complex]) = Inr (mk 2 1 [0, - 1])"
  "operator_div_scalar (mk 2 1 [0, - 1]) (1::complex) = Inr (mk 2 1 [0, - 1])"
  "ComplexIteration_system (mk 2 2 [0, 1, - 1, 0]) (mk 2 2 [- 1, 0, 0, - 1]) (mk 2 1 [0, - 1])
     = Inr (mk 2 2 [0, - 1, - 1, 0], mk 2 1 [0, - 1])"
  "MinimalSquareProblem_spec (mk 2 2 [0, - 1, - 1, 0]) (mk 2 1 [0, - 1]) = mk 2 1 [1, 0]"
  by code_simp+

lemma system_1x1:
  "ComplexIteration_system (mk 1 1 [1]) (mk 1 1 [1]) (mk 1 1 [1]) = Inr (mk 1 2 [1, 1], mk 1 1 [- 1])"
  "solves_system (mk 1 2 [1, 1]) (mk 1 1 [- 1]) (- 1) 0"
  by code_simp+

lemma csqrt_minus_4: "csqrt (- 4) = 2 * \<i>"
  using csqrt_of_real_nonpos[of "- 4"] by simp

lemma cnorm_rot: "EuclideanNormC_spec (mk 2 1 [0, - 1]) = 1"
  by (simp add: EuclideanNormC_spec_def vlen_def velem_def elem_def upto.simps)

lemma rotation_unknowns:
  "get1 (mk 2 1 [1, 0::real]) 1 = Inr 0" "get1 (mk 2 1 [1, 0::real]) 0 = Inr 1"
  by code_simp+

lemma rotation_wf:
  "wf (mk 2 2 [0, 1, - 1, 0::complex])" "wf (mk 2 2 [- 1, 0, 0, - 1::complex])"
  "shaped 2 1 (mk 2 1 [1, 0::complex])"
  by (simp_all add: wf_mk shaped_mk)

text \<open>
  The matrix of the rotation by a quarter turn, whose eigenvalues are \<open>\<i>\<close> and
  \<open>- \<i>\<close>: one iteration from the first unit vector finds both.
\<close>

theorem complex_iteration_system_witness:
  "PowerMethodEigenvaluesComplexIteration (spec_env (1 / 2 ^ 52)) (mk 2 2 [0, 1, - 1, 0])
     (mk 2 2 [- 1, 0, 0, - 1]) (mk 2 1 [1, 0]) (mk 2 1 [1, 0])
   = Inr ((\<i>, - \<i>), mk 2 1 [0, - 1], mk 2 1 [0, - 1])
   \<and> \<i>\<^sup>2 + 0 * \<i> + 1 = 0"
proof -
  let ?E = "spec_env (1 / 2 ^ 52)" and ?a = "mk 2 2 [0, 1, - 1, 0::complex]"
  let ?s = "mk 2 2 [- 1, 0, 0, - 1::complex]" and ?u = "mk 2 1 [1, 0::complex]"
  have ev: "PowerMethodEigenvaluesComplexIteration ?E ?a ?s ?u ?u
              = Inr ((\<i>, - \<i>), mk 2 1 [0, - 1], mk 2 1 [0, - 1])"
    by (simp add: PowerMethodEigenvaluesComplexIteration_def rotation_ops cnorm_rot Let_def
        rotation_unknowns SolveQuadraticEquation_spec_def csqrt_minus_4)
  obtain y' u' l r x1 x2 where t:
    "PowerMethodEigenvaluesComplexIteration ?E ?a ?s ?u ?u = Inr ((x1, x2), y', u')"
    "ComplexIteration_system ?a ?s u' = Inr (l, r)"
    "(x1, x2) = SolveQuadraticEquation ?E 1 (elem (MinimalSquareProblem ?E l r) 1 0)
                         (elem (MinimalSquareProblem ?E l r) 0 0)"
    "x1\<^sup>2 + complex_of_real (elem (MinimalSquareProblem ?E l r) 1 0) * x1
               + complex_of_real (elem (MinimalSquareProblem ?E l r) 0 0) = 0"
    using complex_iteration_system[where n = 2 and a = ?a and squared_a = ?s and u = ?u and y = ?u
        and E = ?E, OF rotation_wf(1) _ _ rotation_wf(2) _ _ rotation_wf(3) rotation_wf(3) _
        spec_env_solves spec_env_solves_quadratic]
    by auto
  have x: "x1 = \<i>" "u' = mk 2 1 [0, - 1]" using t(1) ev by auto
  have lr: "l = mk 2 2 [0, - 1, - 1, 0]" "r = mk 2 1 [0, - 1]"
    using t(2) x(2) by (simp_all add: rotation_ops)
  have "\<i>\<^sup>2 + 0 * \<i> + 1 = 0"
    using t(4) unfolding x lr by (simp add: rotation_ops elem_def)
  then show ?thesis using ev by simp
qed

text \<open>
  The claim as stated has the system express \<open>A\<^sup>2 u = c1 (A u) + c0 u\<close>. The source
  builds the right-hand side from \<^verbatim>\<open>-1 * squared_a * u\<close>: for the 1 by 1 matrix \<open>(1)\<close>
  and \<open>u = (1)\<close> the system is the single equation \<open>c0 + c1 = -1\<close>, which
  \<open>c0 = -1\<close>, \<open>c1 = 0\<close> solve, whereas \<open>A\<^sup>2 u = c1 (A u) + c0 u\<close> would read \<open>1 = -1\<close>.
\<close>

theorem complex_iteration_sign_counterexample:
  "ComplexIteration_system (mk 1 1 [1]) (mk 1 1 [1]) (mk 1 1 [1]) = Inr (mk 1 2 [1, 1], mk 1 1 [- 1])
   \<and> solves_system (mk 1 2 [1, 1]) (mk 1 1 [- 1]) (- 1) 0
   \<and> \<not> recurrence 1 (mk 1 1 [1]) (mk 1 1 [1]) (mk 1 1 [1]) (- 1) 0
   \<and> recurrence (- 1) (mk 1 1 [1]) (mk 1 1 [1]) (mk 1 1 [1]) (- 1) 0"
  by code_simp

section \<open>The store and the matrices taken with their arrays\<close>

lemma forM_sim:
  assumes "R s t" and "\<And>i s t. i \<in> set ks \<Longrightarrow> R s t \<Longrightarrow> rel_sum (=) R (f i s) (g i t)"
  shows "rel_sum (=) R (forM ks f s) (forM ks g t)"
  using assms
proof (induction ks arbitrary: s t)
  case Nil
  then show ?case by simp
next
  case (Cons k ks)
  have r: "rel_sum (=) R (f k s) (g k t)" using Cons.prems by simp
  show ?case
  proof (cases "f k s")
    case (Inl e)
    then show ?thesis using r by (cases "g k t") simp_all
  next
    case (Inr s')
    then obtain t' where t': "g k t = Inr t'" "R s' t'" using r by (cases "g k t") simp_all
    have "rel_sum (=) R (forM ks f s') (forM ks g t')"
      using Cons.IH[OF t'(2)] Cons.prems(2) by simp
    then show ?thesis using Inr t'(1) by simp
  qed
qed

lemma for_upto_sim:
  assumes "R s t" and "\<And>i s t. 0 \<le> i \<Longrightarrow> i < n \<Longrightarrow> R s t \<Longrightarrow> rel_sum (=) R (f i s) (g i t)"
  shows "rel_sum (=) R (for_upto n f s) (for_upto n g t)"
  unfolding for_upto_def using assms(1)
proof (rule forM_sim[where R = R])
  fix i s t assume "i \<in> set [0..n - 1]" "R s t"
  then show "rel_sum (=) R (f i s) (g i t)" using assms(2)[of i s t] by simp
qed

lemma rel_sum_Inr:
  assumes "rel_sum (=) R x y" "y = Inr t"
  shows "\<exists>s. x = Inr s \<and> R s t"
  using assms by (cases x) simp_all

lemma load_st_eq: "p < length h \<Longrightarrow> load_st h p = load (h ! p)"
  by (rule ext) (simp add: load_st_def)

lemma At_snapshot [simp]: "At (snapshot h m) i j = At m i j"
  by (simp add: At_def snapshot_def Size_def)

lemma At1_snapshot [simp]: "At1 (snapshot h m) i = At1 m i"
  by (simp add: At1_def At_def snapshot_def Size_def IsRowVector_def IsColVector_def Rows_def Cols_def)

lemma snapshot_fields [simp]:
  "rows (snapshot h m) = rows m" "cols (snapshot h m) = cols m"
  "data_rows (snapshot h m) = data_rows m" "data_cols (snapshot h m) = data_cols m"
  "offset_i (snapshot h m) = offset_i m" "offset_j (snapshot h m) = offset_j m"
  "data (snapshot h m) = h ! data m"
  by (simp_all add: snapshot_def)

text \<open>Reading through a matrix of the store is reading its snapshot.\<close>

lemma get_st_snapshot: "data m < length h \<Longrightarrow> get_st h m i j = get (snapshot h m) i j"
  by (simp add: get_st_def get_def load_st_eq)

lemma get1_st_snapshot: "data m < length h \<Longrightarrow> get1_st h m i = get1 (snapshot h m) i"
  by (simp add: get1_st_def get1_def load_st_eq)

lemma put_st_sim:
  assumes "tracks h0 this h t"
  shows "rel_sum (=) (tracks h0 this) (put_st h this i j v) (put t i j v)"
proof (cases "At this i j")
  case (Inl e)
  then show ?thesis using assms by (simp add: put_st_def put_def tracks_def)
next
  case (Inr k)
  have p: "data this < length h" "t = snapshot h this" using assms by (auto simp: tracks_def)
  show ?thesis
  proof (cases "0 \<le> k \<and> k < int (length (h ! data this))")
    case False
    then show ?thesis using Inr p by (auto simp: put_st_def put_def store_st_def store_def)
  next
    case True
    have "tracks h0 this (h[data this := (h ! data this)[nat k := v]])
            (t\<lparr>data := (h ! data this)[nat k := v]\<rparr>)"
      using assms by (auto simp: tracks_def snapshot_def)
    then show ?thesis using Inr p True by (auto simp: put_st_def put_def store_st_def store_def)
  qed
qed

lemma get_st_other:
  assumes "tracks h0 this h t" "data b \<noteq> data this" "data b < length h0"
  shows "get_st h b i j = get (snapshot h0 b) i j"
proof -
  have "h ! data b = h0 ! data b" "data b < length h" using assms by (auto simp: tracks_def)
  then show ?thesis using assms(3) by (simp add: get_st_def get_def load_st_eq)
qed

text \<open>
  \<^verbatim>\<open>Assign\<close> into a matrix whose array the source does not share: the store changes in
  the array of the target, as the target taken with its array does.
\<close>

lemma Assign_st_sim:
  assumes "data this < length h" "data b < length h" "data b \<noteq> data this"
  shows "rel_sum (=) (tracks h this) (Assign_st h this b) (Assign (snapshot h this) (snapshot h b))"
proof (cases "AssertEqualSizes this b")
  case (Inl e)
  then show ?thesis
    by (auto simp: Assign_st_def Assign_def AssertEqualSizes_def Size_def split: if_splits)
next
  case (Inr x)
  then have e: "AssertEqualSizes (snapshot h this) (snapshot h b) = Inr ()"
    by (simp add: AssertEqualSizes_def Size_def split: if_splits)
  have t0: "tracks h this h (snapshot h this)" using assms(1) by (simp add: tracks_def)
  have "rel_sum (=) (tracks h this)
          (for_upto (rows this) (\<lambda>i. for_upto (cols this) (\<lambda>j h.
             bind (get_st h b i j) (\<lambda>x. put_st h this i j x))) h)
          (for_upto (rows this) (\<lambda>i. for_upto (cols this) (\<lambda>j t.
             bind (get (snapshot h b) i j) (\<lambda>x. put t i j x))) (snapshot h this))"
  proof (rule for_upto_sim[where R = "tracks h this", OF t0])
    fix i s t assume st: "tracks h this s t"
    show "rel_sum (=) (tracks h this)
            (for_upto (cols this) (\<lambda>j h. bind (get_st h b i j) (\<lambda>x. put_st h this i j x)) s)
            (for_upto (cols this) (\<lambda>j t. bind (get (snapshot h b) i j) (\<lambda>x. put t i j x)) t)"
    proof (rule for_upto_sim[where R = "tracks h this", OF st])
      fix j s' t' assume s't': "tracks h this s' t'"
      have g: "get_st s' b i j = get (snapshot h b) i j"
        using get_st_other[OF s't' assms(3,2)] .
      show "rel_sum (=) (tracks h this) (bind (get_st s' b i j) (\<lambda>x. put_st s' this i j x))
              (bind (get (snapshot h b) i j) (\<lambda>x. put t' i j x))"
        unfolding g
        by (cases "get (snapshot h b) i j") (simp_all add: put_st_sim[OF s't'])
    qed
  qed
  then show ?thesis using Inr e by (simp add: Assign_st_def Assign_def Rows_def Cols_def)
qed

text \<open>The constructor with a fill value allocates a new array and fills it.\<close>

lemma Matrix_fill_st_ok:
  assumes "0 \<le> n" "0 \<le> m"
  shows "\<exists>m0 h' t. Matrix_fill_st h n m v = Inr (m0, h') \<and> Matrix_fill n m v = Inr t
           \<and> data m0 = length h \<and> h' = h @ [data t] \<and> snapshot h' m0 = t"
proof -
  have nm: "0 \<le> n * m" using assms by simp
  let ?buf = "replicate (nat (n * m)) undefined :: 'a list"
  let ?m0 = "\<lparr>data = length h, data_rows = n, data_cols = m, cols = m, rows = n,
                offset_i = 0, offset_j = 0\<rparr> :: nat Matrix"
  let ?t0 = "\<lparr>data = ?buf, data_rows = n, data_cols = m, cols = m, rows = n,
              offset_i = 0, offset_j = 0\<rparr> :: 'a list Matrix"
  let ?h0 = "h @ [?buf]"
  have t0: "tracks ?h0 ?m0 ?h0 ?t0" by (simp add: tracks_def snapshot_def)
  have sim: "rel_sum (=) (tracks ?h0 ?m0)
          (for_upto n (\<lambda>i. for_upto m (\<lambda>j h. put_st h ?m0 i j v)) ?h0)
          (for_upto n (\<lambda>i. for_upto m (\<lambda>j this. put this i j v)) ?t0)"
  proof (rule for_upto_sim[where R = "tracks ?h0 ?m0", OF t0])
    fix i s t assume st: "tracks ?h0 ?m0 s t"
    show "rel_sum (=) (tracks ?h0 ?m0) (for_upto m (\<lambda>j h. put_st h ?m0 i j v) s)
            (for_upto m (\<lambda>j this. put this i j v) t)"
      by (rule for_upto_sim[where R = "tracks ?h0 ?m0", OF st]) (rule put_st_sim)
  qed
  obtain t where t: "Matrix_fill n m v = Inr t" using Matrix_fill_ok[OF assms, of v] by blast
  then have tl: "for_upto n (\<lambda>i. for_upto m (\<lambda>j this. put this i j v)) ?t0 = Inr t"
    using nm by (simp add: Matrix_fill_def new_array_def)
  obtain h' where h': "for_upto n (\<lambda>i. for_upto m (\<lambda>j h. put_st h ?m0 i j v)) ?h0 = Inr h'"
    "tracks ?h0 ?m0 h' t"
    using rel_sum_Inr[OF sim tl] by blast
  have f: "Matrix_fill_st h n m v = Inr (?m0, h')"
    using nm h'(1) by (simp add: Matrix_fill_st_def new_array_st_def new_array_def Let_def)
  have s: "snapshot h' ?m0 = t" using h'(2) by (simp add: tracks_def)
  have "h' = h @ [data t]"
  proof (rule nth_equalityI)
    show "length h' = length (h @ [data t])" using h'(2) by (simp add: tracks_def)
  next
    fix q assume q: "q < length h'"
    show "h' ! q = (h @ [data t]) ! q"
    proof (cases "q = length h")
      case True
      then show ?thesis using s by (auto simp: snapshot_def)
    next
      case False
      then have "h' ! q = ?h0 ! q" using h'(2) by (simp add: tracks_def)
      then show ?thesis using False q h'(2) by (simp add: tracks_def nth_append)
    qed
  qed
  then show ?thesis using f t s by auto
qed

section \<open>Copies and moves\<close>

lemma snapshot_append:
  "data m < length h \<Longrightarrow> snapshot (h @ ys) m = snapshot h m"
  by (simp add: snapshot_def nth_append)

lemma Matrix_copy_st_ok:
  assumes "wf_st h a"
  shows "\<exists>c h1 t. Matrix_copy_st h a = Inr (c, h1) \<and> Matrix_copy (snapshot h a) = Inr t
           \<and> data c = length h \<and> length h1 = length h + 1 \<and> (\<forall>q. q < length h \<longrightarrow> h1 ! q = h ! q)
           \<and> snapshot h1 c = t"
proof -
  have a: "data a < length h" "wf (snapshot h a)" using assms by (auto simp: wf_st_def)
  have d: "0 \<le> rows a" "0 \<le> cols a" using a(2) by (auto simp: wf_def)
  obtain f h0 z where f: "Matrix_fill_st h (rows a) (cols a) (0::'a) = Inr (f, h0)"
    "Matrix_fill (rows a) (cols a) (0::'a) = Inr z" "data f = length h" "h0 = h @ [data z]"
    "snapshot h0 f = z"
    using Matrix_fill_st_ok[OF d, of h 0] by blast
  have sa: "snapshot h0 a = snapshot h a" using f(4) a(1) by (simp add: snapshot_append)
  have p: "data f < length h0" "data a < length h0" "data a \<noteq> data f"
    using f(3,4) a(1) by auto
  obtain t where t: "Matrix_copy (snapshot h a) = Inr t"
    using Matrix_copy_ok[OF a(2)] by blast
  then have as: "Assign z (snapshot h a) = Inr t"
    using f(2) by (simp add: Matrix_copy_def CopyFrom_def Matrix_dims_def Rows_def Cols_def)
  obtain h1 where h1: "Assign_st h0 f a = Inr h1" "tracks h0 f h1 t"
    using rel_sum_Inr[OF Assign_st_sim[OF p]] as f(5) sa by auto
  have c: "Matrix_copy_st h a = Inr (f, h1)"
    using f(1) h1(1)
    by (simp add: Matrix_copy_st_def CopyFrom_st_def Matrix_dims_st_def Rows_def Cols_def Let_def)
  have "length h1 = length h + 1" using h1(2) f(4) by (simp add: tracks_def)
  moreover have "\<forall>q. q < length h \<longrightarrow> h1 ! q = h ! q"
    using h1(2) f(3,4) by (auto simp: tracks_def nth_append)
  moreover have "snapshot h1 f = t" using h1(2) by (simp add: tracks_def)
  ultimately show ?thesis using c t f(3) by blast
qed

lemma put_st_frame:
  assumes "put_st h m i j v = Inr h'"
  shows "length h' = length h \<and> (\<forall>q. q \<noteq> data m \<longrightarrow> h' ! q = h ! q)"
  using assms
  by (auto simp: put_st_def store_st_def bind_def store_def split: sum.splits if_splits)

lemma get_st_cong:
  assumes "h' ! data m = h ! data m" "data m < length h" "data m < length h'"
  shows "get_st h' m i j = get_st h m i j"
  using assms by (simp add: get_st_def load_st_eq)

lemma Matrix_default_st_ok:
  "Matrix_default_st h = Inr (mk 0 0 (length h), h @ [[]])"
  by (simp add: Matrix_default_st_def Matrix_dims_st_def Matrix_fill_st_def new_array_st_def
      new_array_def for_upto_def mk_def)

text \<open>
  Claim C7, as amended. The copy constructor allocates a new array and copies the
  elements into it: the copy has the size and the elements of the original, which is
  as it was, and writing an element of either leaves every element of the other as it
  was. After a move construction the source is in the state of a default-constructed
  matrix. A move assignment swaps: its source is left in the state its target had.
\<close>

theorem copy_is_deep_and_move_swaps:
  assumes "wf_st h a"
  shows "(\<exists>c h1. Matrix_copy_st h a = Inr (c, h1)
            \<and> data c = length h \<and> data c \<noteq> data a \<and> wf_st h1 c \<and> wf_st h1 a
            \<and> rows c = rows a \<and> cols c = cols a
            \<and> (\<forall>i j. inrange a i j \<longrightarrow> get_st h1 c i j = get_st h a i j)
            \<and> (\<forall>i j. get_st h1 a i j = get_st h a i j)
            \<and> (\<forall>i j v h2. put_st h1 c i j v = Inr h2 \<longrightarrow> (\<forall>k l. get_st h2 a k l = get_st h1 a k l))
            \<and> (\<forall>i j v h2. put_st h1 a i j v = Inr h2 \<longrightarrow> (\<forall>k l. get_st h2 c k l = get_st h1 c k l)))
       \<and> (\<exists>m other' h'. Matrix_move_st h a = Inr (m, other', h') \<and> m = a \<and> default_empty h' other'
            \<and> (\<forall>q. q < length h \<longrightarrow> h' ! q = h ! q))
       \<and> (\<forall>this. operator_assign_move this a = (a, this))"
proof (intro conjI)
  have a: "data a < length h" "wf (snapshot h a)" using assms by (auto simp: wf_st_def)
  obtain c h1 t where c: "Matrix_copy_st h a = Inr (c, h1)" "Matrix_copy (snapshot h a) = Inr t"
    "data c = length h" "length h1 = length h + 1" "\<forall>q. q < length h \<longrightarrow> h1 ! q = h ! q"
    "snapshot h1 c = t"
    using Matrix_copy_st_ok[OF assms] by blast
  have t: "shaped (rows a) (cols a) t" "\<forall>i j. inrange a i j \<longrightarrow> elem t i j = elem (snapshot h a) i j"
    using Matrix_copy_ok[OF a(2)] c(2) by (auto simp: inrange_def)
  have ne: "data c \<noteq> data a" using c(3) a(1) by simp
  have sa: "snapshot h1 a = snapshot h a" using c(5) a(1) by (simp add: snapshot_def)
  have wc: "wf_st h1 c" using c(3,4,6) t(1) by (simp add: wf_st_def shaped_wf)
  have wa: "wf_st h1 a" using sa a c(4) by (simp add: wf_st_def)
  have d: "rows c = rows a" "cols c = cols a"
    using c(6) shaped_wf_dims[OF t(1)] by (auto simp: snapshot_def)
  have ga: "get_st h1 a i j = get_st h a i j" for i j
    using a(1) c(4,5) by (intro get_st_cong) auto
  have gc: "get_st h1 c i j = get_st h a i j" if "inrange a i j" for i j
  proof -
    have "inrange t i j" using that shaped_wf_dims[OF t(1)] by (simp add: inrange_def)
    then have "get t i j = Inr (elem t i j)" using shaped_wf[OF t(1)] by (simp add: get_ok)
    moreover have "get (snapshot h a) i j = Inr (elem (snapshot h a) i j)"
      using that a(2) by (simp add: get_ok inrange_def)
    ultimately show ?thesis
      using t(2) that c(3,4,6) a(1) by (simp add: get_st_snapshot)
  qed
  have m1: "get_st h2 a k l = get_st h1 a k l" if "put_st h1 c i j v = Inr h2" for i j v h2 k l
    using put_st_frame[OF that] ne a(1) c(4) by (intro get_st_cong) auto
  have m2: "get_st h2 c k l = get_st h1 c k l" if "put_st h1 a i j v = Inr h2" for i j v h2 k l
    using put_st_frame[OF that] ne c(3,4) by (intro get_st_cong) auto
  show "\<exists>c h1. Matrix_copy_st h a = Inr (c, h1)
            \<and> data c = length h \<and> data c \<noteq> data a \<and> wf_st h1 c \<and> wf_st h1 a
            \<and> rows c = rows a \<and> cols c = cols a
            \<and> (\<forall>i j. inrange a i j \<longrightarrow> get_st h1 c i j = get_st h a i j)
            \<and> (\<forall>i j. get_st h1 a i j = get_st h a i j)
            \<and> (\<forall>i j v h2. put_st h1 c i j v = Inr h2 \<longrightarrow> (\<forall>k l. get_st h2 a k l = get_st h1 a k l))
            \<and> (\<forall>i j v h2. put_st h1 a i j v = Inr h2 \<longrightarrow> (\<forall>k l. get_st h2 c k l = get_st h1 c k l))"
    using c(1,3) ne wc wa d ga gc m1 m2 by blast
next
  have "Matrix_move_st h a = Inr (a, mk 0 0 (length h), h @ [[]])"
    by (simp add: Matrix_move_st_def Matrix_default_st_ok Swap_def)
  moreover have "default_empty (h @ [[]]) (mk 0 0 (length h))"
    by (simp add: default_empty_def)
  moreover have "\<forall>q. q < length h \<longrightarrow> (h @ [[]]) ! q = h ! q" by (simp add: nth_append)
  ultimately show "\<exists>m other' h'. Matrix_move_st h a = Inr (m, other', h') \<and> m = a
            \<and> default_empty h' other' \<and> (\<forall>q. q < length h \<longrightarrow> h' ! q = h ! q)"
    by blast
next
  show "\<forall>this. operator_assign_move this a = (a, this)"
    by (simp add: operator_assign_move_def Swap_def)
qed

section \<open>Views\<close>





lemma put_st_ok:
  assumes "wf_st h A" "inrange A i j"
  shows "\<exists>h2. put_st h A i j v = Inr h2"
proof -
  have "inrange (snapshot h A) i j" using assms(2) by (simp add: inrange_def)
  then have "0 \<le> idx (snapshot h A) i j" "idx (snapshot h A) i j < int (length (h ! data A))"
    using idx_ok[of "snapshot h A" i j] assms(1) by (auto simp: wf_st_def)
  then show ?thesis
    using assms by (simp add: put_st_def At_ok store_st_def store_def wf_st_def idx_def)
qed










theorem copy_is_deep_and_move_swaps_witness:
  "wf_st [[5::real]] (mk 1 1 0)
   \<and> (\<exists>c h1 h2 h3. Matrix_copy_st [[5::real]] (mk 1 1 0) = Inr (c, h1) \<and> data c = 1
         \<and> rows c = 1 \<and> cols c = 1 \<and> get_st h1 c 0 0 = Inr 5
         \<and> put_st h1 c 0 0 7 = Inr h2 \<and> get_st h2 (mk 1 1 0) 0 0 = Inr 5
         \<and> put_st h1 (mk 1 1 0) 0 0 7 = Inr h3 \<and> get_st h3 c 0 0 = Inr 5)
   \<and> (\<exists>other' h'. Matrix_move_st [[5::real]] (mk 1 1 0) = Inr (mk 1 1 0, other', h')
         \<and> default_empty h' other' \<and> get_st h' (mk 1 1 0) 0 0 = Inr 5)
   \<and> operator_assign_move (mk 0 0 1) (mk 1 1 0) = (mk 1 1 0, mk 0 0 1)"
proof -
  let ?h = "[[5::real]]"
  let ?a = "mk 1 1 (0::nat)"
  have w: "wf_st ?h ?a" by (simp add: wf_st_def wf_def snapshot_def)
  have r: "inrange ?a 0 0" by (simp add: inrange_def)
  have g: "get_st ?h ?a 0 0 = Inr 5"
    by (simp add: get_st_def At_def load_st_def load_def)
  note T = copy_is_deep_and_move_swaps[OF w]
  obtain c h1 where c: "Matrix_copy_st ?h ?a = Inr (c, h1)" "data c = length ?h"
    "wf_st h1 c" "wf_st h1 ?a" "rows c = rows ?a" "cols c = cols ?a"
    "\<forall>i j. inrange ?a i j \<longrightarrow> get_st h1 c i j = get_st ?h ?a i j"
    "\<forall>i j. get_st h1 ?a i j = get_st ?h ?a i j"
    "\<forall>i j v h2. put_st h1 c i j v = Inr h2 \<longrightarrow> (\<forall>k l. get_st h2 ?a k l = get_st h1 ?a k l)"
    "\<forall>i j v h2. put_st h1 ?a i j v = Inr h2 \<longrightarrow> (\<forall>k l. get_st h2 c k l = get_st h1 c k l)"
    using T by blast
  have rc: "inrange c 0 0" using c(5,6) by (simp add: inrange_def)
  obtain h2 where h2: "put_st h1 c 0 0 7 = Inr h2" using put_st_ok[OF c(3) rc] by blast
  obtain h3 where h3: "put_st h1 ?a 0 0 7 = Inr h3" using put_st_ok[OF c(4) r] by blast
  have 1: "get_st h1 c 0 0 = Inr 5" using c(7) r g by simp
  have 2: "get_st h2 ?a 0 0 = Inr 5" using c(9) h2 c(8) g by metis
  have 3: "get_st h3 c 0 0 = Inr 5" using c(10) h3 1 by metis
  have copy: "\<exists>c h1 h2 h3. Matrix_copy_st ?h ?a = Inr (c, h1) \<and> data c = 1
         \<and> rows c = 1 \<and> cols c = 1 \<and> get_st h1 c 0 0 = Inr 5
         \<and> put_st h1 c 0 0 7 = Inr h2 \<and> get_st h2 ?a 0 0 = Inr 5
         \<and> put_st h1 ?a 0 0 7 = Inr h3 \<and> get_st h3 c 0 0 = Inr 5"
    using c(1,2,5,6) 1 2 3 h2 h3 by auto
  obtain other' h' where m: "Matrix_move_st ?h ?a = Inr (?a, other', h')" "default_empty h' other'"
    "\<forall>q. q < length ?h \<longrightarrow> h' ! q = ?h ! q"
    using T by blast
  have "h' ! 0 = [5]" "0 < length h'" using m(3) m(1)
    by (auto simp: Matrix_move_st_def Matrix_default_st_ok Swap_def split: prod.splits)
  then have "get_st h' ?a 0 0 = Inr 5"
    by (simp add: get_st_def At_def load_st_def load_def)
  then have move: "\<exists>other' h'. Matrix_move_st ?h ?a = Inr (?a, other', h')
         \<and> default_empty h' other' \<and> get_st h' ?a 0 0 = Inr 5"
    using m by blast
  have "operator_assign_move (mk 0 0 1) ?a = (?a, mk 0 0 1)" using T by blast
  then show ?thesis using w copy move by blast
qed

text \<open>
  Claim C7 as stated fails for the move assignment. In a store with the arrays \<open>[5]\<close>
  and \<open>[7]\<close>, \<^verbatim>\<open>a = std::move(b)\<close> with \<open>a\<close> the 1 by 1 matrix on the first array and
  \<open>b\<close> the 1 by 1 matrix on the second leaves \<open>b\<close> as the 1 by 1 matrix holding 5,
  the former state of \<open>a\<close>, not as a default-constructed matrix.
\<close>

theorem move_assignment_source_counterexample:
  "operator_assign_move (mk 1 1 0) (mk 1 1 1) = (mk 1 1 1, mk 1 1 0)
   \<and> rows (snd (operator_assign_move (mk 1 1 0) (mk 1 1 1))) = 1
   \<and> get_st [[5], [7::real]] (snd (operator_assign_move (mk 1 1 0) (mk 1 1 1))) 0 0 = Inr 5
   \<and> \<not> default_empty [[5], [7::real]] (snd (operator_assign_move (mk 1 1 0) (mk 1 1 1)))"
  by (simp add: operator_assign_move_def Swap_def default_empty_def get_st_def At_def
      load_st_def load_def)

end
